theory Spec2Isabelle
  imports Complex_Main "HOL-Library.Char_ord" "HOL-Library.List_Lexorder"
begin

section \<open>Floating-point rounding\<close>

text \<open>
  The arithmetic of the notebook is binary floating point: \<^verbatim>\<open>float64\<close> in NumPy and
  pandas, \<^verbatim>\<open>float32\<close> in the torch tensors. The value of a float is a real number;
  an operation returns the exact result rounded to the nearest number with \<open>p\<close>
  significant bits, ties to the even one (\<open>p\<close> is 53 for \<^verbatim>\<open>float64\<close> and 24 for
  \<^verbatim>\<open>float32\<close>). \<open>expo x\<close> is the binary exponent of \<open>x\<close>. The exponent range is not
  bounded here: overflow to infinity and subnormal numbers are not modelled.
\<close>

definition expo :: "real \<Rightarrow> int" where
  "expo x = \<lfloor>log 2 \<bar>x\<bar>\<rfloor>"

definition round_even :: "real \<Rightarrow> int" where
  "round_even r =
     (let f = \<lfloor>r\<rfloor> in
      if r - of_int f < 1/2 then f
      else if 1/2 < r - of_int f then f + 1
      else if even f then f else f + 1)"

definition fl_round :: "nat \<Rightarrow> real \<Rightarrow> real" where
  "fl_round p x =
     (if x = 0 then 0
      else of_int (round_even (x / 2 powi (expo x - int p + 1))) * 2 powi (expo x - int p + 1))"

text \<open>
  The functions below that compute with floats take the arithmetic as a parameter:
  \<open>rnd\<close> rounds the exact result of one operation, and \<open>fsum\<close> is the sum of an array
  as the library computes it (the order of the additions is the library's).
  \<open>exact_ops\<close> is arithmetic without rounding; \<open>float64_ops\<close> and \<open>float32_ops\<close> round
  every operation and add from left to right.
\<close>

record float_ops =
  rnd :: "real \<Rightarrow> real"
  fsum :: "real list \<Rightarrow> real"

definition exact_ops :: float_ops where
  "exact_ops = \<lparr>rnd = (\<lambda>x. x), fsum = sum_list\<rparr>"

definition seq_sum :: "nat \<Rightarrow> real list \<Rightarrow> real" where
  "seq_sum p xs = foldl (\<lambda>a b. fl_round p (a + b)) 0 xs"

definition float64_ops :: float_ops where
  "float64_ops = \<lparr>rnd = fl_round 53, fsum = seq_sum 53\<rparr>"

definition float32_ops :: float_ops where
  "float32_ops = \<lparr>rnd = fl_round 24, fsum = seq_sum 24\<rparr>"

text \<open>What the theorems below need of a rounding function: it is monotone, it returns
  0, 1 and 100 unchanged, and it does not round a positive number to 0.\<close>

definition rounding :: "(real \<Rightarrow> real) \<Rightarrow> bool" where
  "rounding r =
     ((\<forall>x y. x \<le> y \<longrightarrow> r x \<le> r y) \<and> r 0 = 0 \<and> r 1 = 1 \<and> r 100 = 100
      \<and> (\<forall>x. 0 < x \<longrightarrow> 0 < r x))"


section \<open>Numeric values and errors\<close>

text \<open>
  The notebook \<^verbatim>\<open>playground/never-fair.ipynb\<close> computes with NumPy scalars.
  A NumPy \<^verbatim>\<open>float64\<close> is modelled by \<open>npfloat\<close>: a finite value is a real
  number, and the three special values are kept, because NumPy scalar division by zero
  does not raise: it warns and returns \<^verbatim>\<open>inf\<close>, \<^verbatim>\<open>-inf\<close> or \<^verbatim>\<open>nan\<close>.
  The operations of this section and of the next two compute without rounding; the
  section on the p%-rule with rounding adds the rounding of every operation. Overflow
  and the sign of zero are not modelled.
\<close>

datatype npfloat = Fin real | PInf | NInf | NaN

datatype py_error =
    IndexError
  | ValueError
  | TypeError
  | KeyError string
  | UnboundLocalError string
  | OverflowError
  | IOError

text \<open>\<^verbatim>\<open>a / b\<close> on NumPy scalars.\<close>

fun np_div :: "npfloat \<Rightarrow> npfloat \<Rightarrow> npfloat" where
  "np_div NaN b = NaN"
| "np_div a NaN = NaN"
| "np_div (Fin x) (Fin y) =
     (if y \<noteq> 0 then Fin (x / y) else if 0 < x then PInf else if x < 0 then NInf else NaN)"
| "np_div (Fin x) PInf = Fin 0"
| "np_div (Fin x) NInf = Fin 0"
| "np_div PInf (Fin y) = (if y < 0 then NInf else PInf)"
| "np_div NInf (Fin y) = (if y < 0 then PInf else NInf)"
| "np_div PInf PInf = NaN"
| "np_div PInf NInf = NaN"
| "np_div NInf PInf = NaN"
| "np_div NInf NInf = NaN"

text \<open>\<^verbatim>\<open>a * b\<close> on NumPy scalars.\<close>

fun np_mul :: "npfloat \<Rightarrow> npfloat \<Rightarrow> npfloat" where
  "np_mul NaN b = NaN"
| "np_mul a NaN = NaN"
| "np_mul (Fin x) (Fin y) = Fin (x * y)"
| "np_mul (Fin x) PInf = (if 0 < x then PInf else if x < 0 then NInf else NaN)"
| "np_mul (Fin x) NInf = (if 0 < x then NInf else if x < 0 then PInf else NaN)"
| "np_mul PInf (Fin y) = (if 0 < y then PInf else if y < 0 then NInf else NaN)"
| "np_mul NInf (Fin y) = (if 0 < y then NInf else if y < 0 then PInf else NaN)"
| "np_mul PInf PInf = PInf"
| "np_mul PInf NInf = NInf"
| "np_mul NInf PInf = NInf"
| "np_mul NInf NInf = PInf"

text \<open>\<^verbatim>\<open>np.min([a, b])\<close>: the minimum of a two-element array; a \<^verbatim>\<open>nan\<close> entry
  makes the result \<^verbatim>\<open>nan\<close>.\<close>

fun np_min2 :: "npfloat \<Rightarrow> npfloat \<Rightarrow> npfloat" where
  "np_min2 NaN b = NaN"
| "np_min2 a NaN = NaN"
| "np_min2 NInf b = NInf"
| "np_min2 a NInf = NInf"
| "np_min2 PInf b = b"
| "np_min2 a PInf = a"
| "np_min2 (Fin x) (Fin y) = Fin (min x y)"

text \<open>\<^verbatim>\<open>a <= b\<close> on floats: every comparison with \<^verbatim>\<open>nan\<close> is false.\<close>

fun np_le :: "npfloat \<Rightarrow> npfloat \<Rightarrow> bool" where
  "np_le NaN b = False"
| "np_le a NaN = False"
| "np_le NInf b = True"
| "np_le a PInf = True"
| "np_le PInf b = False"
| "np_le a NInf = False"
| "np_le (Fin x) (Fin y) = (x \<le> y)"

text \<open>\<^verbatim>\<open>a.mean()\<close> of a one-dimensional array of numbers (a boolean array counts
  \<^verbatim>\<open>True\<close> as 1): the mean of an empty array is \<^verbatim>\<open>nan\<close>.\<close>

definition np_mean :: "real list \<Rightarrow> npfloat" where
  "np_mean xs = (if xs = [] then NaN else Fin (sum_list xs / real (length xs)))"

section \<open>Boolean masks\<close>

text \<open>
  The metric functions take one-dimensional arrays. \<^verbatim>\<open>a[mask]\<close> keeps the entries
  whose mask is true, and \<^verbatim>\<open>m1 & m2\<close> works entry by entry. For arguments of
  different lengths the two definitions follow NumPy arrays (\<^verbatim>\<open>IndexError\<close> for a
  mask of another length; a one-element operand of \<^verbatim>\<open>&\<close> broadcasts, any other
  pair raises \<^verbatim>\<open>ValueError\<close>). The notebook passes pandas Series over one common
  index, which have one length and behave as the arrays do; Series of different
  lengths or indexes are aligned by pandas and are not modelled, and every theorem on
  the metrics is about arguments of one length.
\<close>

definition np_index :: "'a list \<Rightarrow> bool list \<Rightarrow> py_error + 'a list" where
  "np_index a msk =
     (if length msk = length a then Inr (map fst (filter snd (zip a msk)))
      else Inl IndexError)"

definition np_and :: "bool list \<Rightarrow> bool list \<Rightarrow> py_error + bool list" where
  "np_and m1 m2 =
     (if length m1 = length m2 then Inr (map (\<lambda>(a, b). a \<and> b) (zip m1 m2))
      else if length m1 = 1 then Inr (map (\<lambda>b. hd m1 \<and> b) m2)
      else if length m2 = 1 then Inr (map (\<lambda>a. a \<and> hd m2) m1)
      else Inl ValueError)"

text \<open>\<^verbatim>\<open>a > t\<close> on an array, with \<^verbatim>\<open>True\<close> read as 1 and \<^verbatim>\<open>False\<close> as 0.\<close>

definition gt_mask :: "real list \<Rightarrow> real \<Rightarrow> real list" where
  "gt_mask a t = map (\<lambda>p. if t < p then 1 else 0) a"

definition le_mask :: "real list \<Rightarrow> real \<Rightarrow> real list" where
  "le_mask a t = map (\<lambda>p. if p \<le> t then 1 else 0) a"

section \<open>Fairness metrics\<close>

text \<open>
  \<^verbatim>\<open>
  def p_rule(y_pred, z_values, threshold=0.5):
      y_z_1 = y_pred[z_values == 1] > threshold if threshold else y_pred[z_values == 1]
      y_z_0 = y_pred[z_values == 0] > threshold if threshold else y_pred[z_values == 0]
      odds = y_z_1.mean() / y_z_0.mean()
      return np.min([odds, 1/odds]) * 100
  \<close>
  The condition \<^verbatim>\<open>if threshold\<close> is false exactly for the number 0.
\<close>

definition select_group :: "real list \<Rightarrow> int list \<Rightarrow> int \<Rightarrow> real \<Rightarrow> py_error + real list" where
  "select_group y_pred z_values g threshold =
     (if threshold \<noteq> 0
      then (case np_index y_pred (map (\<lambda>z. z = g) z_values) of
              Inl e \<Rightarrow> Inl e
            | Inr sel \<Rightarrow> Inr (gt_mask sel threshold))
      else np_index y_pred (map (\<lambda>z. z = g) z_values))"

definition p_rule_odds :: "real list \<Rightarrow> int list \<Rightarrow> real \<Rightarrow> py_error + npfloat" where
  "p_rule_odds y_pred z_values threshold =
     (case select_group y_pred z_values 1 threshold of
        Inl e \<Rightarrow> Inl e
      | Inr y_z_1 \<Rightarrow>
          (case select_group y_pred z_values 0 threshold of
             Inl e \<Rightarrow> Inl e
           | Inr y_z_0 \<Rightarrow> Inr (np_div (np_mean y_z_1) (np_mean y_z_0))))"

definition p_rule :: "real list \<Rightarrow> int list \<Rightarrow> real \<Rightarrow> py_error + npfloat" where
  "p_rule y_pred z_values threshold =
     (case p_rule_odds y_pred z_values threshold of
        Inl e \<Rightarrow> Inl e
      | Inr odds \<Rightarrow> Inr (np_mul (np_min2 odds (np_div (Fin 1) odds)) (Fin 100)))"

text \<open>
  \<^verbatim>\<open>
  def fp_rate(y_test, y_pred, z_values, threshold=0.5):
      z_1 = y_pred[(y_test == False) & (z_values == 1)]
      z_0 = y_pred[(y_test == False) & (z_values == 0)]
      return {0: (z_0 > threshold).sum() / len(z_0), 1:(z_1 > threshold).sum() / len(z_1)}
  \<close>
  Labels are integers: \<^verbatim>\<open>y_test == False\<close> holds for 0 and \<^verbatim>\<open>y_test == True\<close>
  for 1. The sum of a boolean array is a NumPy integer, so the division by a zero
  length does not raise. The returned dictionary is the list of its items in order.
\<close>

definition cell :: "int list \<Rightarrow> real list \<Rightarrow> int list \<Rightarrow> int \<Rightarrow> int \<Rightarrow> py_error + real list" where
  "cell y_test y_pred z_values label g =
     (case np_and (map (\<lambda>y. y = label) y_test) (map (\<lambda>z. z = g) z_values) of
        Inl e \<Rightarrow> Inl e
      | Inr msk \<Rightarrow> np_index y_pred msk)"

definition count_ratio :: "real list \<Rightarrow> real list \<Rightarrow> npfloat" where
  "count_ratio hits c = np_div (Fin (sum_list hits)) (Fin (real (length c)))"

definition fp_rate :: "int list \<Rightarrow> real list \<Rightarrow> int list \<Rightarrow> real \<Rightarrow> py_error + (int \<times> npfloat) list" where
  "fp_rate y_test y_pred z_values threshold =
     (case cell y_test y_pred z_values 0 1 of
        Inl e \<Rightarrow> Inl e
      | Inr z_1 \<Rightarrow>
          (case cell y_test y_pred z_values 0 0 of
             Inl e \<Rightarrow> Inl e
           | Inr z_0 \<Rightarrow>
               Inr [(0, count_ratio (gt_mask z_0 threshold) z_0),
                    (1, count_ratio (gt_mask z_1 threshold) z_1)]))"

definition fn_rate :: "int list \<Rightarrow> real list \<Rightarrow> int list \<Rightarrow> real \<Rightarrow> py_error + (int \<times> npfloat) list" where
  "fn_rate y_test y_pred z_values threshold =
     (case cell y_test y_pred z_values 1 1 of
        Inl e \<Rightarrow> Inl e
      | Inr z_1 \<Rightarrow>
          (case cell y_test y_pred z_values 1 0 of
             Inl e \<Rightarrow> Inl e
           | Inr z_0 \<Rightarrow>
               Inr [(0, count_ratio (le_mask z_0 threshold) z_0),
                    (1, count_ratio (le_mask z_1 threshold) z_1)]))"

subsection \<open>The p%-rule as the glossary words it\<close>

text \<open>
  The positive-prediction rate of a group: the fraction of the samples of group \<open>g\<close>
  whose prediction exceeds \<open>t\<close>. These definitions follow the words of the
  specification, not the code; they are what \<open>p_rule\<close> is compared with.
\<close>

definition group_preds :: "real list \<Rightarrow> int list \<Rightarrow> int \<Rightarrow> real list" where
  "group_preds y_pred z_values g = map fst (filter (\<lambda>(p, z). z = g) (zip y_pred z_values))"

definition positive_rate :: "real list \<Rightarrow> int list \<Rightarrow> int \<Rightarrow> real \<Rightarrow> npfloat" where
  "positive_rate y_pred z_values g t =
     np_div (Fin (real (length (filter (\<lambda>p. t < p) (group_preds y_pred z_values g)))))
            (Fin (real (length (group_preds y_pred z_values g))))"

definition p_rule_spec :: "real list \<Rightarrow> int list \<Rightarrow> real \<Rightarrow> npfloat" where
  "p_rule_spec y_pred z_values t =
     (let r1 = positive_rate y_pred z_values 1 t;
          r0 = positive_rate y_pred z_values 0 t
      in np_mul (np_min2 (np_div r1 r0) (np_div r0 r1)) (Fin 100))"

text \<open>Swapping the two group labels; any other label stays.\<close>

definition swap_groups :: "int list \<Rightarrow> int list" where
  "swap_groups z_values = map (\<lambda>z. if z = 1 then 0 else if z = 0 then 1 else z) z_values"


definition indicator_mean_ratio :: "real list \<Rightarrow> int list \<Rightarrow> real \<Rightarrow> npfloat" where
  "indicator_mean_ratio y_pred z_values t =
     (let odds = np_div (np_mean (gt_mask (group_preds y_pred z_values 1) t))
                        (np_mean (gt_mask (group_preds y_pred z_values 0) t))
      in np_mul (np_min2 odds (np_div (Fin 1) odds)) (Fin 100))"

text \<open>A rate is \<^verbatim>\<open>nan\<close> (empty group) or a number between 0 and 1.\<close>

definition is_rate :: "npfloat \<Rightarrow> bool" where
  "is_rate r = (case r of NaN \<Rightarrow> True | Fin x \<Rightarrow> 0 \<le> x \<and> x \<le> 1 | _ \<Rightarrow> False)"

text \<open>The predictions of the samples with label \<open>label\<close> in group \<open>g\<close>: one cell of the
  (label, group) table that \<^verbatim>\<open>fp_rate\<close> and \<^verbatim>\<open>fn_rate\<close> divide by.\<close>

definition cell_members :: "int list \<Rightarrow> real list \<Rightarrow> int list \<Rightarrow> int \<Rightarrow> int \<Rightarrow> real list" where
  "cell_members y_test y_pred z_values label g =
     map fst (filter (\<lambda>(p, y, z). y = label \<and> z = g) (zip y_pred (zip y_test z_values)))"

section \<open>The p%-rule with rounding\<close>

text \<open>
  \<open>p_rule\<close> again, with the arithmetic as a parameter: at \<open>float64_ops\<close> this is the
  code on \<^verbatim>\<open>float64\<close> numbers, at \<open>exact_ops\<close> it is \<open>p_rule\<close> above. Every
  operation with a finite result rounds it; the special values stay.
\<close>

definition round_np :: "(real \<Rightarrow> real) \<Rightarrow> npfloat \<Rightarrow> npfloat" where
  "round_np r v = (case v of Fin x \<Rightarrow> Fin (r x) | _ \<Rightarrow> v)"

definition np_div_fl :: "(real \<Rightarrow> real) \<Rightarrow> npfloat \<Rightarrow> npfloat \<Rightarrow> npfloat" where
  "np_div_fl r a b = round_np r (np_div a b)"

definition np_mul_fl :: "(real \<Rightarrow> real) \<Rightarrow> npfloat \<Rightarrow> npfloat \<Rightarrow> npfloat" where
  "np_mul_fl r a b = round_np r (np_mul a b)"

text \<open>\<^verbatim>\<open>a.mean()\<close> of a boolean array: the number of \<^verbatim>\<open>True\<close> entries (a sum of
  ones, exact in any order) divided by the length. \<^verbatim>\<open>a.mean()\<close> of an array of
  numbers: their sum divided by the length.\<close>

definition np_mean_bool :: "(real \<Rightarrow> real) \<Rightarrow> bool list \<Rightarrow> npfloat" where
  "np_mean_bool r bs =
     (if bs = [] then NaN
      else Fin (r (real (length (filter (\<lambda>b. b) bs)) / real (length bs))))"

definition np_mean_fl :: "float_ops \<Rightarrow> real list \<Rightarrow> npfloat" where
  "np_mean_fl F xs = (if xs = [] then NaN else Fin (rnd F (fsum F xs / real (length xs))))"

text \<open>The mean \<^verbatim>\<open>y_z_g.mean()\<close> of one group, and \<^verbatim>\<open>p_rule\<close>.\<close>

definition group_mean_fl ::
  "float_ops \<Rightarrow> real list \<Rightarrow> int list \<Rightarrow> int \<Rightarrow> real \<Rightarrow> py_error + npfloat" where
  "group_mean_fl F y_pred z_values g threshold =
     (case np_index y_pred (map (\<lambda>z. z = g) z_values) of
        Inl e \<Rightarrow> Inl e
      | Inr sel \<Rightarrow>
          Inr (if threshold \<noteq> 0 then np_mean_bool (rnd F) (map (\<lambda>p. threshold < p) sel)
               else np_mean_fl F sel))"

definition p_rule_fl :: "float_ops \<Rightarrow> real list \<Rightarrow> int list \<Rightarrow> real \<Rightarrow> py_error + npfloat" where
  "p_rule_fl F y_pred z_values threshold =
     (case group_mean_fl F y_pred z_values 1 threshold of
        Inl e \<Rightarrow> Inl e
      | Inr m1 \<Rightarrow>
          (case group_mean_fl F y_pred z_values 0 threshold of
             Inl e \<Rightarrow> Inl e
           | Inr m0 \<Rightarrow>
               (let odds = np_div_fl (rnd F) m1 m0
                in Inr (np_mul_fl (rnd F) (np_min2 odds (np_div_fl (rnd F) (Fin 1) odds))
                          (Fin 100)))))"

text \<open>
  In the words of the specification, with the rounding: the positive-prediction rate
  of group \<open>g\<close> as a rounded quotient, and the smaller of the quotient of two rates and
  its computed reciprocal, times 100.
\<close>

definition rate_fl :: "(real \<Rightarrow> real) \<Rightarrow> real list \<Rightarrow> int list \<Rightarrow> int \<Rightarrow> real \<Rightarrow> npfloat" where
  "rate_fl r y_pred z_values g t =
     np_div_fl r (Fin (real (length (filter (\<lambda>p. t < p) (group_preds y_pred z_values g)))))
                 (Fin (real (length (group_preds y_pred z_values g))))"

definition min_odds_fl :: "(real \<Rightarrow> real) \<Rightarrow> npfloat \<Rightarrow> npfloat \<Rightarrow> npfloat" where
  "min_odds_fl r r1 r0 =
     (let odds = np_div_fl r r1 r0
      in np_mul_fl r (np_min2 odds (np_div_fl r (Fin 1) odds)) (Fin 100))"

section \<open>Loading the data\<close>

text \<open>
  A pandas \<^verbatim>\<open>DataFrame\<close> is the list of its labelled columns, in order. A column
  read from a CSV file has one of four dtypes; an \<^verbatim>\<open>object\<close> column holds strings,
  with \<open>None\<close> for a missing value (\<^verbatim>\<open>NaN\<close>). Frames are meant with distinct
  column labels, which \<^verbatim>\<open>pd.read_csv\<close> guarantees by renaming duplicates.
\<close>

datatype column =
    IntCol "int list"
  | FloatCol "npfloat list"
  | BoolCol "bool list"
  | ObjCol "string option list"

type_synonym frame = "(string \<times> column) list"

text \<open>\<^verbatim>\<open>df[label]\<close>: the column, or \<^verbatim>\<open>KeyError\<close>.\<close>

definition getitem :: "frame \<Rightarrow> string \<Rightarrow> py_error + column" where
  "getitem df label = (case map_of df label of None \<Rightarrow> Inl (KeyError label) | Some c \<Rightarrow> Inr c)"

text \<open>\<^verbatim>\<open>df.loc[:, labels]\<close>: the listed columns, or \<^verbatim>\<open>KeyError\<close> for a label that
  is not a column.\<close>

fun loc_columns :: "frame \<Rightarrow> string list \<Rightarrow> py_error + frame" where
  "loc_columns df [] = Inr []"
| "loc_columns df (l # ls) =
     (case map_of df l of
        None \<Rightarrow> Inl (KeyError l)
      | Some c \<Rightarrow> (case loc_columns df ls of Inl e \<Rightarrow> Inl e | Inr r \<Rightarrow> Inr ((l, c) # r)))"

text \<open>\<^verbatim>\<open>series == s\<close> for a string \<open>s\<close>: entry by entry on an object column (a missing
  value equals nothing). On a numeric or boolean column the pandas the notebook is
  written for (it still has \<^verbatim>\<open>as_matrix\<close>) raises
  \<^verbatim>\<open>TypeError: invalid type comparison\<close>.\<close>

fun series_eq_str :: "column \<Rightarrow> string \<Rightarrow> py_error + bool list" where
  "series_eq_str (ObjCol cs) s = Inr (map (\<lambda>c. c = Some s) cs)"
| "series_eq_str (IntCol xs) s = Inl TypeError"
| "series_eq_str (FloatCol xs) s = Inl TypeError"
| "series_eq_str (BoolCol xs) s = Inl TypeError"

text \<open>\<^verbatim>\<open>mask.astype(int)\<close> on a boolean Series.\<close>

definition bools_astype_int :: "bool list \<Rightarrow> column" where
  "bools_astype_int bs = IntCol (map (\<lambda>b. if b then 1 else 0) bs)"

text \<open>\<^verbatim>\<open>df.assign(label=col)\<close>: replaces the column of that label where it stands, or
  appends it.\<close>

definition assign :: "frame \<Rightarrow> string \<Rightarrow> column \<Rightarrow> frame" where
  "assign df label col =
     (if label \<in> set (map fst df)
      then map (\<lambda>(l, c). if l = label then (l, col) else (l, c)) df
      else df @ [(label, col)])"

text \<open>
  \<^verbatim>\<open>series.astype(int)\<close>, where \<^verbatim>\<open>int\<close> is the 64-bit integer. Integers stay
  and booleans become 0 and 1. A float is truncated towards zero; a \<^verbatim>\<open>nan\<close> or
  infinite float raises \<^verbatim>\<open>ValueError\<close>, and a finite float whose integer part is
  outside the 64-bit range becomes \<open>-2\<^sup>6\<^sup>3\<close> (the result of the conversion
  instruction of x86-64). On an object column every entry goes through Python's
  \<^verbatim>\<open>int\<close>, which is the parameter \<open>py_int\<close> (\<open>None\<close> where it raises
  \<^verbatim>\<open>ValueError\<close>); a missing value raises \<^verbatim>\<open>ValueError\<close> and an integer outside
  the 64-bit range raises \<^verbatim>\<open>OverflowError\<close>. The entries are converted in order,
  and the first error is the result.
\<close>

definition in_int64 :: "int \<Rightarrow> bool" where
  "in_int64 n = (- (2 ^ 63) \<le> n \<and> n < 2 ^ 63)"

fun float_to_int :: "npfloat \<Rightarrow> int option" where
  "float_to_int (Fin x) =
     Some (let n = (if 0 \<le> x then \<lfloor>x\<rfloor> else \<lceil>x\<rceil>) in if in_int64 n then n else - (2 ^ 63))"
| "float_to_int PInf = None"
| "float_to_int NInf = None"
| "float_to_int NaN = None"

fun all_some :: "'a option list \<Rightarrow> 'a list option" where
  "all_some [] = Some []"
| "all_some (None # xs) = None"
| "all_some (Some x # xs) = (case all_some xs of None \<Rightarrow> None | Some r \<Rightarrow> Some (x # r))"

definition or_value_error :: "'a option \<Rightarrow> py_error + 'a" where
  "or_value_error r = (case r of None \<Rightarrow> Inl ValueError | Some v \<Rightarrow> Inr v)"

fun strs_astype_int :: "(string \<Rightarrow> int option) \<Rightarrow> string option list \<Rightarrow> py_error + int list" where
  "strs_astype_int py_int [] = Inr []"
| "strs_astype_int py_int (None # cs) = Inl ValueError"
| "strs_astype_int py_int (Some s # cs) =
     (case py_int s of
        None \<Rightarrow> Inl ValueError
      | Some n \<Rightarrow>
          if in_int64 n
          then (case strs_astype_int py_int cs of Inl e \<Rightarrow> Inl e | Inr r \<Rightarrow> Inr (n # r))
          else Inl OverflowError)"

fun astype_int :: "(string \<Rightarrow> int option) \<Rightarrow> column \<Rightarrow> py_error + int list" where
  "astype_int py_int (IntCol xs) = Inr xs"
| "astype_int py_int (BoolCol bs) = Inr (map (\<lambda>b. if b then 1 else 0) bs)"
| "astype_int py_int (FloatCol fs) = or_value_error (all_some (map float_to_int fs))"
| "astype_int py_int (ObjCol cs) = strs_astype_int py_int cs"

text \<open>\<^verbatim>\<open>df.drop(columns=labels)\<close>: \<^verbatim>\<open>KeyError\<close> for a label that is not a column.\<close>

definition drop_columns :: "frame \<Rightarrow> string list \<Rightarrow> py_error + frame" where
  "drop_columns df labels =
     (case filter (\<lambda>l. l \<notin> set (map fst df)) labels of
        [] \<Rightarrow> Inr (filter (\<lambda>(l, c). l \<notin> set labels) df)
      | l # ls \<Rightarrow> Inl (KeyError l))"

text \<open>
  \<^verbatim>\<open>pd.get_dummies(df, drop_first=True)\<close>. The object columns are encoded: the levels
  of a column are its distinct values, sorted, without the missing value; the first
  level is dropped and every other level \<open>l\<close> of column \<open>c\<close> becomes the indicator
  column \<^verbatim>\<open>c_l\<close>. The other columns are kept and come first. The pieces are
  concatenated, and \<^verbatim>\<open>pd.concat\<close> of no piece at all (a frame with no column)
  raises \<^verbatim>\<open>ValueError\<close>.
\<close>

definition levels :: "string option list \<Rightarrow> string list" where
  "levels cs = sort (remdups (concat (map (\<lambda>c. case c of None \<Rightarrow> [] | Some s \<Rightarrow> [s]) cs)))"

definition indicator :: "string option list \<Rightarrow> string \<Rightarrow> column" where
  "indicator cs l = IntCol (map (\<lambda>c. if c = Some l then 1 else 0) cs)"

definition dummy_name :: "string \<Rightarrow> string \<Rightarrow> string" where
  "dummy_name c l = c @ ''_'' @ l"

fun is_object :: "column \<Rightarrow> bool" where
  "is_object (ObjCol cs) = True"
| "is_object (IntCol xs) = False"
| "is_object (FloatCol xs) = False"
| "is_object (BoolCol xs) = False"

fun dummies_1d :: "string \<times> column \<Rightarrow> frame" where
  "dummies_1d (c, ObjCol cs) = map (\<lambda>l. (dummy_name c l, indicator cs l)) (tl (levels cs))"
| "dummies_1d (c, IntCol xs) = []"
| "dummies_1d (c, FloatCol xs) = []"
| "dummies_1d (c, BoolCol xs) = []"

definition get_dummies_drop_first :: "frame \<Rightarrow> py_error + frame" where
  "get_dummies_drop_first df =
     (let data_to_encode = filter (\<lambda>(l, c). is_object c) df;
          with_dummies =
            (if length data_to_encode = length df then []
             else [filter (\<lambda>(l, c). \<not> is_object c) df])
            @ map dummies_1d data_to_encode
      in if with_dummies = [] then Inl ValueError else Inr (concat with_dummies))"

text \<open>
  \<^verbatim>\<open>
  def load_GEN_data(path):
      input_data = pd.read_csv(path)
      sensitive_attribs = ['protected']
      Z = (input_data.loc[:, sensitive_attribs]
           .assign(protected=lambda df: (df['protected'] == 'B').astype(int)))
      y = input_data['target'].astype(int)
      X = (input_data
           .drop(columns=['target', 'protected'])
           .pipe(pd.get_dummies, drop_first=True))
      ...
      return X, y, Z
  \<close>
  \<^verbatim>\<open>pd.read_csv\<close> (the file system and the parser) is the parameter \<open>read_csv\<close>.
  The three \<^verbatim>\<open>print\<close> lines before the return only read the shapes and are left
  out. Nothing is caught: the first error is the result.
\<close>

definition sensitive_attribs :: "string list" where
  "sensitive_attribs = [''protected'']"

definition load_GEN_data ::
  "(string \<Rightarrow> py_error + frame) \<Rightarrow> (string \<Rightarrow> int option) \<Rightarrow> string
     \<Rightarrow> py_error + (frame \<times> int list \<times> frame)" where
  "load_GEN_data read_csv py_int path =
     (case read_csv path of Inl e \<Rightarrow> Inl e | Inr input_data \<Rightarrow>
     (case loc_columns input_data sensitive_attribs of Inl e \<Rightarrow> Inl e | Inr sens \<Rightarrow>
     (case getitem sens ''protected'' of Inl e \<Rightarrow> Inl e | Inr pcol \<Rightarrow>
     (case series_eq_str pcol ''B'' of Inl e \<Rightarrow> Inl e | Inr is_b \<Rightarrow>
     (let Z = assign sens ''protected'' (bools_astype_int is_b) in
     (case getitem input_data ''target'' of Inl e \<Rightarrow> Inl e | Inr tcol \<Rightarrow>
     (case astype_int py_int tcol of Inl e \<Rightarrow> Inl e | Inr y \<Rightarrow>
     (case drop_columns input_data [''target'', ''protected''] of Inl e \<Rightarrow> Inl e | Inr feats \<Rightarrow>
     (case get_dummies_drop_first feats of Inl e \<Rightarrow> Inl e | Inr X \<Rightarrow>
        Inr (X, y, Z))))))))))"

text \<open>The columns of \<open>X\<close> as the specification words them: the columns other than
  \<^verbatim>\<open>target\<close> and \<^verbatim>\<open>protected\<close>, the object ones replaced by the indicators of all
  their levels but the first.\<close>

definition feature_columns :: "frame \<Rightarrow> (string \<times> column) set" where
  "feature_columns df =
     {(l, c). (l, c) \<in> set df \<and> l \<noteq> ''target'' \<and> l \<noteq> ''protected'' \<and> \<not> is_object c}
     \<union> {(dummy_name c l, indicator cs l) | c cs l.
          (c, ObjCol cs) \<in> set df \<and> c \<noteq> ''target'' \<and> c \<noteq> ''protected''
          \<and> l \<in> set (tl (levels cs))}"

text \<open>An example file: two features, one of them categorical.\<close>

definition example_csv :: frame where
  "example_csv =
     [(''protected'', ObjCol [Some ''A'', Some ''B'', Some ''B'', None]),
      (''x1'', FloatCol [Fin (1/2), Fin 2, Fin 3, Fin 4]),
      (''colour'', ObjCol [Some ''red'', Some ''blue'', Some ''green'', Some ''red'']),
      (''target'', IntCol [0, 1, 1, 0])]"

definition example_fs :: "string \<Rightarrow> py_error + frame" where
  "example_fs path =
     (if path = ''data/generated.data'' then Inr example_csv
      else if path = ''data/no_protected.csv'' then Inr (filter (\<lambda>(l, c). l \<noteq> ''protected'') example_csv)
      else if path = ''data/no_target.csv'' then Inr (filter (\<lambda>(l, c). l \<noteq> ''target'') example_csv)
      else if path = ''data/bad_target.csv''
        then Inr [(''protected'', ObjCol [Some ''A'', Some ''B'']),
                  (''x1'', IntCol [3, 4]),
                  (''target'', ObjCol [Some ''yes'', Some ''no''])]
      else Inl IOError)"

text \<open>A second file, with a \<^verbatim>\<open>target\<close> column of floats, one of them beyond the
  64-bit integers, and a third with a \<^verbatim>\<open>target\<close> column of strings.\<close>

definition float_target_csv :: frame where
  "float_target_csv =
     [(''target'', FloatCol [Fin (9/10), Fin 1, Fin (- 3/2), Fin 10000000000000000000]),
      (''colour'', ObjCol [Some ''red'', None, Some ''green'', Some ''red'']),
      (''protected'', ObjCol [Some ''B'', Some ''A'', Some ''B'', Some ''A'']),
      (''x1'', IntCol [5, 6, 7, 8])]"

definition string_target_csv :: frame where
  "string_target_csv =
     [(''protected'', ObjCol [Some ''A'', Some ''B'']),
      (''x1'', IntCol [3, 4]),
      (''target'', ObjCol [Some ''1'', Some ''0''])]"

definition more_fs :: "string \<Rightarrow> py_error + frame" where
  "more_fs path =
     (if path = ''data/float_target.csv'' then Inr float_target_csv
      else if path = ''data/string_target.csv'' then Inr string_target_csv
      else Inl IOError)"

text \<open>Python's \<^verbatim>\<open>int\<close> on the strings of a single binary digit, for the examples.\<close>

definition int_of_bit :: "string \<Rightarrow> int option" where
  "int_of_bit s = (if s = ''0'' then Some 0 else if s = ''1'' then Some 1 else None)"

text \<open>
  In the words of the specification: an integer \<open>n\<close> is the float \<open>x\<close> cut to its
  integer part when it lies between 0 and \<open>x\<close> and is less than 1 away from \<open>x\<close>.
\<close>

definition truncates :: "real \<Rightarrow> int \<Rightarrow> bool" where
  "truncates x n =
     (\<bar>x - of_int n\<bar> < 1 \<and> (0 \<le> x \<longrightarrow> 0 \<le> n \<and> of_int n \<le> x)
      \<and> (x \<le> 0 \<longrightarrow> n \<le> 0 \<and> x \<le> of_int n))"

section \<open>Networks\<close>

text \<open>
  The two \<^verbatim>\<open>nn.Module\<close> classes build an \<^verbatim>\<open>nn.Sequential\<close> of layers and apply
  a sigmoid to its output. A layer is kept by its shape: \<open>Linear i o\<close> maps a row of
  \<open>i\<close> numbers to a row of \<open>o\<close> numbers and rejects any other width; \<open>ReLU\<close>,
  \<open>Dropout\<close> and the sigmoid keep the width. The weights are drawn by the library
  when the module is built and are not part of these definitions.
\<close>

datatype layer = Linear nat nat | ReLU | Dropout real

definition Classifier :: "nat \<Rightarrow> nat \<Rightarrow> real \<Rightarrow> layer list" where
  "Classifier n_features n_hidden p_dropout =
     [Linear n_features n_hidden, ReLU, Dropout p_dropout,
      Linear n_hidden n_hidden, ReLU, Dropout p_dropout,
      Linear n_hidden n_hidden, ReLU, Dropout p_dropout,
      Linear n_hidden 1]"

definition Adverserial :: "nat \<Rightarrow> nat \<Rightarrow> layer list" where
  "Adverserial n_sensitive n_hidden =
     [Linear 1 n_hidden, ReLU,
      Linear n_hidden n_hidden, ReLU,
      Linear n_hidden n_hidden, ReLU,
      Linear n_hidden n_sensitive]"

text \<open>The width of the output of a layer, and of a sequence of layers, on rows of
  width \<open>n\<close>; \<open>None\<close> is the shape error of the library.\<close>

fun layer_width :: "layer \<Rightarrow> nat \<Rightarrow> nat option" where
  "layer_width (Linear i out) n = (if n = i then Some out else None)"
| "layer_width ReLU n = Some n"
| "layer_width (Dropout p) n = Some n"

fun sequential_width :: "layer list \<Rightarrow> nat \<Rightarrow> nat option" where
  "sequential_width [] n = Some n"
| "sequential_width (l # ls) n =
     (case layer_width l n of None \<Rightarrow> None | Some m \<Rightarrow> sequential_width ls m)"

section \<open>Tensors, losses and the training state\<close>

text \<open>
  A tensor is a matrix with one row per sample of the batch; the parameters of a module
  and their gradient buffers are flat lists of numbers. An entry is the value of a
  \<^verbatim>\<open>float32\<close> number; the arithmetic on tensors is the parameter \<open>F\<close>
  (\<open>float32_ops\<close> for the notebook), so every operation rounds its result.
  \<^verbatim>\<open>t.sum()\<close> adds all entries of the tensor.
\<close>

type_synonym tensor = "real list list"
type_synonym params = "real list"

definition tensor_sum :: "float_ops \<Rightarrow> tensor \<Rightarrow> real" where
  "tensor_sum F t = fsum F (concat t)"

definition numel :: "tensor \<Rightarrow> nat" where
  "numel t = sum_list (map length t)"

text \<open>\<^verbatim>\<open>lambdas = torch.Tensor([20])\<close>. A tensor with one element broadcasts: the
  product \<^verbatim>\<open>t * lambdas\<close> multiplies every entry of \<open>t\<close> by that element.\<close>

definition lambdas :: "real list" where
  "lambdas = [20]"

definition times_lambdas :: "float_ops \<Rightarrow> tensor \<Rightarrow> tensor" where
  "times_lambdas F t = map (map (\<lambda>v. rnd F (v * hd lambdas))) t"

text \<open>
  The binary cross-entropy of one entry, for an input \<open>p\<close> between 0 and 1 (the output
  of a sigmoid) and a target \<open>t\<close>, is computed by the library as
  \<^verbatim>\<open>(t - 1) * max(log(1 - p), -100) - t * max(log(p), -100)\<close>:
  the logarithm is bounded below by -100, so that an input of 0 or 1 gives a finite
  loss (\<^verbatim>\<open>log(0)\<close> is \<^verbatim>\<open>-inf\<close>, and the maximum is -100). The logarithm is
  taken to be correctly rounded.
  \<^verbatim>\<open>nn.BCELoss(reduce=False)\<close> returns the cross-entropy of every entry, on an input
  and a target of one shape; \<^verbatim>\<open>nn.BCELoss()\<close> returns the mean of these entries,
  their sum divided by their number. (The loader yields full batches of 32 rows; the
  mean of no entry, \<^verbatim>\<open>nan\<close> in the library, is not modelled.)
\<close>

definition clamp_log :: "(real \<Rightarrow> real) \<Rightarrow> real \<Rightarrow> real" where
  "clamp_log r q = (if q \<le> 0 then - 100 else max (r (ln q)) (- 100))"

definition bce :: "float_ops \<Rightarrow> real \<Rightarrow> real \<Rightarrow> real" where
  "bce F p t =
     rnd F (rnd F (rnd F (t - 1) * clamp_log (rnd F) (rnd F (1 - p)))
            - rnd F (t * clamp_log (rnd F) p))"

definition BCELoss_each :: "float_ops \<Rightarrow> tensor \<Rightarrow> tensor \<Rightarrow> tensor" where
  "BCELoss_each F input target =
     map (\<lambda>(irow, trow). map (\<lambda>(p, t). bce F p t) (zip irow trow)) (zip input target)"

definition BCELoss :: "float_ops \<Rightarrow> tensor \<Rightarrow> tensor \<Rightarrow> real" where
  "BCELoss F input target =
     rnd F (tensor_sum F (BCELoss_each F input target)
            / real (numel (BCELoss_each F input target)))"

text \<open>
  The state that the training functions read and write: the parameters of the two
  modules, their gradient buffers (\<^verbatim>\<open>.grad\<close>; a buffer never written to is a buffer
  of zeros), the states of the two optimizers, and the random generator that the
  dropout layers of the classifier draw from. \<open>clf_steps\<close> and \<open>adv_steps\<close> count the
  calls of \<^verbatim>\<open>clf_optimizer.step()\<close> and \<^verbatim>\<open>adv_optimizer.step()\<close>.
\<close>

record ('co, 'ao, 'rng) train_state =
  clf_params :: params
  clf_grad :: params
  clf_opt :: 'co
  clf_steps :: nat
  adv_params :: params
  adv_grad :: params
  adv_opt :: 'ao
  adv_steps :: nat
  rng :: 'rng

text \<open>\<^verbatim>\<open>module.zero_grad()\<close> and the accumulation that \<^verbatim>\<open>backward()\<close> does: it
  adds the gradient to the buffer, entry by entry.\<close>

definition zero_grad :: "params \<Rightarrow> params" where
  "zero_grad ps = map (\<lambda>p. 0) ps"

definition accumulate :: "float_ops \<Rightarrow> params \<Rightarrow> params \<Rightarrow> params" where
  "accumulate F buf g = map (\<lambda>(a, b). rnd F (a + b)) (zip buf g)"

text \<open>
  What the library does is a parameter of the model:
  \<^item> \<open>clf \<theta> g x\<close> is the forward pass of the classifier with parameters \<open>\<theta>\<close> on the
    inputs \<open>x\<close>, with the generator \<open>g\<close> for its dropout masks; it returns the
    predictions and the generator after the draw. \<open>adv \<theta> p\<close> is the forward pass of
    the adversary, which has no dropout. Both are taken to accept their inputs.
  \<^item> \<open>autograd f \<theta>\<close> is the gradient that \<^verbatim>\<open>backward()\<close> computes for the scalar
    \<open>f\<close> of the parameters at the point \<open>\<theta>\<close>.
  \<^item> an optimizer maps its state, the parameters and their gradient buffer to its new
    state and the new parameters (\<^verbatim>\<open>optimizer.step()\<close>). As in the notebook,
    \<^verbatim>\<open>clf_optimizer\<close> holds the parameters of \<^verbatim>\<open>clf\<close> and \<^verbatim>\<open>adv_optimizer\<close> those
    of \<^verbatim>\<open>adv\<close>.
  \<^item> the data loader is the list of the batches \<open>(x, y, z)\<close> it yields.
\<close>

text \<open>The predictions \<^verbatim>\<open>p_y = clf(x)\<close> as a function of the classifier's parameters,
  with the dropout draw fixed: the graph that \<^verbatim>\<open>backward()\<close> differentiates.\<close>

definition p_y_graph ::
  "(params \<Rightarrow> 'rng \<Rightarrow> 'x \<Rightarrow> tensor \<times> 'rng) \<Rightarrow> 'rng \<Rightarrow> 'x \<Rightarrow> params \<Rightarrow> tensor" where
  "p_y_graph clf g x \<theta> = fst (clf \<theta> g x)"

text \<open>
  \<^verbatim>\<open>
  def pretrain_adverserial(adv, clf, data_loader, optimizer, criterion):
      for x, _, z in data_loader:
          p_y = clf(x).detach()
          adv.zero_grad()
          p_z = adv(p_y)
          loss = criterion(p_z, z)
          loss.backward()
          optimizer.step()
      return adv
  \<close>
\<close>

definition pretrain_adverserial_batch ::
  "float_ops \<Rightarrow> ((params \<Rightarrow> real) \<Rightarrow> params \<Rightarrow> params) \<Rightarrow> (params \<Rightarrow> tensor \<Rightarrow> tensor)
   \<Rightarrow> (params \<Rightarrow> 'rng \<Rightarrow> 'x \<Rightarrow> tensor \<times> 'rng)
   \<Rightarrow> ('ao \<Rightarrow> params \<Rightarrow> params \<Rightarrow> 'ao \<times> params) \<Rightarrow> (tensor \<Rightarrow> tensor \<Rightarrow> real)
   \<Rightarrow> ('co, 'ao, 'rng) train_state \<Rightarrow> 'x \<times> tensor \<times> tensor \<Rightarrow> ('co, 'ao, 'rng) train_state" where
  "pretrain_adverserial_batch F autograd adv clf optimizer criterion s b =
     (case b of (x, y, z) \<Rightarrow>
       (case clf (clf_params s) (rng s) x of (p_y, g') \<Rightarrow>
         (let loss = (\<lambda>\<theta>a. criterion (adv \<theta>a p_y) z);
              g = accumulate F (zero_grad (adv_params s)) (autograd loss (adv_params s))
          in (case optimizer (adv_opt s) (adv_params s) g of (ao, ap) \<Rightarrow>
                s\<lparr>adv_params := ap, adv_grad := g, adv_opt := ao,
                  adv_steps := adv_steps s + 1, rng := g'\<rparr>))))"

fun pretrain_adverserial ::
  "float_ops \<Rightarrow> ((params \<Rightarrow> real) \<Rightarrow> params \<Rightarrow> params) \<Rightarrow> (params \<Rightarrow> tensor \<Rightarrow> tensor)
   \<Rightarrow> (params \<Rightarrow> 'rng \<Rightarrow> 'x \<Rightarrow> tensor \<times> 'rng) \<Rightarrow> ('x \<times> tensor \<times> tensor) list
   \<Rightarrow> ('ao \<Rightarrow> params \<Rightarrow> params \<Rightarrow> 'ao \<times> params) \<Rightarrow> (tensor \<Rightarrow> tensor \<Rightarrow> real)
   \<Rightarrow> ('co, 'ao, 'rng) train_state \<Rightarrow> ('co, 'ao, 'rng) train_state" where
  "pretrain_adverserial F autograd adv clf [] optimizer criterion s = s"
| "pretrain_adverserial F autograd adv clf (b # data_loader) optimizer criterion s =
     pretrain_adverserial F autograd adv clf data_loader optimizer criterion
       (pretrain_adverserial_batch F autograd adv clf optimizer criterion s b)"

text \<open>
  \<^verbatim>\<open>
  def train(clf, adv, data_loader, clf_criterion, adv_criterion,
            clf_adv_criterion, clf_optimizer, adv_optimizer):
      for x, y, z in data_loader:
          p_y = clf(x)
          # Train adversarial
          adv.zero_grad()
          p_adv = adv(p_y)
          loss_adv = adv_criterion(p_adv, z)
          loss_adv.backward(retain_graph=True)
          adv_optimizer.step()
      # Train classifier on last batch
      clf.zero_grad()
      clf_loss = clf_criterion(p_y, y) - (clf_adv_criterion(adv(p_y), z) * lambdas).sum()
      clf_loss.backward()
      clf_optimizer.step()
      return clf, adv
  \<close>
  In the loop \<^verbatim>\<open>p_y\<close> is not detached, so \<^verbatim>\<open>loss_adv.backward\<close> adds to the
  gradient buffers of both modules; only the adversary's buffer was zeroed, and only
  the adversary's optimizer steps. The body returns the new state and the values of the
  local variables \<^verbatim>\<open>p_y\<close>, \<^verbatim>\<open>y\<close> and \<^verbatim>\<open>z\<close>, which Python keeps after the loop.
\<close>

definition train_batch ::
  "float_ops \<Rightarrow> ((params \<Rightarrow> real) \<Rightarrow> params \<Rightarrow> params) \<Rightarrow> (params \<Rightarrow> 'rng \<Rightarrow> 'x \<Rightarrow> tensor \<times> 'rng)
   \<Rightarrow> (params \<Rightarrow> tensor \<Rightarrow> tensor) \<Rightarrow> (tensor \<Rightarrow> tensor \<Rightarrow> real)
   \<Rightarrow> ('ao \<Rightarrow> params \<Rightarrow> params \<Rightarrow> 'ao \<times> params)
   \<Rightarrow> ('co, 'ao, 'rng) train_state \<Rightarrow> 'x \<times> tensor \<times> tensor
   \<Rightarrow> ('co, 'ao, 'rng) train_state \<times> ((params \<Rightarrow> tensor) \<times> tensor \<times> tensor)" where
  "train_batch F autograd clf adv adv_criterion adv_optimizer s b =
     (case b of (x, y, z) \<Rightarrow>
       (let p_y = p_y_graph clf (rng s) x;
            g' = snd (clf (clf_params s) (rng s) x);
            loss_adv = (\<lambda>\<theta>c \<theta>a. adv_criterion (adv \<theta>a (p_y \<theta>c)) z);
            ga = accumulate F (zero_grad (adv_params s))
                   (autograd (\<lambda>\<theta>a. loss_adv (clf_params s) \<theta>a) (adv_params s));
            gc = accumulate F (clf_grad s)
                   (autograd (\<lambda>\<theta>c. loss_adv \<theta>c (adv_params s)) (clf_params s))
        in (case adv_optimizer (adv_opt s) (adv_params s) ga of (ao, ap) \<Rightarrow>
              (s\<lparr>adv_params := ap, adv_grad := ga, adv_opt := ao,
                 adv_steps := adv_steps s + 1, clf_grad := gc, rng := g'\<rparr>,
               (p_y, y, z)))))"

fun train_loop ::
  "float_ops \<Rightarrow> ((params \<Rightarrow> real) \<Rightarrow> params \<Rightarrow> params) \<Rightarrow> (params \<Rightarrow> 'rng \<Rightarrow> 'x \<Rightarrow> tensor \<times> 'rng)
   \<Rightarrow> (params \<Rightarrow> tensor \<Rightarrow> tensor) \<Rightarrow> (tensor \<Rightarrow> tensor \<Rightarrow> real)
   \<Rightarrow> ('ao \<Rightarrow> params \<Rightarrow> params \<Rightarrow> 'ao \<times> params)
   \<Rightarrow> ('co, 'ao, 'rng) train_state \<Rightarrow> ((params \<Rightarrow> tensor) \<times> tensor \<times> tensor) option
   \<Rightarrow> ('x \<times> tensor \<times> tensor) list
   \<Rightarrow> ('co, 'ao, 'rng) train_state \<times> ((params \<Rightarrow> tensor) \<times> tensor \<times> tensor) option" where
  "train_loop F autograd clf adv adv_criterion adv_optimizer s locals [] = (s, locals)"
| "train_loop F autograd clf adv adv_criterion adv_optimizer s locals (b # data_loader) =
     (case train_batch F autograd clf adv adv_criterion adv_optimizer s b of
        (s', l) \<Rightarrow>
          train_loop F autograd clf adv adv_criterion adv_optimizer s' (Some l) data_loader)"

text \<open>The value of \<^verbatim>\<open>clf_loss\<close>, from the predictions, the labels, the adversary's
  output and the protected attributes.\<close>

definition clf_loss ::
  "float_ops \<Rightarrow> (tensor \<Rightarrow> tensor \<Rightarrow> real) \<Rightarrow> (tensor \<Rightarrow> tensor \<Rightarrow> tensor)
   \<Rightarrow> tensor \<Rightarrow> tensor \<Rightarrow> tensor \<Rightarrow> tensor \<Rightarrow> real" where
  "clf_loss F clf_criterion clf_adv_criterion p_y y p_adv z =
     rnd F (clf_criterion p_y y
            - tensor_sum F (times_lambdas F (clf_adv_criterion p_adv z)))"

text \<open>After the loop. With no batch the name \<^verbatim>\<open>p_y\<close> was never bound and its first
  use raises, after \<^verbatim>\<open>clf.zero_grad()\<close> has run; the error comes with the state
  reached. Otherwise \<^verbatim>\<open>clf_loss.backward()\<close> adds to the buffers of both modules
  again, and only the classifier's optimizer steps. The graph of \<^verbatim>\<open>p_y\<close> was built
  in the last pass of the loop; the gradient is taken at the parameters the classifier
  has now, which are those of that pass since the loop does not step the classifier.\<close>

definition train ::
  "float_ops \<Rightarrow> ((params \<Rightarrow> real) \<Rightarrow> params \<Rightarrow> params) \<Rightarrow> (params \<Rightarrow> 'rng \<Rightarrow> 'x \<Rightarrow> tensor \<times> 'rng)
   \<Rightarrow> (params \<Rightarrow> tensor \<Rightarrow> tensor) \<Rightarrow> ('x \<times> tensor \<times> tensor) list
   \<Rightarrow> (tensor \<Rightarrow> tensor \<Rightarrow> real) \<Rightarrow> (tensor \<Rightarrow> tensor \<Rightarrow> real) \<Rightarrow> (tensor \<Rightarrow> tensor \<Rightarrow> tensor)
   \<Rightarrow> ('co \<Rightarrow> params \<Rightarrow> params \<Rightarrow> 'co \<times> params) \<Rightarrow> ('ao \<Rightarrow> params \<Rightarrow> params \<Rightarrow> 'ao \<times> params)
   \<Rightarrow> ('co, 'ao, 'rng) train_state
   \<Rightarrow> (py_error \<times> ('co, 'ao, 'rng) train_state) + ('co, 'ao, 'rng) train_state" where
  "train F autograd clf adv data_loader clf_criterion adv_criterion clf_adv_criterion
         clf_optimizer adv_optimizer s =
     (case train_loop F autograd clf adv adv_criterion adv_optimizer s None data_loader of
        (s1, locals) \<Rightarrow>
          (let s2 = s1\<lparr>clf_grad := zero_grad (clf_params s1)\<rparr> in
           (case locals of
              None \<Rightarrow> Inl (UnboundLocalError ''p_y'', s2)
            | Some (p_y, y, z) \<Rightarrow>
                (let loss = (\<lambda>\<theta>c \<theta>a. clf_loss F clf_criterion clf_adv_criterion
                                         (p_y \<theta>c) y (adv \<theta>a (p_y \<theta>c)) z);
                     gc = accumulate F (clf_grad s2)
                            (autograd (\<lambda>\<theta>c. loss \<theta>c (adv_params s2)) (clf_params s2));
                     ga = accumulate F (adv_grad s2)
                            (autograd (\<lambda>\<theta>a. loss (clf_params s2) \<theta>a) (adv_params s2))
                 in (case clf_optimizer (clf_opt s2) (clf_params s2) gc of (co, cp) \<Rightarrow>
                       Inr (s2\<lparr>clf_params := cp, clf_grad := gc, clf_opt := co,
                              clf_steps := clf_steps s2 + 1, adv_grad := ga\<rparr>))))))"

text \<open>
  The gradient that \<^verbatim>\<open>clf_optimizer.step()\<close> uses, as a function of what it depends
  on: the batch \<open>b\<close>, the generator \<open>g\<close> of the forward pass on that batch, the
  adversary's parameters \<open>\<theta>a\<close> when \<^verbatim>\<open>adv(p_y)\<close> is computed, and the classifier's
  parameters \<open>\<theta>c\<close>.
\<close>

definition clf_update_grad ::
  "float_ops \<Rightarrow> ((params \<Rightarrow> real) \<Rightarrow> params \<Rightarrow> params) \<Rightarrow> (params \<Rightarrow> 'rng \<Rightarrow> 'x \<Rightarrow> tensor \<times> 'rng)
   \<Rightarrow> (params \<Rightarrow> tensor \<Rightarrow> tensor) \<Rightarrow> (tensor \<Rightarrow> tensor \<Rightarrow> real) \<Rightarrow> (tensor \<Rightarrow> tensor \<Rightarrow> tensor)
   \<Rightarrow> params \<Rightarrow> params \<Rightarrow> 'rng \<Rightarrow> 'x \<times> tensor \<times> tensor \<Rightarrow> params" where
  "clf_update_grad F autograd clf adv clf_criterion clf_adv_criterion \<theta>c \<theta>a g b =
     (case b of (x, y, z) \<Rightarrow>
        accumulate F (zero_grad \<theta>c)
          (autograd (\<lambda>\<theta>. clf_loss F clf_criterion clf_adv_criterion
                           (p_y_graph clf g x \<theta>) y (adv \<theta>a (p_y_graph clf g x \<theta>)) z) \<theta>c))"

text \<open>
  The training of the adversary as the glossary words it: the adversary is trained on
  the classifier's outputs and the protected attributes, and on nothing else.
  \<open>clf_outputs\<close> is the list of the pairs (classifier output, \<open>z\<close>) of the batches,
  the generator passing from one forward pass to the next; \<open>adv_step\<close> is one step of
  the adversary's optimizer on the gradient of the criterion of \<open>adv(p)\<close> against
  \<open>z\<close>, taken from a zeroed buffer; \<open>adv_run\<close> does these steps in order.
\<close>

fun clf_outputs ::
  "(params \<Rightarrow> 'rng \<Rightarrow> 'x \<Rightarrow> tensor \<times> 'rng) \<Rightarrow> params \<Rightarrow> 'rng \<Rightarrow> ('x \<times> tensor \<times> tensor) list
   \<Rightarrow> (tensor \<times> tensor) list" where
  "clf_outputs clf \<theta> g [] = []"
| "clf_outputs clf \<theta> g ((x, y, z) # data_loader) =
     (fst (clf \<theta> g x), z) # clf_outputs clf \<theta> (snd (clf \<theta> g x)) data_loader"

definition adv_step ::
  "float_ops \<Rightarrow> ((params \<Rightarrow> real) \<Rightarrow> params \<Rightarrow> params) \<Rightarrow> (params \<Rightarrow> tensor \<Rightarrow> tensor)
   \<Rightarrow> ('ao \<Rightarrow> params \<Rightarrow> params \<Rightarrow> 'ao \<times> params) \<Rightarrow> (tensor \<Rightarrow> tensor \<Rightarrow> real)
   \<Rightarrow> 'ao \<times> params \<Rightarrow> tensor \<times> tensor \<Rightarrow> 'ao \<times> params" where
  "adv_step F autograd adv optimizer criterion st pz =
     optimizer (fst st) (snd st)
       (accumulate F (zero_grad (snd st))
          (autograd (\<lambda>\<theta>. criterion (adv \<theta> (fst pz)) (snd pz)) (snd st)))"

definition adv_run ::
  "float_ops \<Rightarrow> ((params \<Rightarrow> real) \<Rightarrow> params \<Rightarrow> params) \<Rightarrow> (params \<Rightarrow> tensor \<Rightarrow> tensor)
   \<Rightarrow> ('ao \<Rightarrow> params \<Rightarrow> params \<Rightarrow> 'ao \<times> params) \<Rightarrow> (tensor \<Rightarrow> tensor \<Rightarrow> real)
   \<Rightarrow> 'ao \<times> params \<Rightarrow> (tensor \<times> tensor) list \<Rightarrow> 'ao \<times> params" where
  "adv_run F autograd adv optimizer criterion st pzs =
     foldl (adv_step F autograd adv optimizer criterion) st pzs"

text \<open>A small instance of the library, for evaluating the training functions: a
  classifier with one weight per feature and an adversary with one weight, each
  answering 1 when its weighted input is positive and 0 otherwise; forward differences
  for the gradient; gradient descent with step 1/1000 that counts its steps. The
  generator is a counter of the draws.\<close>

definition toy_clf :: "params \<Rightarrow> nat \<Rightarrow> real list list \<Rightarrow> tensor \<times> nat" where
  "toy_clf \<theta> g x =
     (map (\<lambda>row. [if 0 < sum_list (map (\<lambda>(w, v). w * v) (zip \<theta> row)) then 1 else 0]) x,
      g + 1)"

definition toy_adv :: "params \<Rightarrow> tensor \<Rightarrow> tensor" where
  "toy_adv \<theta> p = map (map (\<lambda>v. if 0 < hd \<theta> + v then 1 else 0)) p"

definition toy_autograd :: "(params \<Rightarrow> real) \<Rightarrow> params \<Rightarrow> params" where
  "toy_autograd f \<theta> = map (\<lambda>i. f (\<theta>[i := \<theta> ! i + 1]) - f \<theta>) [0..<length \<theta>]"

definition toy_sgd :: "nat \<Rightarrow> params \<Rightarrow> params \<Rightarrow> nat \<times> params" where
  "toy_sgd n \<theta> g = (n + 1, map (\<lambda>(p, d). p - d / 1000) (zip \<theta> g))"

definition toy_state :: "(nat, nat, nat) train_state" where
  "toy_state = \<lparr>clf_params = [1, 0], clf_grad = [0, 0], clf_opt = 0, clf_steps = 0,
                adv_params = [- 1/2], adv_grad = [0], adv_opt = 0, adv_steps = 0, rng = 0\<rparr>"

text \<open>Two batches of two rows each, with two features: inputs, labels and protected
  attributes.\<close>

definition toy_loader :: "(real list list \<times> tensor \<times> tensor) list" where
  "toy_loader =
     [([[1, 2], [- 1, 2]], [[1], [0]], [[1], [1]]),
      ([[- 1, 3], [2, 5]], [[1], [1]], [[1], [1]])]"

section \<open>Properties of the rounding\<close>

lemma two_powr_int: "(2::real) powr (of_int k) = 2 powi k"
  by (rule powr_real_of_int') simp_all

lemma two_powr_int_Suc: "(2::real) powr (of_int k + 1) = 2 powi (k + 1)"
  using two_powr_int[of "k + 1"] by simp

lemma expo_eqI:
  assumes "2 powi e \<le> \<bar>x\<bar>" "\<bar>x\<bar> < 2 powi (e + 1)"
  shows "expo x = e"
proof -
  have "(0::real) < 2 powi e" by simp
  then have pos: "0 < \<bar>x\<bar>" using assms(1) by linarith
  have "2 powr (of_int e) \<le> \<bar>x\<bar> \<and> \<bar>x\<bar> < 2 powr (of_int e + 1)"
    using assms by (simp add: two_powr_int two_powr_int_Suc)
  then show ?thesis
    unfolding expo_def using floor_log_eq_powr_iff[of "\<bar>x\<bar>" 2 e] pos by simp
qed

lemma expo_bounds:
  assumes "x \<noteq> 0"
  shows "2 powi (expo x) \<le> \<bar>x\<bar> \<and> \<bar>x\<bar> < 2 powi (expo x + 1)"
proof -
  have pos: "0 < \<bar>x\<bar>" using assms by simp
  have "2 powr (of_int (expo x)) \<le> \<bar>x\<bar> \<and> \<bar>x\<bar> < 2 powr (of_int (expo x) + 1)"
    using floor_log_eq_powr_iff[of "\<bar>x\<bar>" 2 "expo x"] pos by (simp add: expo_def)
  then show ?thesis by (simp add: two_powr_int two_powr_int_Suc)
qed

lemma round_even_int [simp]: "round_even (of_int n) = n"
  by (simp add: round_even_def)

lemma round_even_pow [simp]: "round_even (2 ^ n) = 2 ^ n"
  using round_even_int[of "2 ^ n"] by simp

lemma round_even_mono: "r \<le> s \<Longrightarrow> round_even r \<le> round_even s"
proof -
  assume rs: "r \<le> s"
  have fl: "\<lfloor>r\<rfloor> \<le> \<lfloor>s\<rfloor>" using rs by (rule floor_mono)
  have lo: "\<lfloor>r\<rfloor> \<le> round_even r" "round_even r \<le> \<lfloor>r\<rfloor> + 1" for r
    by (simp_all add: round_even_def Let_def)
  show ?thesis
  proof (cases "\<lfloor>r\<rfloor> < \<lfloor>s\<rfloor>")
    case True
    then have "round_even r \<le> \<lfloor>s\<rfloor>" using lo(2)[of r] by linarith
    then show ?thesis using lo(1)[of s] by linarith
  next
    case False
    then have eq: "\<lfloor>r\<rfloor> = \<lfloor>s\<rfloor>" using fl by linarith
    have "r - of_int \<lfloor>r\<rfloor> \<le> s - of_int \<lfloor>s\<rfloor>" using rs eq by simp
    then show ?thesis
      unfolding round_even_def Let_def eq by (auto split: if_splits)
  qed
qed

lemma round_even_eqI:
  "of_int m - 1/2 < r \<Longrightarrow> r < of_int m + 1/2 \<Longrightarrow> round_even r = m"
  unfolding round_even_def Let_def
  by (auto split: if_splits) linarith+

lemma round_even_uminus: "round_even (- r) = - round_even r"
proof (cases "r = of_int \<lfloor>r\<rfloor>")
  case True
  then obtain n where "r = of_int n" by metis
  then show ?thesis by (simp flip: of_int_minus)
next
  case False
  then have c: "\<lceil>r\<rceil> = \<lfloor>r\<rfloor> + 1" by (simp add: ceiling_altdef)
  have f: "\<lfloor>- r\<rfloor> = - \<lfloor>r\<rfloor> - 1" using c by (simp add: floor_minus)
  show ?thesis
    unfolding round_even_def Let_def f
    using False by (auto split: if_splits)
qed


lemma expo_uminus [simp]: "expo (- x) = expo x"
  by (simp add: expo_def)

lemma fl_round_uminus: "fl_round p (- x) = - fl_round p x"
  by (simp add: fl_round_def round_even_uminus)

lemma fl_round_zero [simp]: "fl_round p 0 = 0"
  by (simp add: fl_round_def)

lemma quantum_join: "(2::real) powi a * 2 ^ n = 2 powi (a + int n)"
proof -
  have "(2::real) powi (a + int n) = 2 powi a * 2 powi (int n)"
    by (rule power_int_add) simp
  also have "(2::real) powi (int n) = 2 ^ n" by (rule power_int_of_nat)
  finally show ?thesis by simp
qed

lemma quantum_split: "(2::real) powi (e - int p + 1) * 2 ^ p = 2 powi (e + 1)"
proof -
  have "(e - int p + 1) + int p = e + 1" by simp
  then show ?thesis using quantum_join[of "e - int p + 1" p] by simp
qed

lemma quantum_split': "0 < p \<Longrightarrow> (2::real) powi (e - int p + 1) * 2 ^ (p - 1) = 2 powi e"
proof -
  assume p: "0 < p"
  have "(e - int p + 1) + int (p - 1) = e" using p by simp
  then show ?thesis using quantum_join[of "e - int p + 1" "p - 1"] by simp
qed

lemma fl_round_pos_bounds:
  assumes p: "0 < p" and x: "0 < x"
  shows "2 powi (expo x) \<le> fl_round p x \<and> fl_round p x \<le> 2 powi (expo x + 1)"
proof -
  define e where "e = expo x"
  define q :: real where "q = 2 powi (e - int p + 1)"
  have q: "0 < q" by (simp add: q_def)
  have b: "2 powi e \<le> x" "x < 2 powi (e + 1)"
    using expo_bounds[of x] x by (simp_all add: e_def)
  have lo: "of_int (2 ^ (p - 1)) \<le> x / q"
  proof -
    have "q * 2 ^ (p - 1) = 2 powi e" unfolding q_def by (rule quantum_split'[OF p])
    then have "q * 2 ^ (p - 1) \<le> x" using b by simp
    then show ?thesis using q by (simp add: pos_le_divide_eq mult.commute)
  qed
  have hi: "x / q \<le> of_int (2 ^ p)"
  proof -
    have "q * 2 ^ p = 2 powi (e + 1)" unfolding q_def by (rule quantum_split)
    then have "x \<le> q * 2 ^ p" using b by simp
    then show ?thesis using q by (simp add: pos_divide_le_eq mult.commute)
  qed
  have r1: "2 ^ (p - 1) \<le> round_even (x / q)"
    using round_even_mono[OF lo] by simp
  have r2: "round_even (x / q) \<le> 2 ^ p"
    using round_even_mono[OF hi] by simp
  have f: "fl_round p x = of_int (round_even (x / q)) * q"
    using x by (simp add: fl_round_def q_def e_def)
  have "of_int (2 ^ (p - 1)) * q \<le> of_int (round_even (x / q)) * q"
    using r1 q by (intro mult_right_mono) (simp_all del: of_int_power)
  moreover have "of_int (round_even (x / q)) * q \<le> of_int (2 ^ p) * q"
    using r2 q by (intro mult_right_mono) (simp_all del: of_int_power)
  moreover have "of_int (2 ^ (p - 1)) * q = 2 powi e"
    using quantum_split'[OF p, of e] by (simp add: q_def mult.commute)
  moreover have "of_int (2 ^ p) * q = 2 powi (e + 1)"
    using quantum_split[of e p] by (simp add: q_def mult.commute)
  ultimately show ?thesis unfolding f e_def[symmetric] by simp
qed

lemma fl_round_pos: "0 < p \<Longrightarrow> 0 < x \<Longrightarrow> 0 < fl_round p x"
proof -
  assume a: "0 < p" "0 < x"
  have "(0::real) < 2 powi (expo x)" by simp
  then show ?thesis using fl_round_pos_bounds[OF a] by linarith
qed

lemma expo_mono: "0 < x \<Longrightarrow> x \<le> y \<Longrightarrow> expo x \<le> expo y"
  unfolding expo_def by (intro floor_mono) (simp add: log_le_cancel_iff)

lemma fl_round_mono_pos:
  assumes p: "0 < p" and x: "0 < x" and xy: "x \<le> y"
  shows "fl_round p x \<le> fl_round p y"
proof (cases "expo x = expo y")
  case True
  define q :: real where "q = 2 powi (expo y - int p + 1)"
  have q: "0 < q" by (simp add: q_def)
  have "x / q \<le> y / q" using xy q by (simp add: divide_right_mono)
  then have "round_even (x / q) \<le> round_even (y / q)" by (rule round_even_mono)
  then have "of_int (round_even (x / q)) * q \<le> of_int (round_even (y / q)) * q"
    using q by (intro mult_right_mono) simp_all
  then show ?thesis using x xy True by (simp add: fl_round_def q_def)
next
  case False
  have y: "0 < y" using x xy by simp
  have "expo x < expo y" using False expo_mono[OF x xy] by simp
  then have "expo x + 1 \<le> expo y" by simp
  then have "(2::real) powi (expo x + 1) \<le> 2 powi (expo y)"
    by (intro power_int_increasing) simp_all
  then show ?thesis
    using fl_round_pos_bounds[OF p x] fl_round_pos_bounds[OF p y] by linarith
qed

lemma fl_round_mono:
  assumes p: "0 < p" and xy: "x \<le> y"
  shows "fl_round p x \<le> fl_round p y"
proof -
  consider "0 < x" | "x = 0" | "x < 0 \<and> y < 0" | "x < 0 \<and> 0 \<le> y" by linarith
  then show ?thesis
  proof cases
    case 1
    then show ?thesis using fl_round_mono_pos[OF p _ xy] by simp
  next
    case 2
    then show ?thesis
      using xy fl_round_pos[OF p, of y] by (cases "y = 0") (simp_all add: less_eq_real_def)
  next
    case 3
    then have "0 < - y" "- y \<le> - x" using xy by simp_all
    from fl_round_mono_pos[OF p this] show ?thesis by (simp add: fl_round_uminus)
  next
    case 4
    then have "0 < - x" by simp
    from fl_round_pos[OF p this] have a: "fl_round p x < 0" by (simp add: fl_round_uminus)
    have "0 \<le> fl_round p y"
      using 4 fl_round_pos[OF p, of y] by (cases "y = 0") (simp_all add: less_eq_real_def)
    then show ?thesis using a by linarith
  qed
qed

lemma fl_round_at:
  assumes "2 powi e \<le> \<bar>x\<bar>" "\<bar>x\<bar> < 2 powi (e + 1)"
  shows "fl_round p x = of_int (round_even (x / 2 powi (e - int p + 1))) * 2 powi (e - int p + 1)"
proof -
  have "(0::real) < 2 powi e" by simp
  then have "0 < \<bar>x\<bar>" using assms(1) by linarith
  then have "x \<noteq> 0" by simp
  then show ?thesis using expo_eqI[OF assms] by (simp add: fl_round_def)
qed

lemma exact_ops_sel [simp]: "rnd exact_ops = (\<lambda>x. x)" "fsum exact_ops = sum_list"
  by (simp_all add: exact_ops_def)


lemma float_ops_sel [simp]:
  "rnd float64_ops = fl_round 53" "fsum float64_ops = seq_sum 53"
  "rnd float32_ops = fl_round 24" "fsum float32_ops = seq_sum 24"
  by (simp_all add: float64_ops_def float32_ops_def)

lemma rounding_fl_round_53: "rounding (fl_round 53)"
  unfolding rounding_def
proof (intro conjI allI impI)
  show "fl_round 53 x \<le> fl_round 53 y" if "x \<le> y" for x y
    using that by (intro fl_round_mono) simp_all
  show "fl_round 53 0 = 0" by simp
  show "fl_round 53 1 = 1"
    by (subst fl_round_at[where e=0]) (simp_all add: round_even_def Let_def)
  show "fl_round 53 100 = 100"
    by (subst fl_round_at[where e=6]) (simp_all add: round_even_def Let_def)
  show "0 < fl_round 53 x" if "0 < x" for x
    using that by (intro fl_round_pos) simp_all
qed

lemma rounding_fl_round_24: "rounding (fl_round 24)"
  unfolding rounding_def
proof (intro conjI allI impI)
  show "fl_round 24 x \<le> fl_round 24 y" if "x \<le> y" for x y
    using that by (intro fl_round_mono) simp_all
  show "fl_round 24 0 = 0" by simp
  show "fl_round 24 1 = 1"
    by (subst fl_round_at[where e=0]) (simp_all add: round_even_def Let_def)
  show "fl_round 24 100 = 100"
    by (subst fl_round_at[where e=6]) (simp_all add: round_even_def Let_def)
  show "0 < fl_round 24 x" if "0 < x" for x
    using that by (intro fl_round_pos) simp_all
qed

lemma rounding_exact: "rounding (\<lambda>x. x)"
  by (simp add: rounding_def)

lemma ln_one_minus_bounds:
  fixes x :: real
  assumes "0 < x" "x \<le> 1/2"
  shows "- x - x\<^sup>2 < ln (1 - x)" "ln (1 - x) \<le> - x"
proof -
  show "ln (1 - x) \<le> - x"
    using ln_add_one_self_le_self2[of "- x"] assms by simp
  define u where "u = x + x\<^sup>2"
  have u: "0 \<le> u" using assms by (simp add: u_def)
  have t: "1 + u + u\<^sup>2 / 2 \<le> exp u" by (rule exp_lower_Taylor_quadratic[OF u])
  have p: "1 < (1 - x) * (1 + u + u\<^sup>2 / 2)"
  proof -
    have "(1 - x) * (1 + u + u\<^sup>2 / 2) - 1 = x\<^sup>2 * (1 - (x + x * x + x * x * x)) / 2"
      unfolding u_def by (simp add: power2_eq_square field_simps)
    moreover have "x + x * x + x * x * x < 1"
    proof -
      have "x * x \<le> 1/2 * (1/2)" "x * x * x \<le> 1/2 * (1/2) * (1/2)"
        using assms by (intro mult_mono; simp)+
      then show ?thesis using assms by simp
    qed
    ultimately have eq: "(1 - x) * (1 + u + u\<^sup>2 / 2) - 1 = x\<^sup>2 * (1 - (x + x * x + x * x * x)) / 2"
      and lt: "0 < 1 - (x + x * x + x * x * x)" by simp_all
    have "0 < x\<^sup>2" using assms by simp
    then have "0 < x\<^sup>2 * (1 - (x + x * x + x * x * x)) / 2"
      using lt by (intro divide_pos_pos mult_pos_pos) simp_all
    then show ?thesis unfolding eq[symmetric] by linarith
  qed
  have "(1 - x) * (1 + u + u\<^sup>2 / 2) \<le> (1 - x) * exp u"
    using t assms by (intro mult_left_mono) simp_all
  with p have "1 < (1 - x) * exp u" by linarith
  then have "exp (- u) < 1 - x"
    by (simp add: exp_minus field_simps)
  then have "- u < ln (1 - x)"
    using assms by (metis exp_less_cancel_iff exp_ln less_trans exp_gt_zero)
  then show "- x - x\<^sup>2 < ln (1 - x)" by (simp add: u_def)
qed

lemma fl_round_24_ln:
  "fl_round 24 (ln (1 - 1/16777216)) = - (1/16777216)"
proof -
  let ?x = "1/16777216 :: real"
  let ?l = "ln (1 - ?x)"
  have b: "- ?x - ?x\<^sup>2 < ?l" "?l \<le> - ?x"
    by (rule ln_one_minus_bounds; simp)+
  have neg: "?l < 0" using b(2) by linarith
  have abs: "\<bar>?l\<bar> = - ?l" using neg by simp
  have e1: "2 powi (- 24) \<le> \<bar>?l\<bar>" unfolding abs using b(2) by (simp add: power_int_minus)
  have e2: "\<bar>?l\<bar> < 2 powi (- 24 + 1)" unfolding abs using b(1) by (simp add: power_int_minus power2_eq_square)
  have r: "round_even (?l / 2 powi (- 24 - int 24 + 1)) = - 8388608"
  proof (rule round_even_eqI)
    show "real_of_int (- 8388608) - 1 / 2 < ?l / 2 powi (- 24 - int 24 + 1)"
      using b(1) by (simp add: power_int_minus power2_eq_square field_simps)
    show "?l / 2 powi (- 24 - int 24 + 1) < real_of_int (- 8388608) + 1 / 2"
      using b(2) by (simp add: power_int_minus field_simps)
  qed
  show ?thesis
    by (subst fl_round_at[where e="- 24", OF e1 e2], subst r) (simp add: power_int_minus)
qed

lemma fl_round_24_ln': "fl_round 24 (ln (16777215/16777216)) = - (1/16777216)"
  using fl_round_24_ln by simp

lemma fl_round_24_vals:
  "fl_round 24 1 = 1" "fl_round 24 100 = 100" "fl_round 24 (- 100) = - 100"
  "fl_round 24 (1/16777216) = 1/16777216" "fl_round 24 (- (1/16777216)) = - (1/16777216)"
  "fl_round 24 (16777215/16777216) = 16777215/16777216"
  "fl_round 24 (5/4194304) = 5/4194304"
  "fl_round 24 (419430395/4194304) = 100"
proof -
  show "fl_round 24 1 = 1"
    by (subst fl_round_at[where e=0]) (simp_all add: round_even_def Let_def)
  show "fl_round 24 100 = 100"
    by (subst fl_round_at[where e=6]) (simp_all add: round_even_def Let_def)
  show "fl_round 24 (- 100) = - 100"
    by (subst fl_round_at[where e=6]) (simp_all add: round_even_def Let_def)
  show "fl_round 24 (1/16777216) = 1/16777216"
    by (subst fl_round_at[where e="-24"]) (simp_all add: round_even_def Let_def)
  show "fl_round 24 (- (1/16777216)) = - (1/16777216)"
    by (subst fl_round_at[where e="-24"]) (simp_all add: round_even_def Let_def)
  show "fl_round 24 (16777215/16777216) = 16777215/16777216"
    by (subst fl_round_at[where e="-1"]) (simp_all add: round_even_def Let_def)
  show "fl_round 24 (5/4194304) = 5/4194304"
    by (subst fl_round_at[where e="-20"]) (simp_all add: round_even_def Let_def)
  show "fl_round 24 (419430395/4194304) = 100"
    by (subst fl_round_at[where e=6]) (simp_all add: round_even_def Let_def)
qed


section \<open>Properties of the fairness metrics\<close>

lemma np_index_eq:
  "length z = length y \<Longrightarrow>
   np_index y (map (\<lambda>v. v = g) z) = Inr (group_preds y z g)"
  unfolding np_index_def group_preds_def
  by (induction y z rule: list_induct2') auto

lemma select_group_thr:
  "length z = length y \<Longrightarrow> t \<noteq> 0 \<Longrightarrow>
   select_group y z g t = Inr (gt_mask (group_preds y z g) t)"
  by (simp add: select_group_def np_index_eq)


lemma sum_gt_mask: "sum_list (gt_mask xs t) = real (length (filter (\<lambda>p. t < p) xs))"
  by (induction xs) (auto simp: gt_mask_def)

lemma mean_gt_mask:
  "np_mean (gt_mask xs t) =
     np_div (Fin (real (length (filter (\<lambda>p. t < p) xs)))) (Fin (real (length xs)))"
proof (cases xs)
  case Nil
  then show ?thesis by (simp add: np_mean_def gt_mask_def)
next
  case (Cons a list)
  have "gt_mask xs t \<noteq> []" "length (gt_mask xs t) = length xs"
    using Cons by (simp_all add: gt_mask_def)
  then show ?thesis
    using Cons by (simp add: np_mean_def sum_gt_mask)
qed

lemma mean_is_rate:
  "np_mean (gt_mask (group_preds y z g) t) = positive_rate y z g t"
  by (simp add: mean_gt_mask positive_rate_def)

lemma p_rule_thr:
  "length z = length y \<Longrightarrow> t \<noteq> 0 \<Longrightarrow> p_rule y z t = Inr (indicator_mean_ratio y z t)"
  by (simp add: p_rule_def p_rule_odds_def select_group_thr indicator_mean_ratio_def Let_def)


lemma rate_cases:
  "positive_rate y z g t = (if group_preds y z g = [] then NaN
     else Fin (real (length (filter (\<lambda>p. t < p) (group_preds y z g))) / real (length (group_preds y z g))))"
  by (simp add: positive_rate_def)

lemma is_rate_positive_rate: "is_rate (positive_rate y z g t)"
proof -
  have "length (filter (\<lambda>p. t < p) (group_preds y z g)) \<le> length (group_preds y z g)"
    by (rule length_filter_le)
  then show ?thesis
    by (auto simp: rate_cases is_rate_def divide_le_eq_1)
qed

lemma min_odds:
  "is_rate r1 \<Longrightarrow> is_rate r0 \<Longrightarrow>
   np_min2 (np_div r1 r0) (np_div (Fin 1) (np_div r1 r0)) = np_min2 (np_div r1 r0) (np_div r0 r1)"
  by (cases r1; cases r0) (auto simp: is_rate_def)

lemma np_min2_commute: "np_min2 a b = np_min2 b a"
  by (cases a; cases b) (auto simp: min.commute)

lemma indicator_is_spec: "indicator_mean_ratio y z t = p_rule_spec y z t"
  by (simp add: indicator_mean_ratio_def p_rule_spec_def Let_def mean_is_rate
        min_odds[OF is_rate_positive_rate is_rate_positive_rate])

lemma group_preds_swap:
  "length z = length y \<Longrightarrow>
   group_preds y (swap_groups z) 1 = group_preds y z 0 \<and>
   group_preds y (swap_groups z) 0 = group_preds y z 1"
  unfolding group_preds_def swap_groups_def
  by (induction y z rule: list_induct2') auto

lemma spec_swap:
  "length z = length y \<Longrightarrow> p_rule_spec y (swap_groups z) t = p_rule_spec y z t"
  by (simp add: p_rule_spec_def positive_rate_def group_preds_swap Let_def np_min2_commute)

lemma min_ratio_bounds:
  fixes a b :: real
  assumes "0 < a" "0 < b"
  shows "0 \<le> min (a / b) (b / a) * 100 \<and> min (a / b) (b / a) * 100 \<le> 100"
proof (cases "a \<le> b")
  case True
  then have "a / b \<le> 1" using assms by simp
  then have "min (a / b) (b / a) \<le> 1" by simp
  moreover have "0 \<le> min (a / b) (b / a)" using assms by simp
  ultimately show ?thesis by simp
next
  case False
  then have "b / a \<le> 1" using assms by simp
  then have "min (a / b) (b / a) \<le> 1" by simp
  moreover have "0 \<le> min (a / b) (b / a)" using assms by simp
  ultimately show ?thesis by simp
qed

lemma spec_bound:
  assumes "is_rate r1" "is_rate r0"
    and "v = np_mul (np_min2 (np_div r1 r0) (np_div r0 r1)) (Fin 100)" and "v \<noteq> NaN"
  shows "np_le (Fin 0) v \<and> np_le v (Fin 100)"
proof (cases r1)
  case (Fin a)
  show ?thesis
  proof (cases r0)
    case (Fin b)
    show ?thesis
    proof (cases "a = 0 \<or> b = 0")
      case True
      then show ?thesis
        using assms \<open>r1 = Fin a\<close> \<open>r0 = Fin b\<close> by (auto simp: is_rate_def)
    next
      case False
      then have "0 < a" "0 < b"
        using assms \<open>r1 = Fin a\<close> \<open>r0 = Fin b\<close> by (auto simp: is_rate_def)
      from min_ratio_bounds[OF this] False show ?thesis
        using assms(3) \<open>r1 = Fin a\<close> \<open>r0 = Fin b\<close> by simp
    qed
  qed (use assms Fin in \<open>auto simp: is_rate_def\<close>)
qed (use assms in \<open>auto simp: is_rate_def\<close>)

lemma spec_nan:
  "is_rate r1 \<Longrightarrow> is_rate r0 \<Longrightarrow>
   (np_mul (np_min2 (np_div r1 r0) (np_div r0 r1)) (Fin 100) = NaN) =
   (r1 = NaN \<or> r0 = NaN \<or> (r1 = Fin 0 \<and> r0 = Fin 0))"
  by (cases r1; cases r0) (auto simp: is_rate_def)

lemma rate_nan: "(positive_rate y z g t = NaN) = (group_preds y z g = [])"
  by (simp add: rate_cases)

lemma rate_zero:
  "group_preds y z g \<noteq> [] \<Longrightarrow>
   (positive_rate y z g t = Fin 0) = (filter (\<lambda>p. t < p) (group_preds y z g) = [])"
  by (simp add: rate_cases)


lemma cell_eq:
  "length y_test = length y_pred \<Longrightarrow> length z = length y_pred \<Longrightarrow>
   cell y_test y_pred z label g = Inr (cell_members y_test y_pred z label g)"
proof (induction y_pred arbitrary: y_test z)
  case Nil
  then show ?case by (simp add: cell_def np_and_def np_index_def cell_members_def)
next
  case (Cons p ps)
  then obtain y ys v vs where [simp]: "y_test = y # ys" "z = v # vs"
    by (cases y_test; cases z) auto
  from Cons have "cell ys ps vs label g = Inr (cell_members ys ps vs label g)" by simp
  then show ?case using Cons.prems
    by (simp add: cell_def np_and_def np_index_def cell_members_def)
qed

lemma mean_zero_den:
  "xs \<noteq> [] \<Longrightarrow> filter (\<lambda>p. t < p) xs = [] \<Longrightarrow> np_mean (gt_mask xs t) = Fin 0"
proof -
  assume a: "xs \<noteq> []" "filter (\<lambda>p. t < p) xs = []"
  have "sum_list (gt_mask xs t) = 0"
    using a(2) by (induction xs) (auto simp: gt_mask_def split: if_splits)
  moreover have "gt_mask xs t \<noteq> []" using a(1) by (simp add: gt_mask_def)
  ultimately show ?thesis by (simp add: np_mean_def)
qed

lemma np_div_zero_den: "is_rate r \<Longrightarrow> np_div r (Fin 0) = PInf \<or> np_div r (Fin 0) = NaN"
  by (cases r) (auto simp: is_rate_def)

lemma sum_le_mask: "sum_list (le_mask xs t) = real (length (filter (\<lambda>p. p \<le> t) xs))"
  by (induction xs) (auto simp: le_mask_def)

lemma count_ratio_gt:
  "count_ratio (gt_mask c t) c =
     (if c = [] then NaN else Fin (real (length (filter (\<lambda>p. t < p) c)) / real (length c)))"
  by (simp add: count_ratio_def sum_gt_mask)

lemma count_ratio_le:
  "count_ratio (le_mask c t) c =
     (if c = [] then NaN else Fin (real (length (filter (\<lambda>p. p \<le> t) c)) / real (length c)))"
  by (simp add: count_ratio_def sum_le_mask)

lemma is_rate_mean_gt: "is_rate (np_mean (gt_mask xs t))"
proof (cases xs)
  case Nil
  then show ?thesis by (simp add: np_mean_def gt_mask_def is_rate_def)
next
  case (Cons a list)
  have ne: "gt_mask xs t \<noteq> []" and len: "length (gt_mask xs t) = length xs"
    using Cons by (simp_all add: gt_mask_def)
  have "length (filter (\<lambda>p. t < p) xs) \<le> length xs" by (rule length_filter_le)
  then show ?thesis
    using ne len Cons by (simp add: np_mean_def sum_gt_mask is_rate_def divide_le_eq_1)
qed

subsection \<open>The p%-rule with rounding\<close>

lemma round_np_id [simp]: "round_np (\<lambda>x. x) v = v"
  by (cases v) (simp_all add: round_np_def)

lemma np_mean_bool_exact:
  "np_mean_bool (\<lambda>x. x) (map (\<lambda>p. t < p) xs) = np_mean (gt_mask xs t)"
proof (cases xs)
  case Nil then show ?thesis by (simp add: np_mean_bool_def np_mean_def gt_mask_def)
next
  case (Cons a l)
  have "length (filter (\<lambda>b. b) (map (\<lambda>p. t < p) xs)) = length (filter (\<lambda>p. t < p) xs)"
    by (simp add: filter_map comp_def)
  moreover have "gt_mask xs t \<noteq> []" "length (gt_mask xs t) = length xs"
    using Cons by (simp_all add: gt_mask_def)
  ultimately show ?thesis
    using Cons by (simp add: np_mean_bool_def np_mean_def sum_gt_mask)
qed

lemma np_mean_fl_exact: "np_mean_fl exact_ops xs = np_mean xs"
  by (simp add: np_mean_fl_def np_mean_def)

lemma group_mean_fl_exact:
  "group_mean_fl exact_ops y z g t =
     (case select_group y z g t of Inl e \<Rightarrow> Inl e | Inr sel \<Rightarrow> Inr (np_mean sel))"
  by (simp add: group_mean_fl_def select_group_def np_mean_fl_exact
        np_mean_bool_exact split: sum.splits)

lemma p_rule_fl_exact: "p_rule_fl exact_ops y z t = p_rule y z t"
  by (simp add: p_rule_fl_def p_rule_def p_rule_odds_def group_mean_fl_exact np_div_fl_def
        np_mul_fl_def Let_def split: sum.splits)

lemma np_mean_bool_rate:
  "np_mean_bool r (map (\<lambda>p. t < p) (group_preds y z g)) = rate_fl r y z g t"
  by (simp add: np_mean_bool_def rate_fl_def np_div_fl_def round_np_def filter_map comp_def)

lemma group_mean_fl_thr:
  "length z = length y \<Longrightarrow> t \<noteq> 0 \<Longrightarrow> group_mean_fl F y z g t = Inr (rate_fl (rnd F) y z g t)"
  by (simp add: group_mean_fl_def np_index_eq np_mean_bool_rate)

lemma p_rule_fl_thr:
  "length z = length y \<Longrightarrow> t \<noteq> 0 \<Longrightarrow>
   p_rule_fl F y z t = Inr (min_odds_fl (rnd F) (rate_fl (rnd F) y z 1 t) (rate_fl (rnd F) y z 0 t))"
  by (simp add: p_rule_fl_def group_mean_fl_thr min_odds_fl_def Let_def)

lemma rate_fl_cases:
  "rate_fl r y z g t = (if group_preds y z g = [] then NaN
     else Fin (r (real (length (filter (\<lambda>p. t < p) (group_preds y z g))) / real (length (group_preds y z g)))))"
  by (simp add: rate_fl_def np_div_fl_def round_np_def)

lemma rate_fl_range:
  assumes "rounding r" "group_preds y z g \<noteq> []"
  shows "\<exists>a. rate_fl r y z g t = Fin a \<and> 0 \<le> a \<and> a \<le> 1
           \<and> (a = 0 \<longleftrightarrow> filter (\<lambda>p. t < p) (group_preds y z g) = [])"
proof -
  let ?k = "length (filter (\<lambda>p. t < p) (group_preds y z g))" and ?n = "length (group_preds y z g)"
  let ?q = "real ?k / real ?n"
  have n: "0 < ?n" using assms(2) by simp
  have "?k \<le> ?n" by (rule length_filter_le)
  then have q: "0 \<le> ?q" "?q \<le> 1" using n by (simp_all add: divide_le_eq_1)
  have mono: "\<And>x y. x \<le> y \<Longrightarrow> r x \<le> r y" and r0: "r 0 = 0" and r1: "r 1 = 1"
    and pos: "\<And>x. 0 < x \<Longrightarrow> 0 < r x"
    using assms(1) by (simp_all add: rounding_def)
  have "0 \<le> r ?q" using mono[OF q(1)] r0 by simp
  moreover have "r ?q \<le> 1" using mono[OF q(2)] r1 by simp
  moreover have "r ?q = 0 \<longleftrightarrow> filter (\<lambda>p. t < p) (group_preds y z g) = []"
  proof
    assume z: "r ?q = 0"
    show "filter (\<lambda>p. t < p) (group_preds y z g) = []"
    proof (rule ccontr)
      assume "filter (\<lambda>p. t < p) (group_preds y z g) \<noteq> []"
      then have "0 < ?k" by simp
      then have "0 < ?q" using n by simp
      from pos[OF this] z show False by simp
    qed
  next
    assume "filter (\<lambda>p. t < p) (group_preds y z g) = []"
    then show "r ?q = 0" using r0 by simp
  qed
  ultimately show ?thesis using assms(2) by (simp add: rate_fl_cases)
qed

lemma min_odds_fl_pos:
  assumes "rounding r" "0 < a" "0 < b"
  shows "\<exists>v. min_odds_fl r (Fin a) (Fin b) = Fin v \<and> 0 \<le> v \<and> v \<le> 100"
proof -
  have mono: "\<And>x y. x \<le> y \<Longrightarrow> r x \<le> r y" and r0: "r 0 = 0" and r1: "r 1 = 1"
    and r100: "r 100 = 100" and pos: "\<And>x. 0 < x \<Longrightarrow> 0 < r x"
    using assms(1) by (simp_all add: rounding_def)
  define odds where "odds = r (a / b)"
  define inv where "inv = r (1 / odds)"
  have o: "0 < odds" unfolding odds_def using assms by (intro pos) simp
  then have i: "0 < inv" unfolding inv_def by (intro pos) simp
  define m where "m = min odds inv"
  have m0: "0 < m" using o i by (simp add: m_def)
  have m1: "m \<le> 1"
  proof (cases "odds \<le> 1")
    case True then show ?thesis by (simp add: m_def)
  next
    case False
    then have "1 / odds \<le> 1" using o by simp
    from mono[OF this] have "inv \<le> 1" by (simp add: inv_def r1)
    then show ?thesis by (simp add: m_def)
  qed
  have "0 \<le> m * 100" "m * 100 \<le> 100" using m0 m1 by simp_all
  from mono[OF this(1)] mono[OF this(2)] have "0 \<le> r (m * 100)" "r (m * 100) \<le> 100"
    by (simp_all add: r0 r100)
  moreover have "min_odds_fl r (Fin a) (Fin b) = Fin (r (m * 100))"
    using assms o by (simp add: min_odds_fl_def np_div_fl_def np_mul_fl_def round_np_def Let_def
        odds_def[symmetric] inv_def[symmetric] m_def)
  ultimately show ?thesis by simp
qed

lemma min_odds_fl_zero:
  assumes "rounding r"
  shows "0 < b \<Longrightarrow> min_odds_fl r (Fin 0) (Fin b) = Fin 0"
    and "0 < a \<Longrightarrow> min_odds_fl r (Fin a) (Fin 0) = Fin 0"
    and "min_odds_fl r (Fin 0) (Fin 0) = NaN"
    and "min_odds_fl r NaN w = NaN" and "min_odds_fl r (Fin a) NaN = NaN"
  using assms
  by (simp_all add: min_odds_fl_def np_div_fl_def np_mul_fl_def round_np_def Let_def rounding_def)

lemma min_odds_fl_rates:
  assumes "rounding r" "r1 = NaN \<or> (\<exists>a. r1 = Fin a \<and> 0 \<le> a)" "r0 = NaN \<or> (\<exists>b. r0 = Fin b \<and> 0 \<le> b)"
  shows "(min_odds_fl r r1 r0 = NaN \<longleftrightarrow> (r1 = NaN \<or> r0 = NaN \<or> (r1 = Fin 0 \<and> r0 = Fin 0)))
       \<and> (min_odds_fl r r1 r0 \<noteq> NaN \<longrightarrow>
            np_le (Fin 0) (min_odds_fl r r1 r0) \<and> np_le (min_odds_fl r r1 r0) (Fin 100))"
proof (cases "r1 = NaN \<or> r0 = NaN")
  case True
  then show ?thesis using assms min_odds_fl_zero(4,5)[OF assms(1)] by auto
next
  case False
  then obtain a b where ab: "r1 = Fin a" "0 \<le> a" "r0 = Fin b" "0 \<le> b" using assms by auto
  consider "a = 0" "b = 0" | "a = 0" "0 < b" | "0 < a" "b = 0" | "0 < a" "0 < b"
    using ab by fastforce
  then show ?thesis
  proof cases
    case 1 then show ?thesis using ab min_odds_fl_zero(3)[OF assms(1)] by simp
  next
    case 2 then show ?thesis using ab min_odds_fl_zero(1)[OF assms(1)] by simp
  next
    case 3 then show ?thesis using ab min_odds_fl_zero(2)[OF assms(1)] by simp
  next
    case 4
    from min_odds_fl_pos[OF assms(1) 4] obtain v where
      "min_odds_fl r (Fin a) (Fin b) = Fin v" "0 \<le> v" "v \<le> 100" by blast
    then show ?thesis using ab 4 by simp
  qed
qed

lemma swap_groups_length [simp]: "length (swap_groups z) = length z"
  by (simp add: swap_groups_def)

lemma rate_fl_shape:
  assumes "rounding r"
  shows "rate_fl r y z g t = NaN \<or> (\<exists>a. rate_fl r y z g t = Fin a \<and> 0 \<le> a)"
proof (cases "group_preds y z g = []")
  case True then show ?thesis by (simp add: rate_fl_cases)
next
  case False
  from rate_fl_range[OF assms False] show ?thesis by blast
qed

lemma rate_fl_nan: "(rate_fl r y z g t = NaN) = (group_preds y z g = [])"
  by (simp add: rate_fl_cases)

lemma rate_fl_zero:
  assumes "rounding r" "group_preds y z g \<noteq> []"
  shows "(rate_fl r y z g t = Fin 0) = (filter (\<lambda>p. t < p) (group_preds y z g) = [])"
  using rate_fl_range[OF assms, of t] by auto

lemma min_odds_fl_nan_groups:
  assumes "rounding r"
  shows "(min_odds_fl r (rate_fl r y z 1 t) (rate_fl r y z 0 t) = NaN) =
         (group_preds y z 1 = [] \<or> group_preds y z 0 = [] \<or>
          filter (\<lambda>p. t < p) (group_preds y z 1 @ group_preds y z 0) = [])"
proof -
  note sh = rate_fl_shape[OF assms]
  have "(min_odds_fl r (rate_fl r y z 1 t) (rate_fl r y z 0 t) = NaN) =
        (rate_fl r y z 1 t = NaN \<or> rate_fl r y z 0 t = NaN \<or>
         (rate_fl r y z 1 t = Fin 0 \<and> rate_fl r y z 0 t = Fin 0))"
    using min_odds_fl_rates[OF assms sh sh] by blast
  also have "\<dots> = (group_preds y z 1 = [] \<or> group_preds y z 0 = [] \<or>
          filter (\<lambda>p. t < p) (group_preds y z 1 @ group_preds y z 0) = [])"
    unfolding rate_fl_nan
    using rate_fl_zero[OF assms, of y z 1 t] rate_fl_zero[OF assms, of y z 0 t] by auto
  finally show ?thesis .
qed

lemma p_rule_fl_float64_example:
  "p_rule_fl float64_ops [9/10, 9/10, 1/10, 9/10, 9/10, 9/10, 1/10, 1/10]
       [1, 1, 1, 0, 0, 0, 0, 0] (1/2) = Inr (Fin (90 - 2 powi (-46)))"
  "p_rule_fl float64_ops [9/10, 9/10, 1/10, 9/10, 9/10, 9/10, 1/10, 1/10]
       (swap_groups [1, 1, 1, 0, 0, 0, 0, 0]) (1/2) = Inr (Fin 90)"
proof -
  have r1: "fl_round 53 (2/3) = 6004799503160661/9007199254740992"
    by (subst fl_round_at[where e="-1"]) (simp_all add: round_even_def Let_def)
  have r0: "fl_round 53 (3/5) = 5404319552844595/9007199254740992"
    by (subst fl_round_at[where e="-1"]) (simp_all add: round_even_def Let_def)
  have o1: "fl_round 53 (6004799503160661/5404319552844595) = 2501999792983609/2251799813685248"
    by (subst fl_round_at[where e="0"]) (simp_all add: round_even_def Let_def)
  have i1: "fl_round 53 (2251799813685248/2501999792983609) = 2026619832316723/2251799813685248"
    by (subst fl_round_at[where e="-1"]) (simp_all add: round_even_def Let_def)
  have m1: "fl_round 53 (50665495807918075/562949953421312) = 6333186975989759/70368744177664"
    by (subst fl_round_at[where e="6"]) (simp_all add: round_even_def Let_def)
  have o2: "fl_round 53 (5404319552844595/6004799503160661) = 8106479329266893/9007199254740992"
    by (subst fl_round_at[where e="-1"]) (simp_all add: round_even_def Let_def)
  have i2: "fl_round 53 (9007199254740992/8106479329266893) = 2501999792983609/2251799813685248"
    by (subst fl_round_at[where e="0"]) (simp_all add: round_even_def Let_def)
  have m2: "fl_round 53 (202661983231672325/2251799813685248) = 90"
    by (subst fl_round_at[where e="6"]) (simp_all add: round_even_def Let_def)
  show "p_rule_fl float64_ops [9/10, 9/10, 1/10, 9/10, 9/10, 9/10, 1/10, 1/10]
       [1, 1, 1, 0, 0, 0, 0, 0] (1/2) = Inr (Fin (90 - 2 powi (-46)))"
    by (simp add: p_rule_fl_def group_mean_fl_def np_index_def np_mean_bool_def np_div_fl_def
        np_mul_fl_def round_np_def Let_def r1 r0 o1 i1 m1)
  show "p_rule_fl float64_ops [9/10, 9/10, 1/10, 9/10, 9/10, 9/10, 1/10, 1/10]
       (swap_groups [1, 1, 1, 0, 0, 0, 0, 0]) (1/2) = Inr (Fin 90)"
    by (simp add: p_rule_fl_def group_mean_fl_def np_index_def np_mean_bool_def np_div_fl_def
        np_mul_fl_def round_np_def Let_def swap_groups_def r1 r0 o2 i2 m2)
qed

text \<open>
  Claim C3 (amended). For a prediction vector and a group vector of one length, a
  threshold other than 0 and every arithmetic whose rounding is monotone, keeps 0, 1
  and 100 and rounds no positive number to 0 (\<^verbatim>\<open>float64\<close> is one): \<open>p_rule\<close>
  returns \<open>min odds (1 / odds) * 100\<close> with \<open>odds = r1 / r0\<close>, where \<open>r\<^sub>g\<close> is the
  fraction of the samples of group \<open>g\<close> whose prediction exceeds the threshold, each
  operation rounds, and the divisions are NumPy's (a zero denominator gives \<^verbatim>\<open>inf\<close>
  or \<^verbatim>\<open>nan\<close>). The result is \<^verbatim>\<open>nan\<close> exactly when a group is empty or no
  prediction of either group exceeds the threshold, and otherwise lies between 0 and
  100; with the labels 0 and 1 swapped the result is \<^verbatim>\<open>nan\<close> in the same cases and
  otherwise lies between 0 and 100 as well. Without rounding the result is
  \<open>min (r1 / r0) (r0 / r1) * 100\<close> and does not change when the labels are swapped.
  With rounding neither need hold to the last bit, because \<open>1 / odds\<close> is computed from
  the rounded quotient: the witness below is an input on which \<^verbatim>\<open>float64\<close> gives
  \<open>90 - 2\<^sup>-\<^sup>4\<^sup>6\<close> and, with the labels swapped, 90.
\<close>

theorem p_rule_rate_ratio:
  assumes "length z = length y" and "t \<noteq> 0" and "rounding (rnd F)"
  shows "(\<exists>v w. p_rule_fl F y z t = Inr v
            \<and> v = min_odds_fl (rnd F) (rate_fl (rnd F) y z 1 t) (rate_fl (rnd F) y z 0 t)
            \<and> (v = NaN \<longleftrightarrow>
                 (group_preds y z 1 = [] \<or> group_preds y z 0 = [] \<or>
                  filter (\<lambda>p. t < p) (group_preds y z 1 @ group_preds y z 0) = []))
            \<and> (v \<noteq> NaN \<longrightarrow> np_le (Fin 0) v \<and> np_le v (Fin 100))
            \<and> p_rule_fl F y (swap_groups z) t = Inr w
            \<and> (w = NaN \<longleftrightarrow> v = NaN)
            \<and> (w \<noteq> NaN \<longrightarrow> np_le (Fin 0) w \<and> np_le w (Fin 100)))
       \<and> p_rule_fl exact_ops y z t = Inr (p_rule_spec y z t)
       \<and> p_rule_fl exact_ops y (swap_groups z) t = p_rule_fl exact_ops y z t"
proof -
  let ?r = "rnd F"
  let ?v = "min_odds_fl ?r (rate_fl ?r y z 1 t) (rate_fl ?r y z 0 t)"
  let ?w = "min_odds_fl ?r (rate_fl ?r y (swap_groups z) 1 t) (rate_fl ?r y (swap_groups z) 0 t)"
  note sh = rate_fl_shape[OF assms(3)]
  have code: "p_rule_fl F y z t = Inr ?v"
    using assms by (simp add: p_rule_fl_thr)
  have swap: "p_rule_fl F y (swap_groups z) t = Inr ?w"
    using assms by (simp add: p_rule_fl_thr)
  have nan: "?v = NaN \<longleftrightarrow>
            (group_preds y z 1 = [] \<or> group_preds y z 0 = [] \<or>
             filter (\<lambda>p. t < p) (group_preds y z 1 @ group_preds y z 0) = [])"
    by (rule min_odds_fl_nan_groups[OF assms(3)])
  have bound: "?v \<noteq> NaN \<longrightarrow> np_le (Fin 0) ?v \<and> np_le ?v (Fin 100)"
    using min_odds_fl_rates[OF assms(3) sh sh] by blast
  have gs: "group_preds y (swap_groups z) 1 = group_preds y z 0"
           "group_preds y (swap_groups z) 0 = group_preds y z 1"
    using group_preds_swap[OF assms(1)] by simp_all
  have wnan: "?w = NaN \<longleftrightarrow> ?v = NaN"
    unfolding min_odds_fl_nan_groups[OF assms(3)] gs by auto
  have wbound: "?w \<noteq> NaN \<longrightarrow> np_le (Fin 0) ?w \<and> np_le ?w (Fin 100)"
    using min_odds_fl_rates[OF assms(3) sh sh] by blast
  have ex: "p_rule_fl exact_ops y z t = Inr (p_rule_spec y z t)"
    using assms by (simp add: p_rule_fl_exact p_rule_thr indicator_is_spec)
  have exs: "p_rule_fl exact_ops y (swap_groups z) t = p_rule_fl exact_ops y z t"
    using assms by (simp add: p_rule_fl_exact p_rule_thr indicator_is_spec spec_swap)
  show ?thesis
    using code nan bound swap wnan wbound ex exs by blast
qed

text \<open>The theorem in \<^verbatim>\<open>float64\<close> at eight samples, three in group 1 and five in
  group 0, with the rates 2/3 and 3/5.\<close>

theorem p_rule_rate_ratio_witness:
  "length [1, 1, 1, 0, 0, 0, 0, 0 :: int]
     = length [9/10, 9/10, 1/10, 9/10, 9/10, 9/10, 1/10, 1/10 :: real]
   \<and> (1/2 :: real) \<noteq> 0 \<and> rounding (rnd float64_ops)
   \<and> p_rule_fl float64_ops [9/10, 9/10, 1/10, 9/10, 9/10, 9/10, 1/10, 1/10]
        [1, 1, 1, 0, 0, 0, 0, 0] (1/2) = Inr (Fin (90 - 2 powi (-46)))
   \<and> p_rule_fl float64_ops [9/10, 9/10, 1/10, 9/10, 9/10, 9/10, 1/10, 1/10]
        (swap_groups [1, 1, 1, 0, 0, 0, 0, 0]) (1/2) = Inr (Fin 90)
   \<and> p_rule_fl exact_ops [9/10, 9/10, 1/10, 9/10, 9/10, 9/10, 1/10, 1/10]
        [1, 1, 1, 0, 0, 0, 0, 0] (1/2) = Inr (Fin 90)
   \<and> p_rule_fl exact_ops [9/10, 9/10, 1/10, 9/10, 9/10, 9/10, 1/10, 1/10]
        (swap_groups [1, 1, 1, 0, 0, 0, 0, 0]) (1/2) = Inr (Fin 90)
   \<and> np_le (Fin 0) (Fin (90 - 2 powi (-46))) \<and> np_le (Fin (90 - 2 powi (-46))) (Fin 100)"
proof -
  let ?y = "[9/10, 9/10, 1/10, 9/10, 9/10, 9/10, 1/10, 1/10 :: real]"
  let ?z = "[1, 1, 1, 0, 0, 0, 0, 0 :: int]"
  have len: "length ?z = length ?y" and t: "(1/2 :: real) \<noteq> 0" by simp_all
  have r: "rounding (rnd float64_ops)" by (simp add: rounding_fl_round_53)
  note inst = p_rule_rate_ratio[where F=float64_ops and y="?y" and z="?z" and t="1/2",
      OF len t r]
  have s: "p_rule_spec ?y ?z (1/2) = Fin 90"
    by (simp add: p_rule_spec_def positive_rate_def group_preds_def)
  have e1: "p_rule_fl exact_ops ?y ?z (1/2) = Inr (Fin 90)"
    using inst s by simp
  have e2: "p_rule_fl exact_ops ?y (swap_groups ?z) (1/2) = Inr (Fin 90)"
    using inst s by simp
  have b: "np_le (Fin 0) (Fin (90 - 2 powi (-46))) \<and> np_le (Fin (90 - 2 powi (-46))) (Fin 100)"
    by simp
  show ?thesis
    by (intro conjI) (rule len, rule t, rule r, rule p_rule_fl_float64_example(1),
        rule p_rule_fl_float64_example(2), rule e1, rule e2, rule b[THEN conjunct1],
        rule b[THEN conjunct2])
qed

text \<open>
  Claim C3 as written (every prediction vector, every group vector) fails: with the
  single sample \<open>(0.9, group 1)\<close> group 0 is empty, its mean is \<^verbatim>\<open>nan\<close>, and so is
  the result, which is not at most 100.
\<close>

theorem p_rule_at_most_100_counterexample:
  "\<not> (\<exists>v. p_rule [9/10] [1] (1/2) = Inr v \<and> np_le v (Fin 100))"
  by (simp add: p_rule_def p_rule_odds_def select_group_def np_index_def gt_mask_def np_mean_def)



text \<open>
  Claim C8. \<open>fp_rate\<close> and \<open>fn_rate\<close> divide by the size of each (label, group) cell
  with no guard: the entry of an empty cell is \<^verbatim>\<open>nan\<close>. \<open>p_rule\<close> divides by the
  mean of group 0 with no guard: when group 0 is not empty and none of its predictions
  exceeds the (non-zero) threshold, that mean is 0 and the quotient \<^verbatim>\<open>odds\<close> is
  \<^verbatim>\<open>inf\<close> or \<^verbatim>\<open>nan\<close>.
\<close>

theorem metric_divisions_unguarded:
  assumes "length y_test = length y_pred" and "length z = length y_pred"
  shows "fp_rate y_test y_pred z t =
           Inr (map (\<lambda>g. (g, let c = cell_members y_test y_pred z 0 g in
                  if c = [] then NaN
                  else Fin (real (length (filter (\<lambda>p. t < p) c)) / real (length c)))) [0, 1])
       \<and> fn_rate y_test y_pred z t =
           Inr (map (\<lambda>g. (g, let c = cell_members y_test y_pred z 1 g in
                  if c = [] then NaN
                  else Fin (real (length (filter (\<lambda>p. p \<le> t) c)) / real (length c)))) [0, 1])
       \<and> (t \<noteq> 0 \<and> group_preds y_pred z 0 \<noteq> []
            \<and> filter (\<lambda>p. t < p) (group_preds y_pred z 0) = [] \<longrightarrow>
            np_mean (gt_mask (group_preds y_pred z 0) t) = Fin 0
            \<and> p_rule_odds y_pred z t =
                Inr (np_div (np_mean (gt_mask (group_preds y_pred z 1) t)) (Fin 0))
            \<and> (p_rule_odds y_pred z t = Inr PInf \<or> p_rule_odds y_pred z t = Inr NaN))"
proof -
  have fp: "fp_rate y_test y_pred z t =
           Inr (map (\<lambda>g. (g, let c = cell_members y_test y_pred z 0 g in
                  if c = [] then NaN
                  else Fin (real (length (filter (\<lambda>p. t < p) c)) / real (length c)))) [0, 1])"
    using assms by (simp add: fp_rate_def cell_eq count_ratio_gt Let_def)
  have fn: "fn_rate y_test y_pred z t =
           Inr (map (\<lambda>g. (g, let c = cell_members y_test y_pred z 1 g in
                  if c = [] then NaN
                  else Fin (real (length (filter (\<lambda>p. p \<le> t) c)) / real (length c)))) [0, 1])"
    using assms by (simp add: fn_rate_def cell_eq count_ratio_le Let_def)
  have pr: "np_mean (gt_mask (group_preds y_pred z 0) t) = Fin 0
            \<and> p_rule_odds y_pred z t =
                Inr (np_div (np_mean (gt_mask (group_preds y_pred z 1) t)) (Fin 0))
            \<and> (p_rule_odds y_pred z t = Inr PInf \<or> p_rule_odds y_pred z t = Inr NaN)"
    if h: "t \<noteq> 0 \<and> group_preds y_pred z 0 \<noteq> []
            \<and> filter (\<lambda>p. t < p) (group_preds y_pred z 0) = []"
  proof -
    have den: "np_mean (gt_mask (group_preds y_pred z 0) t) = Fin 0"
      using h by (simp add: mean_zero_den)
    have odds: "p_rule_odds y_pred z t =
                Inr (np_div (np_mean (gt_mask (group_preds y_pred z 1) t)) (Fin 0))"
      using assms h by (simp add: p_rule_odds_def select_group_thr den)
    show ?thesis
      using den odds np_div_zero_den[OF is_rate_mean_gt, of "group_preds y_pred z 1" t]
      by auto
  qed
  show ?thesis using fp fn pr by blast
qed

text \<open>
  The theorem at two samples with label 1 and predictions 0.3 and 0.2 under threshold
  0.5: both cells of label 0 are empty, both group means are 0, and \<open>p_rule\<close> returns
  \<^verbatim>\<open>nan\<close>.
\<close>

theorem metric_divisions_unguarded_witness:
  "length [1, 1 :: int] = length [3/10, 2/10 :: real] \<and> length [1, 0 :: int] = length [3/10, 2/10 :: real]
   \<and> fp_rate [1, 1] [3/10, 2/10] [1, 0] (1/2) = Inr [(0, NaN), (1, NaN)]
   \<and> fn_rate [1, 1] [3/10, 2/10] [1, 0] (1/2) = Inr [(0, Fin 1), (1, Fin 1)]
   \<and> (1/2 :: real) \<noteq> 0 \<and> group_preds [3/10, 2/10] [1, 0] 0 = [2/10]
   \<and> filter (\<lambda>p. 1/2 < p) (group_preds [3/10, 2/10] [1, 0] 0) = []
   \<and> np_mean (gt_mask (group_preds [3/10, 2/10] [1, 0] 0) (1/2)) = Fin 0
   \<and> p_rule_odds [3/10, 2/10] [1, 0] (1/2) = Inr NaN
   \<and> p_rule [3/10, 2/10] [1, 0] (1/2) = Inr NaN"
proof -
  have g0: "group_preds [3/10, 2/10] [1, 0] 0 = [2/10]"
    and g1: "group_preds [3/10, 2/10] [1, 0] 1 = [3/10]"
    by (simp_all add: group_preds_def)
  have c: "cell_members [1, 1] [3/10, 2/10] [1, 0] 0 0 = []"
          "cell_members [1, 1] [3/10, 2/10] [1, 0] 0 1 = []"
          "cell_members [1, 1] [3/10, 2/10] [1, 0] 1 0 = [2/10]"
          "cell_members [1, 1] [3/10, 2/10] [1, 0] 1 1 = [3/10]"
    by (simp_all add: cell_members_def)
  note inst = metric_divisions_unguarded[of "[1, 1]" "[3/10, 2/10]" "[1, 0]" "1/2"]
  have fp: "fp_rate [1, 1] [3/10, 2/10] [1, 0] (1/2) = Inr [(0, NaN), (1, NaN)]"
    using inst c by simp
  have fn: "fn_rate [1, 1] [3/10, 2/10] [1, 0] (1/2) = Inr [(0, Fin 1), (1, Fin 1)]"
    using inst c by simp
  have od: "p_rule_odds [3/10, 2/10] [1, 0] (1/2) =
            Inr (np_div (np_mean (gt_mask (group_preds [3/10, 2/10] [1, 0] 1) (1/2))) (Fin 0))"
    using inst g0 by simp
  have od': "p_rule_odds [3/10, 2/10] [1, 0] (1/2) = Inr NaN"
    unfolding od g1 by (simp add: gt_mask_def np_mean_def)
  have pr: "p_rule [3/10, 2/10] [1, 0] (1/2) = Inr NaN"
    unfolding p_rule_def od' by simp
  have den: "np_mean (gt_mask (group_preds [3/10, 2/10] [1, 0] 0) (1/2)) = Fin 0"
    unfolding g0 by (simp add: gt_mask_def np_mean_def)
  show ?thesis using fp fn g0 od' pr den by simp
qed


section \<open>Properties of the loader\<close>

lemma map_of_None_iff: "(map_of df l = None) = (l \<notin> set (map fst df))"
  by (simp add: map_of_eq_None_iff)

lemma sens_frame:
  "loc_columns df sensitive_attribs =
     (case map_of df ''protected'' of
        None \<Rightarrow> Inl (KeyError ''protected'')
      | Some c \<Rightarrow> Inr [(''protected'', c)])"
  by (simp add: sensitive_attribs_def split: option.split)

lemma assign_single: "assign [(l, c)] l col = [(l, col)]"
  by (simp add: assign_def)

lemma getitem_single: "getitem [(l, c)] l = Inr c"
  by (simp add: getitem_def)

lemma drop_present:
  "''target'' \<in> set (map fst df) \<Longrightarrow> ''protected'' \<in> set (map fst df) \<Longrightarrow>
   drop_columns df [''target'', ''protected''] =
     Inr (filter (\<lambda>(l, c). l \<noteq> ''target'' \<and> l \<noteq> ''protected'') df)"
  by (simp add: drop_columns_def)

lemma load_unfold:
  assumes "read_csv path = Inr df"
    and "map_of df ''protected'' = Some (ObjCol cs)"
    and "map_of df ''target'' = Some tcol"
  shows "load_GEN_data read_csv py_int path =
     (case astype_int py_int tcol of Inl e \<Rightarrow> Inl e | Inr y \<Rightarrow>
      (case get_dummies_drop_first (filter (\<lambda>(l, c). l \<noteq> ''target'' \<and> l \<noteq> ''protected'') df) of
         Inl e \<Rightarrow> Inl e
       | Inr X \<Rightarrow> Inr (X, y, [(''protected'', IntCol (map (\<lambda>c. if c = Some ''B'' then 1 else 0) cs))])))"
proof -
  have t: "''target'' \<in> set (map fst df)" and p: "''protected'' \<in> set (map fst df)"
    using assms(2,3) map_of_None_iff[of df] by (metis option.distinct(1))+
  show ?thesis
    using assms
    by (simp add: load_GEN_data_def sens_frame getitem_single assign_single getitem_def
          drop_present[OF t p] bools_astype_int_def Let_def split: sum.split)
qed

lemma load_no_protected:
  assumes "read_csv path = Inr df" and "''protected'' \<notin> set (map fst df)"
  shows "load_GEN_data read_csv py_int path = Inl (KeyError ''protected'')"
proof -
  have "map_of df ''protected'' = None" using assms(2) by (simp add: map_of_None_iff)
  then show ?thesis using assms(1) by (simp add: load_GEN_data_def sens_frame)
qed

lemma load_numeric_protected:
  assumes "read_csv path = Inr df" and "map_of df ''protected'' = Some c" and "\<not> is_object c"
  shows "load_GEN_data read_csv py_int path = Inl TypeError"
  using assms by (cases c) (simp_all add: load_GEN_data_def sens_frame getitem_single)

lemma load_no_target:
  assumes "read_csv path = Inr df" and "map_of df ''protected'' = Some (ObjCol cs)"
    and "''target'' \<notin> set (map fst df)"
  shows "load_GEN_data read_csv py_int path = Inl (KeyError ''target'')"
proof -
  have "map_of df ''target'' = None" using assms(3) by (simp add: map_of_None_iff)
  then show ?thesis
    using assms(1,2)
    by (simp add: load_GEN_data_def sens_frame getitem_single assign_single getitem_def Let_def)
qed

lemma load_returns_cases:
  assumes "read_csv path = Inr df" and "load_GEN_data read_csv py_int path = Inr (X, y, Z)"
  obtains cs tcol where "map_of df ''protected'' = Some (ObjCol cs)" "map_of df ''target'' = Some tcol"
proof -
  obtain c where c: "map_of df ''protected'' = Some c"
    using assms load_no_protected[where read_csv=read_csv and path=path and df=df and py_int=py_int]
      map_of_None_iff[of df "''protected''"]
    by (cases "map_of df ''protected''") auto
  have "is_object c"
    using assms c
      load_numeric_protected[where read_csv=read_csv and path=path and df=df and py_int=py_int and c=c]
    by auto
  then obtain cs where cs: "c = ObjCol cs" by (cases c) auto
  obtain tcol where "map_of df ''target'' = Some tcol"
    using assms c cs
      load_no_target[where read_csv=read_csv and path=path and df=df and py_int=py_int and cs=cs]
      map_of_None_iff[of df "''target''"]
    by (cases "map_of df ''target''") auto
  then show ?thesis using that c cs by blast
qed

lemma get_dummies_ok:
  "df \<noteq> [] \<Longrightarrow> \<exists>X. get_dummies_drop_first df = Inr X"
  by (cases df) (auto simp: get_dummies_drop_first_def Let_def)

lemma get_dummies_set:
  assumes "get_dummies_drop_first df = Inr X"
  shows "set X = {(l, c). (l, c) \<in> set df \<and> \<not> is_object c}
               \<union> (\<Union>p \<in> {p \<in> set df. is_object (snd p)}. set (dummies_1d p))"
proof -
  let ?enc = "filter (\<lambda>(l, c). is_object c) df"
  let ?keep = "filter (\<lambda>(l, c). \<not> is_object c) df"
  have k: "length ?enc = length df \<Longrightarrow> ?keep = []"
  proof -
    assume "length ?enc = length df"
    then have "\<forall>p \<in> set df. (\<lambda>(l, c). is_object c) p"
      by (metis (no_types, lifting) length_filter_less less_irrefl_nat)
    then show "?keep = []" by (auto simp: filter_empty_conv)
  qed
  have X: "X = concat ((if length ?enc = length df then [] else [?keep]) @ map dummies_1d ?enc)"
    using assms by (simp add: get_dummies_drop_first_def Let_def split: if_splits)
  have "set X = set ?keep \<union> (\<Union>p \<in> set ?enc. set (dummies_1d p))"
  proof (cases "length ?enc = length df")
    case True
    then show ?thesis using X k[OF True] by simp
  next
    case False
    then show ?thesis using X by simp
  qed
  also have "set ?keep = {(l, c). (l, c) \<in> set df \<and> \<not> is_object c}" by auto
  also have "set ?enc = {p \<in> set df. is_object (snd p)}" by auto
  finally show ?thesis .
qed

lemma underscore_in_dummy: "CHR ''_'' \<in> set (dummy_name c l)"
  by (simp add: dummy_name_def)

lemma dummy_name_not_reserved: "dummy_name c l \<noteq> ''target'' \<and> dummy_name c l \<noteq> ''protected''"
proof -
  have "CHR ''_'' \<notin> set ''target''" "CHR ''_'' \<notin> set ''protected''" by simp_all
  then show ?thesis using underscore_in_dummy[of c l] by metis
qed

lemma dummies_set:
  "(\<Union>p \<in> {p \<in> set df. is_object (snd p)}. set (dummies_1d p)) =
   {(dummy_name c l, indicator cs l) | c cs l. (c, ObjCol cs) \<in> set df \<and> l \<in> set (tl (levels cs))}"
proof (rule set_eqI, rule iffI)
  fix q assume "q \<in> (\<Union>p \<in> {p \<in> set df. is_object (snd p)}. set (dummies_1d p))"
  then obtain c col where m: "(c, col) \<in> set df" "is_object col" "q \<in> set (dummies_1d (c, col))"
    by auto
  then obtain cs where "col = ObjCol cs" by (cases col) auto
  then show "q \<in> {(dummy_name c l, indicator cs l) | c cs l.
                  (c, ObjCol cs) \<in> set df \<and> l \<in> set (tl (levels cs))}"
    using m by auto
next
  fix q assume "q \<in> {(dummy_name c l, indicator cs l) | c cs l.
                  (c, ObjCol cs) \<in> set df \<and> l \<in> set (tl (levels cs))}"
  then obtain c cs l where m: "q = (dummy_name c l, indicator cs l)" "(c, ObjCol cs) \<in> set df"
      "l \<in> set (tl (levels cs))" by auto
  then have "q \<in> set (dummies_1d (c, ObjCol cs))" by auto
  then show "q \<in> (\<Union>p \<in> {p \<in> set df. is_object (snd p)}. set (dummies_1d p))"
    using m(2) by force
qed

lemma features_of_filter:
  assumes "get_dummies_drop_first (filter (\<lambda>(l, c). l \<noteq> ''target'' \<and> l \<noteq> ''protected'') df) = Inr X"
  shows "set X = feature_columns df"
  unfolding get_dummies_set[OF assms] dummies_set feature_columns_def
  by auto

lemma feature_names:
  "(l, c) \<in> feature_columns df \<Longrightarrow> l \<noteq> ''target'' \<and> l \<noteq> ''protected''"
  using dummy_name_not_reserved by (auto simp: feature_columns_def)

lemma example_load:
  "load_GEN_data example_fs (\<lambda>s. None) ''data/generated.data'' =
     Inr ([(''x1'', FloatCol [Fin (1/2), Fin 2, Fin 3, Fin 4]),
           (''colour_green'', IntCol [0, 0, 1, 0]),
           (''colour_red'', IntCol [1, 0, 0, 1])],
          [0, 1, 1, 0],
          [(''protected'', IntCol [0, 1, 1, 0])])"
  by (simp add: load_GEN_data_def example_fs_def example_csv_def sensitive_attribs_def
        getitem_def assign_def bools_astype_int_def drop_columns_def
        get_dummies_drop_first_def levels_def dummy_name_def indicator_def Let_def)

text \<open>
  Claim C4. Let the file parse to the frame \<open>df\<close>. Whenever \<open>load_GEN_data\<close> returns
  \<open>(X, y, Z)\<close>, the \<^verbatim>\<open>protected\<close> column of the file is a column of strings and
  \<open>Z\<close> is the single column \<^verbatim>\<open>protected\<close> holding 1 on the rows whose value is
  \<^verbatim>\<open>'B'\<close> and 0 on every other row. And it does return, with that \<open>Z\<close>, whenever the
  file has a string column \<^verbatim>\<open>protected\<close>, a column \<^verbatim>\<open>target\<close> that casts to
  integers, and at least one feature column.
\<close>

theorem load_GEN_data_protected_indicator:
  assumes "read_csv path = Inr df"
  shows "(\<forall>X y Z. load_GEN_data read_csv py_int path = Inr (X, y, Z) \<longrightarrow>
            (\<exists>cs. map_of df ''protected'' = Some (ObjCol cs)
               \<and> Z = [(''protected'', IntCol (map (\<lambda>c. if c = Some ''B'' then 1 else 0) cs))]))
       \<and> (\<forall>cs tcol y. map_of df ''protected'' = Some (ObjCol cs)
               \<and> map_of df ''target'' = Some tcol \<and> astype_int py_int tcol = Inr y
               \<and> (\<exists>l \<in> set (map fst df). l \<noteq> ''target'' \<and> l \<noteq> ''protected'') \<longrightarrow>
            (\<exists>X. load_GEN_data read_csv py_int path =
                   Inr (X, y, [(''protected'',
                                IntCol (map (\<lambda>c. if c = Some ''B'' then 1 else 0) cs))])))"
proof (intro conjI allI impI)
  fix X y Z
  assume r: "load_GEN_data read_csv py_int path = Inr (X, y, Z)"
  from load_returns_cases[where read_csv=read_csv and path=path and df=df and py_int=py_int
        and X=X and y=y and Z=Z] assms r
  obtain cs tcol where
    c: "map_of df ''protected'' = Some (ObjCol cs)" "map_of df ''target'' = Some tcol"
    by blast
  have "Z = [(''protected'', IntCol (map (\<lambda>c. if c = Some ''B'' then 1 else 0) cs))]"
    using r load_unfold[where read_csv=read_csv and path=path and df=df and py_int=py_int
        and cs=cs and tcol=tcol] assms c
    by (auto split: sum.splits)
  then show "\<exists>cs. map_of df ''protected'' = Some (ObjCol cs)
               \<and> Z = [(''protected'', IntCol (map (\<lambda>c. if c = Some ''B'' then 1 else 0) cs))]"
    using c(1) by blast
next
  fix cs tcol y
  assume h: "map_of df ''protected'' = Some (ObjCol cs)
               \<and> map_of df ''target'' = Some tcol \<and> astype_int py_int tcol = Inr y
               \<and> (\<exists>l \<in> set (map fst df). l \<noteq> ''target'' \<and> l \<noteq> ''protected'')"
  then obtain l where "l \<in> set (map fst df)" "l \<noteq> ''target'' \<and> l \<noteq> ''protected''"
    by blast
  then obtain col where "(l, col) \<in> set df" "(\<lambda>(l, c). l \<noteq> ''target'' \<and> l \<noteq> ''protected'') (l, col)"
    by fastforce
  then have "filter (\<lambda>(l, c). l \<noteq> ''target'' \<and> l \<noteq> ''protected'') df \<noteq> []"
    unfolding filter_empty_conv by blast
  from get_dummies_ok[OF this] obtain X where
    "get_dummies_drop_first (filter (\<lambda>(l, c). l \<noteq> ''target'' \<and> l \<noteq> ''protected'') df) = Inr X"
    by blast
  then show "\<exists>X. load_GEN_data read_csv py_int path =
                   Inr (X, y, [(''protected'',
                                IntCol (map (\<lambda>c. if c = Some ''B'' then 1 else 0) cs))])"
    using h assms load_unfold[where read_csv=read_csv and path=path and df=df and py_int=py_int
        and cs=cs and tcol=tcol]
    by simp
qed

text \<open>The theorem at the example file: the groups A, B, B and a missing value give
  0, 1, 1, 0.\<close>

theorem load_GEN_data_protected_indicator_witness:
  "example_fs ''data/generated.data'' = Inr example_csv
   \<and> map_of example_csv ''protected'' = Some (ObjCol [Some ''A'', Some ''B'', Some ''B'', None])
   \<and> map_of example_csv ''target'' = Some (IntCol [0, 1, 1, 0])
   \<and> astype_int (\<lambda>s. None) (IntCol [0, 1, 1, 0]) = Inr [0, 1, 1, 0]
   \<and> ''x1'' \<in> set (map fst example_csv)
   \<and> (\<exists>X. load_GEN_data example_fs (\<lambda>s. None) ''data/generated.data'' =
            Inr (X, [0, 1, 1, 0], [(''protected'', IntCol [0, 1, 1, 0])]))"
proof -
  have f: "example_fs ''data/generated.data'' = Inr example_csv"
    by (simp add: example_fs_def)
  have p: "map_of example_csv ''protected'' = Some (ObjCol [Some ''A'', Some ''B'', Some ''B'', None])"
    and t: "map_of example_csv ''target'' = Some (IntCol [0, 1, 1, 0])"
    and x: "''x1'' \<in> set (map fst example_csv)"
    by (simp_all add: example_csv_def)
  have a: "astype_int (\<lambda>s. None) (IntCol [0, 1, 1, 0]) = Inr [0, 1, 1, 0]" by simp
  have e: "\<exists>l \<in> set (map fst example_csv). l \<noteq> ''target'' \<and> l \<noteq> ''protected''"
    using x by (intro bexI[of _ "''x1''"]) simp_all
  from load_GEN_data_protected_indicator[where read_csv=example_fs
        and path="''data/generated.data''" and df=example_csv and py_int="\<lambda>s. None"] f p t a e
  have "\<exists>X. load_GEN_data example_fs (\<lambda>s. None) ''data/generated.data'' =
            Inr (X, [0, 1, 1, 0], [(''protected'',
              IntCol (map (\<lambda>c. if c = Some ''B'' then 1 else 0) [Some ''A'', Some ''B'', Some ''B'', None]))])"
    by blast
  then have "\<exists>X. load_GEN_data example_fs (\<lambda>s. None) ''data/generated.data'' =
            Inr (X, [0, 1, 1, 0], [(''protected'', IntCol [0, 1, 1, 0])])"
    by simp
  then show ?thesis using f p t a x by blast
qed

subsection \<open>The feature matrix and the labels\<close>

lemma is_object_iff: "is_object c = (\<exists>cs. c = ObjCol cs)"
  by (cases c) simp_all

lemma levels_spec:
  "sorted (levels cs) \<and> distinct (levels cs) \<and> set (levels cs) = {s. Some s \<in> set cs}"
proof -
  have "set (concat (map (\<lambda>c. case c of None \<Rightarrow> [] | Some s \<Rightarrow> [s]) cs)) = {s. Some s \<in> set cs}"
    by (induction cs) (auto split: option.splits)
  then show ?thesis by (simp add: levels_def)
qed

lemma truncates_trunc: "truncates x (if 0 \<le> x then \<lfloor>x\<rfloor> else \<lceil>x\<rceil>)"
  unfolding truncates_def by (auto; linarith)

lemma float_cast:
  "all_some (map float_to_int fs) = Some y \<Longrightarrow>
   length y = length fs
   \<and> (\<forall>i < length fs. \<exists>x n. fs ! i = Fin x \<and> truncates x n
          \<and> y ! i = (if - (2 ^ 63) \<le> n \<and> n < 2 ^ 63 then n else - (2 ^ 63)))"
proof (induction fs arbitrary: y)
  case Nil
  then show ?case by simp
next
  case (Cons f fs)
  from Cons.prems obtain v r where v: "float_to_int f = Some v"
    and r: "all_some (map float_to_int fs) = Some r" and y: "y = v # r"
    by (cases "float_to_int f"; cases "all_some (map float_to_int fs)") auto
  from v obtain x where f: "f = Fin x" by (cases f) simp_all
  define n where "n = (if 0 \<le> x then \<lfloor>x\<rfloor> else \<lceil>x\<rceil>)"
  have t: "truncates x n" unfolding n_def by (rule truncates_trunc)
  have vv: "v = (if - (2 ^ 63) \<le> n \<and> n < 2 ^ 63 then n else - (2 ^ 63))"
  proof -
    have "float_to_int f = Some (if - (2 ^ 63) \<le> n \<and> n < 2 ^ 63 then n else - (2 ^ 63))"
      unfolding f float_to_int.simps Let_def in_int64_def n_def[symmetric] ..
    with v show ?thesis by (simp only: option.inject)
  qed
  from Cons.IH[OF r] have len: "length r = length fs"
    and rest: "\<And>i. i < length fs \<Longrightarrow> \<exists>x n. fs ! i = Fin x \<and> truncates x n
          \<and> r ! i = (if - (2 ^ 63) \<le> n \<and> n < 2 ^ 63 then n else - (2 ^ 63))"
    by blast+
  have "\<exists>x n. (f # fs) ! i = Fin x \<and> truncates x n
          \<and> y ! i = (if - (2 ^ 63) \<le> n \<and> n < 2 ^ 63 then n else - (2 ^ 63))"
    if "i < length (f # fs)" for i
  proof (cases i)
    case 0
    have "(f # fs) ! 0 = Fin x" "y ! 0 = v" by (simp_all only: nth_Cons_0 f y)
    then show ?thesis using t vv unfolding 0 by blast
  next
    case (Suc j)
    have j: "j < length fs" using that Suc by simp
    have "(f # fs) ! Suc j = fs ! j" "y ! Suc j = r ! j" by (simp_all only: nth_Cons_Suc y)
    then show ?thesis using rest[OF j] unfolding Suc by (simp only:)
  qed
  moreover have "length y = length (f # fs)" using len y by simp
  ultimately show ?case by blast
qed

lemma strs_cast:
  "strs_astype_int py_int cs = Inr y \<Longrightarrow>
   length y = length cs
   \<and> (\<forall>i < length cs. \<exists>s. cs ! i = Some s \<and> py_int s = Some (y ! i)
          \<and> - (2 ^ 63) \<le> y ! i \<and> y ! i < 2 ^ 63)"
proof (induction cs arbitrary: y)
  case Nil
  then show ?case by simp
next
  case (Cons c cs)
  from Cons.prems obtain s where c: "c = Some s" by (cases c) simp_all
  from Cons.prems c obtain n where n: "py_int s = Some n" by (cases "py_int s") simp_all
  have rg: "in_int64 n"
  proof (rule ccontr)
    assume "\<not> in_int64 n"
    then have "strs_astype_int py_int (c # cs) = Inl OverflowError"
      unfolding c by (simp only: strs_astype_int.simps n option.case if_False)
    with Cons.prems show False by simp
  qed
  have u: "strs_astype_int py_int (c # cs)
        = (case strs_astype_int py_int cs of Inl e \<Rightarrow> Inl e | Inr r \<Rightarrow> Inr (n # r))"
    unfolding c using rg by (simp only: strs_astype_int.simps n option.case if_True)
  from Cons.prems obtain r where r: "strs_astype_int py_int cs = Inr r" and y: "y = n # r"
    unfolding u by (cases "strs_astype_int py_int cs") simp_all
  from Cons.IH[OF r] have len: "length r = length cs"
    and rest: "\<And>i. i < length cs \<Longrightarrow> \<exists>s. cs ! i = Some s \<and> py_int s = Some (r ! i)
          \<and> - (2 ^ 63) \<le> r ! i \<and> r ! i < 2 ^ 63"
    by blast+
  have "\<exists>s. (c # cs) ! i = Some s \<and> py_int s = Some (y ! i)
          \<and> - (2 ^ 63) \<le> y ! i \<and> y ! i < 2 ^ 63"
    if "i < length (c # cs)" for i
  proof (cases i)
    case 0
    have "(c # cs) ! 0 = Some s" "y ! 0 = n" by (simp_all only: nth_Cons_0 c y)
    then show ?thesis using n rg unfolding 0 in_int64_def by blast
  next
    case (Suc j)
    have j: "j < length cs" using that Suc by simp
    have "(c # cs) ! Suc j = cs ! j" "y ! Suc j = r ! j" by (simp_all only: nth_Cons_Suc y)
    then show ?thesis using rest[OF j] unfolding Suc by (simp only:)
  qed
  moreover have "length y = length (c # cs)" using len y by simp
  ultimately show ?case by blast
qed

lemma astype_int_kinds:
  assumes "astype_int py_int tcol = Inr y"
  shows "case tcol of
           IntCol xs \<Rightarrow> y = xs
         | BoolCol bs \<Rightarrow> y = map (\<lambda>b. if b then 1 else 0) bs
         | FloatCol fs \<Rightarrow>
             length y = length fs
             \<and> (\<forall>i < length fs. \<exists>x n. fs ! i = Fin x \<and> truncates x n
                  \<and> y ! i = (if - (2 ^ 63) \<le> n \<and> n < 2 ^ 63 then n else - (2 ^ 63)))
         | ObjCol cs \<Rightarrow>
             length y = length cs
             \<and> (\<forall>i < length cs. \<exists>s. cs ! i = Some s \<and> py_int s = Some (y ! i)
                  \<and> - (2 ^ 63) \<le> y ! i \<and> y ! i < 2 ^ 63)"
proof (cases tcol)
  case (IntCol xs)
  then show ?thesis using assms by auto
next
  case (FloatCol fs)
  then have "all_some (map float_to_int fs) = Some y"
    using assms by (simp add: or_value_error_def split: option.splits)
  from float_cast[OF this] show ?thesis using FloatCol by simp
next
  case (BoolCol bs)
  then show ?thesis using assms by auto
next
  case (ObjCol cs)
  then have "strs_astype_int py_int cs = Inr y" using assms by simp
  from strs_cast[OF this] show ?thesis using ObjCol by simp
qed

lemma get_dummies_list:
  assumes "get_dummies_drop_first df = Inr X"
  shows "X = filter (\<lambda>(l, c). \<not> is_object c) df
             @ concat (map dummies_1d (filter (\<lambda>(l, c). is_object c) df))"
proof -
  let ?enc = "filter (\<lambda>(l, c). is_object c) df"
  let ?keep = "filter (\<lambda>(l, c). \<not> is_object c) df"
  have k: "?keep = []" if "length ?enc = length df"
  proof -
    have "\<forall>p \<in> set df. (\<lambda>(l, c). is_object c) p"
      using that by (metis (no_types, lifting) length_filter_less less_irrefl_nat)
    then show "?keep = []" by (auto simp: filter_empty_conv)
  qed
  have X: "X = concat ((if length ?enc = length df then [] else [?keep]) @ map dummies_1d ?enc)"
    using assms by (simp add: get_dummies_drop_first_def Let_def split: if_splits)
  show ?thesis
  proof (cases "length ?enc = length df")
    case True
    then show ?thesis using X k[OF True] by simp
  next
    case False
    then show ?thesis using X by simp
  qed
qed

lemma encoded_blocks:
  assumes "\<forall>p \<in> set enc. is_object (snd p)"
  shows "\<forall>i < length enc. \<exists>c cs lv. enc ! i = (c, ObjCol cs)
           \<and> sorted lv \<and> distinct lv \<and> set lv = {s. Some s \<in> set cs}
           \<and> map dummies_1d enc ! i
               = map (\<lambda>l. (c @ ''_'' @ l, IntCol (map (\<lambda>v. if v = Some l then 1 else 0) cs)))
                   (tl lv)"
proof (intro allI impI)
  fix i assume i: "i < length enc"
  obtain c col where p: "enc ! i = (c, col)" by (cases "enc ! i")
  have "is_object col" using assms i p by (metis nth_mem snd_conv)
  then obtain cs where col: "col = ObjCol cs" by (auto simp: is_object_iff)
  have "map dummies_1d enc ! i
         = map (\<lambda>l. (c @ ''_'' @ l, IntCol (map (\<lambda>v. if v = Some l then 1 else 0) cs)))
             (tl (levels cs))"
    using i p col by (simp add: dummy_name_def indicator_def)
  then show "\<exists>c cs lv. enc ! i = (c, ObjCol cs)
           \<and> sorted lv \<and> distinct lv \<and> set lv = {s. Some s \<in> set cs}
           \<and> map dummies_1d enc ! i
               = map (\<lambda>l. (c @ ''_'' @ l, IntCol (map (\<lambda>v. if v = Some l then 1 else 0) cs)))
                   (tl lv)"
    using p col levels_spec[of cs] by blast
qed

lemma float_target_load:
  "load_GEN_data more_fs (\<lambda>s. None) ''data/float_target.csv'' =
     Inr ([(''x1'', IntCol [5, 6, 7, 8]), (''colour_red'', IntCol [1, 0, 0, 1])],
          [0, 1, - 1, - 9223372036854775808],
          [(''protected'', IntCol [1, 0, 1, 0])])"
  by (simp add: load_GEN_data_def more_fs_def float_target_csv_def sensitive_attribs_def
        getitem_def assign_def bools_astype_int_def drop_columns_def or_value_error_def
        in_int64_def get_dummies_drop_first_def levels_def dummy_name_def indicator_def Let_def)

lemma string_target_load:
  "load_GEN_data more_fs int_of_bit ''data/string_target.csv'' =
     Inr ([(''x1'', IntCol [3, 4])], [1, 0], [(''protected'', IntCol [0, 1])])"
  by (simp add: load_GEN_data_def more_fs_def string_target_csv_def sensitive_attribs_def
        getitem_def assign_def bools_astype_int_def drop_columns_def int_of_bit_def
        in_int64_def get_dummies_drop_first_def Let_def)

text \<open>
  Claim C5. Let the file parse to the frame \<open>df\<close>. Whenever \<open>load_GEN_data\<close> returns
  \<open>(X, y, Z)\<close>: no column of \<open>X\<close> is labelled \<^verbatim>\<open>target\<close> or \<^verbatim>\<open>protected\<close>.
  \<open>X\<close> is built from exactly the remaining columns: first those that are not string
  columns, unchanged and in the order of the file (\<open>kept\<close>); then, for every remaining
  string column in the order of the file (\<open>encoded\<close>), the indicator columns
  \<^verbatim>\<open>c_l\<close> of its levels \<open>l\<close> but the first, where the levels \<open>lv\<close> of a column are
  its values without the missing one, each once, in sorted order, and the indicator is
  1 on the rows with that value. And \<open>y\<close> is the \<^verbatim>\<open>target\<close> column cast to 64-bit
  integers: an integer column as it is; a boolean column as 0 and 1; a float column
  with every entry finite and cut to its integer part (\<open>-2\<^sup>6\<^sup>3\<close> when that part is
  beyond the 64-bit integers); a string column with every entry present and read by
  Python's \<^verbatim>\<open>int\<close> as an integer within the 64-bit range.
\<close>

theorem load_GEN_data_features_and_target:
  fixes read_csv py_int path df X y Z
  assumes "read_csv path = Inr df"
    and "load_GEN_data read_csv py_int path = Inr (X, y, Z)"
  defines "kept \<equiv> filter (\<lambda>(l, c). l \<noteq> ''target'' \<and> l \<noteq> ''protected''
                                  \<and> (\<forall>cs. c \<noteq> ObjCol cs)) df"
  defines "encoded \<equiv> filter (\<lambda>(l, c). l \<noteq> ''target'' \<and> l \<noteq> ''protected''
                                     \<and> (\<exists>cs. c = ObjCol cs)) df"
  shows "''target'' \<notin> set (map fst X) \<and> ''protected'' \<notin> set (map fst X)
       \<and> set X = feature_columns df
       \<and> (\<exists>enc. X = kept @ concat enc \<and> length enc = length encoded
            \<and> (\<forall>i < length encoded. \<exists>c cs lv. encoded ! i = (c, ObjCol cs)
                 \<and> sorted lv \<and> distinct lv \<and> set lv = {s. Some s \<in> set cs}
                 \<and> enc ! i = map (\<lambda>l. (c @ ''_'' @ l,
                                        IntCol (map (\<lambda>v. if v = Some l then 1 else 0) cs)))
                               (tl lv)))
       \<and> (\<exists>tcol. map_of df ''target'' = Some tcol \<and> astype_int py_int tcol = Inr y
            \<and> (case tcol of
                 IntCol xs \<Rightarrow> y = xs
               | BoolCol bs \<Rightarrow> y = map (\<lambda>b. if b then 1 else 0) bs
               | FloatCol fs \<Rightarrow>
                   length y = length fs
                   \<and> (\<forall>i < length fs. \<exists>x n. fs ! i = Fin x \<and> truncates x n
                        \<and> y ! i = (if - (2 ^ 63) \<le> n \<and> n < 2 ^ 63 then n else - (2 ^ 63)))
               | ObjCol cs \<Rightarrow>
                   length y = length cs
                   \<and> (\<forall>i < length cs. \<exists>s. cs ! i = Some s \<and> py_int s = Some (y ! i)
                        \<and> - (2 ^ 63) \<le> y ! i \<and> y ! i < 2 ^ 63)))"
proof -
  from load_returns_cases[where read_csv=read_csv and path=path and df=df and py_int=py_int
        and X=X and y=y and Z=Z] assms(1,2)
  obtain cs tcol where
    c: "map_of df ''protected'' = Some (ObjCol cs)" "map_of df ''target'' = Some tcol"
    by blast
  let ?feats = "filter (\<lambda>(l, c). l \<noteq> ''target'' \<and> l \<noteq> ''protected'') df"
  have
    y: "astype_int py_int tcol = Inr y" and
    X: "get_dummies_drop_first ?feats = Inr X"
    using assms(1,2) c load_unfold[where read_csv=read_csv and path=path and df=df
        and py_int=py_int and cs=cs and tcol=tcol]
    by (auto split: sum.splits)
  have s: "set X = feature_columns df" by (rule features_of_filter[OF X])
  have "\<forall>(l, c) \<in> set X. l \<noteq> ''target'' \<and> l \<noteq> ''protected''"
    unfolding s using feature_names by blast
  then have names: "''target'' \<notin> set (map fst X)" "''protected'' \<notin> set (map fst X)"
    by auto
  have k: "filter (\<lambda>(l, c). \<not> is_object c) ?feats = kept"
    unfolding kept_def filter_filter
    by (rule filter_cong) (auto simp: is_object_iff)
  have e: "filter (\<lambda>(l, c). is_object c) ?feats = encoded"
    unfolding encoded_def filter_filter
    by (rule filter_cong) (auto simp: is_object_iff)
  have obj: "\<forall>p \<in> set encoded. is_object (snd p)"
    unfolding encoded_def by (auto simp: is_object_iff)
  have list: "X = kept @ concat (map dummies_1d encoded)"
    using get_dummies_list[OF X] unfolding k e .
  have blocks: "\<exists>enc. X = kept @ concat enc \<and> length enc = length encoded
            \<and> (\<forall>i < length encoded. \<exists>c cs lv. encoded ! i = (c, ObjCol cs)
                 \<and> sorted lv \<and> distinct lv \<and> set lv = {s. Some s \<in> set cs}
                 \<and> enc ! i = map (\<lambda>l. (c @ ''_'' @ l,
                                        IntCol (map (\<lambda>v. if v = Some l then 1 else 0) cs)))
                               (tl lv))"
    using list encoded_blocks[OF obj]
    by (intro exI[of _ "map dummies_1d encoded"]) simp
  have kinds: "case tcol of
                 IntCol xs \<Rightarrow> y = xs
               | BoolCol bs \<Rightarrow> y = map (\<lambda>b. if b then 1 else 0) bs
               | FloatCol fs \<Rightarrow>
                   length y = length fs
                   \<and> (\<forall>i < length fs. \<exists>x n. fs ! i = Fin x \<and> truncates x n
                        \<and> y ! i = (if - (2 ^ 63) \<le> n \<and> n < 2 ^ 63 then n else - (2 ^ 63)))
               | ObjCol cs \<Rightarrow>
                   length y = length cs
                   \<and> (\<forall>i < length cs. \<exists>s. cs ! i = Some s \<and> py_int s = Some (y ! i)
                        \<and> - (2 ^ 63) \<le> y ! i \<and> y ! i < 2 ^ 63)"
    by (rule astype_int_kinds[OF y])
  show ?thesis using names s blocks c(2) y kinds by blast
qed

text \<open>The theorem at a file with a float \<^verbatim>\<open>target\<close> column (0.9, 1, -1.5 and
  \<open>10\<^sup>1\<^sup>9\<close> become 0, 1, -1 and \<open>-2\<^sup>6\<^sup>3\<close>) and a categorical feature with a
  missing value (levels green and red, green dropped), and at a file with a string
  \<^verbatim>\<open>target\<close> column.\<close>

theorem load_GEN_data_features_and_target_witness:
  "more_fs ''data/float_target.csv'' = Inr float_target_csv
   \<and> load_GEN_data more_fs (\<lambda>s. None) ''data/float_target.csv'' =
       Inr ([(''x1'', IntCol [5, 6, 7, 8]), (''colour_red'', IntCol [1, 0, 0, 1])],
            [0, 1, - 1, - 9223372036854775808],
            [(''protected'', IntCol [1, 0, 1, 0])])
   \<and> ''target'' \<notin> set (map fst [(''x1'', IntCol [5, 6, 7, 8]), (''colour_red'', IntCol [1, 0, 0, 1])])
   \<and> ''protected'' \<notin> set (map fst [(''x1'', IntCol [5, 6, 7, 8]), (''colour_red'', IntCol [1, 0, 0, 1])])
   \<and> (3 :: nat) < length [Fin (9/10), Fin 1, Fin (- 3/2), Fin 10000000000000000000]
   \<and> (\<exists>x n. [Fin (9/10), Fin 1, Fin (- 3/2), Fin 10000000000000000000] ! 3 = Fin x
         \<and> truncates x n
         \<and> [0, 1, - 1, - 9223372036854775808] ! 3
             = (if - (2 ^ 63) \<le> n \<and> n < 2 ^ 63 then n else - (2 ^ 63)))
   \<and> truncates (9/10) 0 \<and> truncates (- 3/2) (- 1)
   \<and> truncates 10000000000000000000 10000000000000000000
   \<and> (0 :: nat) < length [(''colour'', ObjCol [Some ''red'', None, Some ''green'', Some ''red''])]
   \<and> (\<exists>enc lv. [(''x1'', IntCol [5, 6, 7, 8]), (''colour_red'', IntCol [1, 0, 0, 1])]
                   = [(''x1'', IntCol [5, 6, 7, 8])] @ concat enc
         \<and> length enc = 1 \<and> sorted lv \<and> distinct lv \<and> set lv = {''green'', ''red''}
         \<and> enc ! 0 = map (\<lambda>l. (''colour'' @ ''_'' @ l,
                                 IntCol (map (\<lambda>v. if v = Some l then 1 else 0)
                                           [Some ''red'', None, Some ''green'', Some ''red''])))
                        (tl lv))
   \<and> more_fs ''data/string_target.csv'' = Inr string_target_csv
   \<and> load_GEN_data more_fs int_of_bit ''data/string_target.csv'' =
       Inr ([(''x1'', IntCol [3, 4])], [1, 0], [(''protected'', IntCol [0, 1])])
   \<and> (1 :: nat) < length [Some ''1'', Some ''0'']
   \<and> (\<exists>s. [Some ''1'', Some ''0''] ! 1 = Some s \<and> int_of_bit s = Some ([1, 0 :: int] ! 1))"
proof -
  let ?fs = "[Fin (9/10), Fin 1, Fin (- 3/2), Fin 10000000000000000000]"
  let ?cs = "[Some ''red'', None, Some ''green'', Some ''red'']"
  let ?X = "[(''x1'', IntCol [5, 6, 7, 8]), (''colour_red'', IntCol [1, 0, 0, 1])]"
  let ?y = "[0, 1, - 1, - 9223372036854775808 :: int]"
  have f: "more_fs ''data/float_target.csv'' = Inr float_target_csv"
    by (simp add: more_fs_def)
  note inst = load_GEN_data_features_and_target[where read_csv=more_fs
        and path="''data/float_target.csv''" and df=float_target_csv and py_int="\<lambda>s. None",
        OF f float_target_load]
  have n1: "''target'' \<notin> set (map fst ?X)" and n2: "''protected'' \<notin> set (map fst ?X)"
    using inst by blast+
  have t: "map_of float_target_csv ''target'' = Some (FloatCol ?fs)"
    by (simp add: float_target_csv_def)
  have k: "filter (\<lambda>(l, c). l \<noteq> ''target'' \<and> l \<noteq> ''protected'' \<and> (\<forall>cs. c \<noteq> ObjCol cs))
             float_target_csv = [(''x1'', IntCol [5, 6, 7, 8])]"
    and e: "filter (\<lambda>(l, c). l \<noteq> ''target'' \<and> l \<noteq> ''protected'' \<and> (\<exists>cs. c = ObjCol cs))
             float_target_csv = [(''colour'', ObjCol ?cs)]"
    by (simp_all add: float_target_csv_def)
  from inst obtain tcol where tc: "map_of float_target_csv ''target'' = Some tcol"
    and kinds: "case tcol of
                 IntCol xs \<Rightarrow> ?y = xs
               | BoolCol bs \<Rightarrow> ?y = map (\<lambda>b. if b then 1 else 0) bs
               | FloatCol fs \<Rightarrow>
                   length ?y = length fs
                   \<and> (\<forall>i < length fs. \<exists>x n. fs ! i = Fin x \<and> truncates x n
                        \<and> ?y ! i = (if - (2 ^ 63) \<le> n \<and> n < 2 ^ 63 then n else - (2 ^ 63)))
               | ObjCol cs \<Rightarrow>
                   length ?y = length cs
                   \<and> (\<forall>i < length cs. \<exists>s. cs ! i = Some s \<and> (\<lambda>s. None) s = Some (?y ! i)
                        \<and> - (2 ^ 63) \<le> ?y ! i \<and> ?y ! i < 2 ^ 63)"
    by blast
  have tcol: "tcol = FloatCol ?fs" using tc t by simp
  have all: "\<forall>i < length ?fs. \<exists>x n. ?fs ! i = Fin x \<and> truncates x n
                \<and> ?y ! i = (if - (2 ^ 63) \<le> n \<and> n < 2 ^ 63 then n else - (2 ^ 63))"
    using kinds unfolding tcol column.case by (rule conjunct2)
  have l3: "(3 :: nat) < length ?fs" by simp
  have c3: "\<exists>x n. ?fs ! 3 = Fin x \<and> truncates x n
         \<and> ?y ! 3 = (if - (2 ^ 63) \<le> n \<and> n < 2 ^ 63 then n else - (2 ^ 63))"
    using all l3 by blast
  have tr: "truncates (9/10) 0" "truncates (- 3/2) (- 1)"
    "truncates 10000000000000000000 10000000000000000000"
    by (simp_all add: truncates_def)
  have l0: "(0 :: nat) < length [(''colour'', ObjCol ?cs)]" by simp
  from inst obtain enc where X: "?X = [(''x1'', IntCol [5, 6, 7, 8])] @ concat enc"
    and len: "length enc = length [(''colour'', ObjCol ?cs)]"
    and blocks: "\<forall>i < length [(''colour'', ObjCol ?cs)]. \<exists>c cs lv.
                 [(''colour'', ObjCol ?cs)] ! i = (c, ObjCol cs)
                 \<and> sorted lv \<and> distinct lv \<and> set lv = {s. Some s \<in> set cs}
                 \<and> enc ! i = map (\<lambda>l. (c @ ''_'' @ l,
                                        IntCol (map (\<lambda>v. if v = Some l then 1 else 0) cs)))
                               (tl lv)"
    unfolding k e by blast
  from blocks l0 obtain c cs lv where b0: "[(''colour'', ObjCol ?cs)] ! 0 = (c, ObjCol cs)"
    and lv: "sorted lv" "distinct lv" "set lv = {s. Some s \<in> set cs}"
    and e0: "enc ! 0 = map (\<lambda>l. (c @ ''_'' @ l,
                                  IntCol (map (\<lambda>v. if v = Some l then 1 else 0) cs))) (tl lv)"
    by blast
  have cc: "c = ''colour''" "cs = ?cs" using b0 by simp_all
  have sl: "set lv = {''green'', ''red''}" unfolding lv(3) cc by auto
  have enc: "\<exists>enc lv. ?X = [(''x1'', IntCol [5, 6, 7, 8])] @ concat enc
         \<and> length enc = 1 \<and> sorted lv \<and> distinct lv \<and> set lv = {''green'', ''red''}
         \<and> enc ! 0 = map (\<lambda>l. (''colour'' @ ''_'' @ l,
                                 IntCol (map (\<lambda>v. if v = Some l then 1 else 0) ?cs))) (tl lv)"
    using X len lv(1,2) sl e0 unfolding cc by (intro exI[of _ enc] exI[of _ lv]) simp
  have g: "more_fs ''data/string_target.csv'' = Inr string_target_csv"
    by (simp add: more_fs_def)
  note inst2 = load_GEN_data_features_and_target[where read_csv=more_fs
        and path="''data/string_target.csv''" and df=string_target_csv and py_int=int_of_bit,
        OF g string_target_load]
  have t2: "map_of string_target_csv ''target'' = Some (ObjCol [Some ''1'', Some ''0''])"
    by (simp add: string_target_csv_def)
  let ?y2 = "[1, 0 :: int]"
  from inst2 obtain tcol2 where tc2: "map_of string_target_csv ''target'' = Some tcol2"
    and kinds2: "case tcol2 of
                 IntCol xs \<Rightarrow> ?y2 = xs
               | BoolCol bs \<Rightarrow> ?y2 = map (\<lambda>b. if b then 1 else 0) bs
               | FloatCol fs \<Rightarrow>
                   length ?y2 = length fs
                   \<and> (\<forall>i < length fs. \<exists>x n. fs ! i = Fin x \<and> truncates x n
                        \<and> ?y2 ! i = (if - (2 ^ 63) \<le> n \<and> n < 2 ^ 63 then n else - (2 ^ 63)))
               | ObjCol cs \<Rightarrow>
                   length ?y2 = length cs
                   \<and> (\<forall>i < length cs. \<exists>s. cs ! i = Some s \<and> int_of_bit s = Some (?y2 ! i)
                        \<and> - (2 ^ 63) \<le> ?y2 ! i \<and> ?y2 ! i < 2 ^ 63)"
    by blast
  have tcol2: "tcol2 = ObjCol [Some ''1'', Some ''0'']" using tc2 t2 by simp
  have all2: "\<forall>i < length [Some ''1'', Some ''0'']. \<exists>s. [Some ''1'', Some ''0''] ! i = Some s
                 \<and> int_of_bit s = Some (?y2 ! i)
                 \<and> - (2 ^ 63) \<le> ?y2 ! i \<and> ?y2 ! i < 2 ^ 63"
    using kinds2 unfolding tcol2 column.case by (rule conjunct2)
  have l1: "(1 :: nat) < length [Some ''1'', Some ''0'']" by simp
  have s1: "\<exists>s. [Some ''1'', Some ''0''] ! 1 = Some s \<and> int_of_bit s = Some (?y2 ! 1)"
    using all2 l1 by blast
  show ?thesis
    by (intro conjI) (rule f, rule float_target_load, rule n1, rule n2, rule l3, rule c3,
        rule tr(1), rule tr(2), rule tr(3), rule l0, rule enc, rule g,
        rule string_target_load, rule l1, rule s1)
qed

section \<open>Properties of the training functions\<close>

lemma train_batch_frame:
  "train_batch F autograd clf adv adv_criterion adv_optimizer s b = (s', l) \<Longrightarrow>
   clf_params s' = clf_params s \<and> clf_opt s' = clf_opt s \<and> clf_steps s' = clf_steps s
   \<and> adv_steps s' = adv_steps s + 1"
  by (auto simp: train_batch_def Let_def split: prod.splits)

lemma train_loop_frame:
  "train_loop F autograd clf adv adv_criterion adv_optimizer s locals data_loader = (s', l) \<Longrightarrow>
   clf_params s' = clf_params s \<and> clf_opt s' = clf_opt s \<and> clf_steps s' = clf_steps s
   \<and> adv_steps s' = adv_steps s + length data_loader"
proof (induction data_loader arbitrary: s locals)
  case Nil
  then show ?case by simp
next
  case (Cons b bs)
  obtain s1 l1 where b: "train_batch F autograd clf adv adv_criterion adv_optimizer s b = (s1, l1)"
    by (cases "train_batch F autograd clf adv adv_criterion adv_optimizer s b")
  with Cons.prems have
    "train_loop F autograd clf adv adv_criterion adv_optimizer s1 (Some l1) bs = (s', l)"
    by simp
  from Cons.IH[OF this] train_batch_frame[OF b] show ?case by simp
qed

lemma train_loop_snoc:
  "train_loop F autograd clf adv adv_criterion adv_optimizer s locals (bs @ [b]) =
     (case train_batch F autograd clf adv adv_criterion adv_optimizer
             (fst (train_loop F autograd clf adv adv_criterion adv_optimizer s locals bs)) b of
        (s', l) \<Rightarrow> (s', Some l))"
  by (induction bs arbitrary: s locals) (auto split: prod.splits)

lemma train_batch_locals:
  "snd (train_batch F autograd clf adv adv_criterion adv_optimizer s (x, y, z)) =
     (p_y_graph clf (rng s) x, y, z)"
  by (simp add: train_batch_def Let_def split: prod.splits)

lemma train_batch_adv:
  "train_batch F autograd clf adv adv_criterion adv_optimizer s (x, y, z) = (s', l) \<Longrightarrow>
   (adv_opt s', adv_params s')
     = adv_step F autograd adv adv_optimizer adv_criterion (adv_opt s, adv_params s)
         (fst (clf (clf_params s) (rng s) x), z)
   \<and> adv_grad s' = accumulate F (zero_grad (adv_params s))
         (autograd (\<lambda>\<theta>. adv_criterion (adv \<theta> (fst (clf (clf_params s) (rng s) x))) z)
            (adv_params s))
   \<and> rng s' = snd (clf (clf_params s) (rng s) x)"
  by (auto simp: train_batch_def adv_step_def p_y_graph_def Let_def split: prod.splits)

lemma pretrain_adverserial_batch_adv:
  "pretrain_adverserial_batch F autograd adv clf optimizer criterion s (x, y, z) = s' \<Longrightarrow>
   (adv_opt s', adv_params s')
     = adv_step F autograd adv optimizer criterion (adv_opt s, adv_params s)
         (fst (clf (clf_params s) (rng s) x), z)
   \<and> adv_grad s' = accumulate F (zero_grad (adv_params s))
         (autograd (\<lambda>\<theta>. criterion (adv \<theta> (fst (clf (clf_params s) (rng s) x))) z)
            (adv_params s))
   \<and> rng s' = snd (clf (clf_params s) (rng s) x)
   \<and> clf_params s' = clf_params s \<and> clf_opt s' = clf_opt s \<and> clf_grad s' = clf_grad s
   \<and> clf_steps s' = clf_steps s \<and> adv_steps s' = adv_steps s + 1"
  by (auto simp: pretrain_adverserial_batch_def adv_step_def Let_def split: prod.splits)

lemma train_loop_adv_run:
  "train_loop F autograd clf adv adv_criterion adv_optimizer s locals data_loader = (s', l) \<Longrightarrow>
   (adv_opt s', adv_params s')
     = adv_run F autograd adv adv_optimizer adv_criterion (adv_opt s, adv_params s)
         (clf_outputs clf (clf_params s) (rng s) data_loader)"
proof (induction data_loader arbitrary: s locals)
  case Nil
  then show ?case by (simp add: adv_run_def)
next
  case (Cons b bs)
  obtain x y z where bxyz: "b = (x, y, z)" by (cases b)
  obtain s1 l1 where b: "train_batch F autograd clf adv adv_criterion adv_optimizer s (x, y, z) = (s1, l1)"
    by (cases "train_batch F autograd clf adv adv_criterion adv_optimizer s (x, y, z)")
  with Cons.prems bxyz have
    "train_loop F autograd clf adv adv_criterion adv_optimizer s1 (Some l1) bs = (s', l)"
    by simp
  from Cons.IH[OF this] train_batch_adv[OF b] train_batch_frame[OF b]
  show ?case by (simp add: adv_run_def bxyz)
qed

lemma pretrain_adverserial_adv_run:
  "pretrain_adverserial F autograd adv clf data_loader optimizer criterion s = s' \<Longrightarrow>
   (adv_opt s', adv_params s')
     = adv_run F autograd adv optimizer criterion (adv_opt s, adv_params s)
         (clf_outputs clf (clf_params s) (rng s) data_loader)
   \<and> clf_params s' = clf_params s \<and> clf_opt s' = clf_opt s \<and> clf_grad s' = clf_grad s
   \<and> clf_steps s' = clf_steps s \<and> adv_steps s' = adv_steps s + length data_loader"
proof (induction data_loader arbitrary: s)
  case Nil
  then show ?case by (simp add: adv_run_def)
next
  case (Cons b bs)
  obtain x y z where bxyz: "b = (x, y, z)" by (cases b)
  define s1 where "s1 = pretrain_adverserial_batch F autograd adv clf optimizer criterion s (x, y, z)"
  from Cons.prems bxyz have
    "pretrain_adverserial F autograd adv clf bs optimizer criterion s1 = s'"
    by (simp add: s1_def)
  from Cons.IH[OF this] pretrain_adverserial_batch_adv[OF s1_def[symmetric]]
  show ?case by (simp add: adv_run_def bxyz)
qed

lemma train_nonempty:
  fixes F autograd clf adv data_loader clf_criterion adv_criterion clf_adv_criterion
    clf_optimizer adv_optimizer s
  assumes ne: "data_loader \<noteq> []"
  defines "s_pre \<equiv> fst (train_loop F autograd clf adv adv_criterion adv_optimizer s None
                           (butlast data_loader))"
  defines "s_post \<equiv> fst (train_batch F autograd clf adv adv_criterion adv_optimizer s_pre
                            (last data_loader))"
  defines "g \<equiv> clf_update_grad F autograd clf adv clf_criterion clf_adv_criterion
                  (clf_params s) (adv_params s_post) (rng s_pre) (last data_loader)"
  shows "\<exists>s'. train F autograd clf adv data_loader clf_criterion adv_criterion clf_adv_criterion
                 clf_optimizer adv_optimizer s = Inr s'
     \<and> clf_steps s' = clf_steps s + 1 \<and> adv_steps s' = adv_steps s + length data_loader
     \<and> (clf_opt s', clf_params s') = clf_optimizer (clf_opt s) (clf_params s) g
     \<and> clf_grad s' = g
     \<and> adv_params s' = adv_params s_post \<and> adv_opt s' = adv_opt s_post"
proof -
  obtain x y z where b: "last data_loader = (x, y, z)" by (cases "last data_loader")
  obtain l0 where pre: "train_loop F autograd clf adv adv_criterion adv_optimizer s None
                           (butlast data_loader) = (s_pre, l0)"
    unfolding s_pre_def by (metis prod.collapse)
  obtain l1 where post: "train_batch F autograd clf adv adv_criterion adv_optimizer s_pre
                            (last data_loader) = (s_post, l1)"
    unfolding s_post_def by (metis prod.collapse)
  have l1: "l1 = (p_y_graph clf (rng s_pre) x, y, z)"
    using train_batch_locals[of F autograd clf adv adv_criterion adv_optimizer s_pre x y z] post b
    by simp
  have dl: "data_loader = butlast data_loader @ [last data_loader]"
    using ne by simp
  have loop: "train_loop F autograd clf adv adv_criterion adv_optimizer s None data_loader
                = (s_post, Some l1)"
    by (subst dl, simp only: train_loop_snoc pre fst_conv post prod.case)
  have f1: "clf_params s_pre = clf_params s" "clf_opt s_pre = clf_opt s"
    "clf_steps s_pre = clf_steps s" "adv_steps s_pre = adv_steps s + length (butlast data_loader)"
    using train_loop_frame[OF pre] by simp_all
  have f2: "clf_params s_post = clf_params s" "clf_opt s_post = clf_opt s"
    "clf_steps s_post = clf_steps s" "adv_steps s_post = adv_steps s + length data_loader"
    using train_batch_frame[OF post] f1 ne by simp_all
  have gdef: "g = accumulate F (zero_grad (clf_params s))
        (autograd (\<lambda>\<theta>. clf_loss F clf_criterion clf_adv_criterion
                     (p_y_graph clf (rng s_pre) x \<theta>) y
                     (adv (adv_params s_post) (p_y_graph clf (rng s_pre) x \<theta>)) z) (clf_params s))"
    unfolding g_def clf_update_grad_def b by simp
  obtain co cp where st: "clf_optimizer (clf_opt s) (clf_params s) g = (co, cp)"
    by (cases "clf_optimizer (clf_opt s) (clf_params s) g")
  show ?thesis
    unfolding train_def loop
    using f2 st gdef
    by (simp add: l1 Let_def)
qed

lemma train_empty:
  "train F autograd clf adv [] clf_criterion adv_criterion clf_adv_criterion
     clf_optimizer adv_optimizer s
   = Inl (UnboundLocalError ''p_y'', s\<lparr>clf_grad := zero_grad (clf_params s)\<rparr>)"
  by (simp add: train_def)

lemma train_loop_prefix_frame:
  "clf_params (fst (train_loop F autograd clf adv adv_criterion adv_optimizer s None
                      (take k data_loader))) = clf_params s
   \<and> clf_opt (fst (train_loop F autograd clf adv adv_criterion adv_optimizer s None
                      (take k data_loader))) = clf_opt s
   \<and> clf_steps (fst (train_loop F autograd clf adv adv_criterion adv_optimizer s None
                      (take k data_loader))) = clf_steps s
   \<and> adv_steps (fst (train_loop F autograd clf adv adv_criterion adv_optimizer s None
                      (take k data_loader))) = adv_steps s + min (length data_loader) k"
  using train_loop_frame[of F autograd clf adv adv_criterion adv_optimizer s None
          "take k data_loader"]
  by (metis length_take prod.collapse)

lemma train_loop_prefix_step:
  fixes F autograd clf adv adv_criterion adv_optimizer s data_loader
  assumes k: "k < length data_loader" and b: "data_loader ! k = (x, y, z)"
  defines "after j \<equiv> fst (train_loop F autograd clf adv adv_criterion adv_optimizer s None
                             (take j data_loader))"
  shows "(adv_opt (after (Suc k)), adv_params (after (Suc k)))
           = adv_optimizer (adv_opt (after k)) (adv_params (after k)) (adv_grad (after (Suc k)))
       \<and> adv_grad (after (Suc k))
           = accumulate F (zero_grad (adv_params (after k)))
               (autograd (\<lambda>\<theta>. adv_criterion
                                (adv \<theta> (fst (clf (clf_params s) (rng (after k)) x))) z)
                  (adv_params (after k)))"
proof -
  have t: "take (Suc k) data_loader = take k data_loader @ [(x, y, z)]"
    using k b by (simp add: take_Suc_conv_app_nth)
  obtain s1 l1 where st: "train_batch F autograd clf adv adv_criterion adv_optimizer (after k)
                 (x, y, z) = (s1, l1)"
    by (cases "train_batch F autograd clf adv adv_criterion adv_optimizer (after k) (x, y, z)")
  have nxt: "after (Suc k) = s1"
    unfolding after_def t train_loop_snoc
    using st by (simp add: after_def)
  have cp: "clf_params (after k) = clf_params s"
    unfolding after_def using train_loop_prefix_frame by blast
  from train_batch_adv[OF st] show ?thesis
    unfolding nxt by (simp add: adv_step_def cp)
qed

subsection \<open>Evaluation on the small instance\<close>

lemma clamp_log_exact_01 [simp]:
  "clamp_log (\<lambda>x. x) 0 = - 100" "clamp_log (\<lambda>x. x) 1 = 0"
  by (simp_all add: clamp_log_def)

lemma bce_exact_01:
  "bce exact_ops 1 1 = 0" "bce exact_ops 0 1 = 100"
  "bce exact_ops 1 0 = 100" "bce exact_ops 0 0 = 0"
  by (simp_all add: bce_def)

lemmas toy_defs = toy_clf_def toy_adv_def toy_autograd_def toy_sgd_def toy_state_def
  toy_loader_def BCELoss_def BCELoss_each_def tensor_sum_def numel_def times_lambdas_def
  lambdas_def zero_grad_def accumulate_def p_y_graph_def clf_loss_def bce_exact_01

lemma upt2: "[0..<2] = [0, 1]" "[0..<1] = [0]"
  by (simp_all add: upt_rec)

lemma toy_train_two:
  "train exact_ops toy_autograd toy_clf toy_adv toy_loader
     (BCELoss exact_ops) (BCELoss exact_ops) (BCELoss_each exact_ops) toy_sgd toy_sgd toy_state =
   Inr \<lparr>clf_params = [1, - (39 / 20)], clf_grad = [0, 1950], clf_opt = 1, clf_steps = 1,
        adv_params = [- (2 / 5)], adv_grad = [1950], adv_opt = 2, adv_steps = 2, rng = 2\<rparr>"
  by (simp add: train_def train_batch_def toy_defs upt2 Let_def)

lemma toy_loop_one:
  "fst (train_loop exact_ops toy_autograd toy_clf toy_adv (BCELoss exact_ops) toy_sgd toy_state
          None (take 1 toy_loader)) =
   \<lparr>clf_params = [1, 0], clf_grad = [0, - 50], clf_opt = 0, clf_steps = 0,
     adv_params = [- (9 / 20)], adv_grad = [- 50], adv_opt = 1, adv_steps = 1, rng = 1\<rparr>"
  by (simp add: train_batch_def toy_defs upt2 Let_def)

lemma toy_loop_two:
  "fst (train_loop exact_ops toy_autograd toy_clf toy_adv (BCELoss exact_ops) toy_sgd toy_state
          None (take 2 toy_loader)) =
   \<lparr>clf_params = [1, 0], clf_grad = [0, - 100], clf_opt = 0, clf_steps = 0,
     adv_params = [- (2 / 5)], adv_grad = [- 50], adv_opt = 2, adv_steps = 2, rng = 2\<rparr>"
  by (simp add: train_batch_def toy_defs upt2 Let_def)

lemma toy_pretrain:
  "pretrain_adverserial exact_ops toy_autograd toy_adv toy_clf toy_loader toy_sgd
     (BCELoss exact_ops) toy_state =
   \<lparr>clf_params = [1, 0], clf_grad = [0, 0], clf_opt = 0, clf_steps = 0,
     adv_params = [- (2 / 5)], adv_grad = [- 50], adv_opt = 2, adv_steps = 2, rng = 2\<rparr>"
  by (simp add: pretrain_adverserial_batch_def toy_defs upt2 Let_def)

lemma toy_clf_outputs:
  "clf_outputs toy_clf (clf_params toy_state) (rng toy_state) toy_loader
     = [([[1], [0]], [[1], [1]]), ([[0], [1]], [[1], [1]])]"
  by (simp add: toy_defs)

subsection \<open>Which parameters a call of \<open>train\<close> updates\<close>

text \<open>
  Claim C9 (amended). \<open>after k\<close> is the state when the loop of \<open>train\<close> has run on the
  first \<open>k\<close> batches. For every such \<open>k\<close> the classifier's parameters and the state
  of its optimizer are those at the call, and the adversary's optimizer has stepped
  \<open>k\<close> times: on batch \<open>k + 1\<close> the adversary's parameters and optimizer state
  become the result of \<^verbatim>\<open>adv_optimizer.step()\<close> on those after \<open>k\<close> batches and the
  gradient of the adversary's criterion of \<open>adv(clf(x))\<close> against \<open>z\<close> on that batch.
  When the loader yields at least one batch, \<open>train\<close> returns; the classifier's
  optimizer has then stepped once, on the gradient \<open>g\<close> of the classifier loss of the
  last batch (its inputs under the dropout draw of its forward pass, its labels and its
  protected attributes, with the adversary's parameters after the loop), and the
  adversary is as the loop left it. When the loader yields no batch, \<open>train\<close> raises
  \<^verbatim>\<open>UnboundLocalError\<close> for \<^verbatim>\<open>p_y\<close>, and the state is the one at the call but for the
  classifier's zeroed gradient buffer: no parameter is updated.
\<close>

theorem train_steps:
  fixes F autograd clf adv data_loader clf_criterion adv_criterion clf_adv_criterion
    clf_optimizer adv_optimizer s
  defines "after k \<equiv> fst (train_loop F autograd clf adv adv_criterion adv_optimizer s None
                             (take k data_loader))"
  defines "g \<equiv> clf_update_grad F autograd clf adv clf_criterion clf_adv_criterion
                  (clf_params s) (adv_params (after (length data_loader)))
                  (rng (after (length data_loader - 1))) (last data_loader)"
  shows "(\<forall>k. k \<le> length data_loader \<longrightarrow>
            clf_params (after k) = clf_params s \<and> clf_opt (after k) = clf_opt s
            \<and> clf_steps (after k) = clf_steps s \<and> adv_steps (after k) = adv_steps s + k)
       \<and> (\<forall>k x y z. k < length data_loader \<and> data_loader ! k = (x, y, z) \<longrightarrow>
            (adv_opt (after (Suc k)), adv_params (after (Suc k)))
              = adv_optimizer (adv_opt (after k)) (adv_params (after k)) (adv_grad (after (Suc k)))
            \<and> adv_grad (after (Suc k))
              = accumulate F (zero_grad (adv_params (after k)))
                  (autograd (\<lambda>\<theta>. adv_criterion
                                   (adv \<theta> (fst (clf (clf_params s) (rng (after k)) x))) z)
                     (adv_params (after k))))
       \<and> (data_loader \<noteq> [] \<longrightarrow>
            (\<exists>s'. train F autograd clf adv data_loader clf_criterion adv_criterion
                     clf_adv_criterion clf_optimizer adv_optimizer s = Inr s'
               \<and> clf_steps s' = clf_steps s + 1
               \<and> adv_steps s' = adv_steps s + length data_loader
               \<and> (clf_opt s', clf_params s') = clf_optimizer (clf_opt s) (clf_params s) g
               \<and> adv_params s' = adv_params (after (length data_loader))
               \<and> adv_opt s' = adv_opt (after (length data_loader))))
       \<and> (data_loader = [] \<longrightarrow>
            train F autograd clf adv data_loader clf_criterion adv_criterion
              clf_adv_criterion clf_optimizer adv_optimizer s
            = Inl (UnboundLocalError ''p_y'', s\<lparr>clf_grad := zero_grad (clf_params s)\<rparr>))"
proof -
  have frame: "clf_params (after k) = clf_params s \<and> clf_opt (after k) = clf_opt s
            \<and> clf_steps (after k) = clf_steps s \<and> adv_steps (after k) = adv_steps s + k"
    if "k \<le> length data_loader" for k
    unfolding after_def
    using that
      train_loop_prefix_frame[of F autograd clf adv adv_criterion adv_optimizer s k data_loader]
    by (simp add: min_def)
  have step: "(adv_opt (after (Suc k)), adv_params (after (Suc k)))
              = adv_optimizer (adv_opt (after k)) (adv_params (after k)) (adv_grad (after (Suc k)))
            \<and> adv_grad (after (Suc k))
              = accumulate F (zero_grad (adv_params (after k)))
                  (autograd (\<lambda>\<theta>. adv_criterion
                                   (adv \<theta> (fst (clf (clf_params s) (rng (after k)) x))) z)
                     (adv_params (after k)))"
    if "k < length data_loader \<and> data_loader ! k = (x, y, z)" for k x y z
    unfolding after_def
    using that
      train_loop_prefix_step[where F=F and autograd=autograd and clf=clf and adv=adv
          and adv_criterion=adv_criterion and adv_optimizer=adv_optimizer and s=s
          and data_loader=data_loader and k=k and x=x and y=y and z=z]
    by blast
  have once: "\<exists>s'. train F autograd clf adv data_loader clf_criterion adv_criterion
                     clf_adv_criterion clf_optimizer adv_optimizer s = Inr s'
               \<and> clf_steps s' = clf_steps s + 1
               \<and> adv_steps s' = adv_steps s + length data_loader
               \<and> (clf_opt s', clf_params s') = clf_optimizer (clf_opt s) (clf_params s) g
               \<and> adv_params s' = adv_params (after (length data_loader))
               \<and> adv_opt s' = adv_opt (after (length data_loader))"
    if ne: "data_loader \<noteq> []"
  proof -
    have pre: "after (length data_loader - 1)
             = fst (train_loop F autograd clf adv adv_criterion adv_optimizer s None
                      (butlast data_loader))"
      unfolding after_def by (simp add: butlast_conv_take)
    have "data_loader = butlast data_loader @ [last data_loader]" using ne by simp
    then have "train_loop F autograd clf adv adv_criterion adv_optimizer s None data_loader
      = (case train_batch F autograd clf adv adv_criterion adv_optimizer
                (after (length data_loader - 1)) (last data_loader) of
           (s', l) \<Rightarrow> (s', Some l))"
      unfolding pre using train_loop_snoc by metis
    then have post: "after (length data_loader)
      = fst (train_batch F autograd clf adv adv_criterion adv_optimizer
               (after (length data_loader - 1)) (last data_loader))"
      unfolding after_def by (simp split: prod.splits)
    show ?thesis
      using train_nonempty[OF ne, where F=F and autograd=autograd and clf=clf and adv=adv
              and adv_criterion=adv_criterion and adv_optimizer=adv_optimizer and s=s
              and clf_criterion=clf_criterion and clf_adv_criterion=clf_adv_criterion
              and clf_optimizer=clf_optimizer]
      unfolding g_def post pre by blast
  qed
  have none: "train F autograd clf adv data_loader clf_criterion adv_criterion
              clf_adv_criterion clf_optimizer adv_optimizer s
            = Inl (UnboundLocalError ''p_y'', s\<lparr>clf_grad := zero_grad (clf_params s)\<rparr>)"
    if "data_loader = []"
    unfolding that by (rule train_empty)
  show ?thesis using frame step once none by blast
qed

text \<open>The theorem on the small instance of the library with the criteria of the
  notebook, on the loader of two batches and on the empty loader.\<close>

theorem train_steps_witness:
  "toy_loader \<noteq> []
   \<and> train exact_ops toy_autograd toy_clf toy_adv toy_loader
       (BCELoss exact_ops) (BCELoss exact_ops) (BCELoss_each exact_ops)
       toy_sgd toy_sgd toy_state =
     Inr \<lparr>clf_params = [1, - (39 / 20)], clf_grad = [0, 1950], clf_opt = 1, clf_steps = 1,
          adv_params = [- (2 / 5)], adv_grad = [1950], adv_opt = 2, adv_steps = 2, rng = 2\<rparr>
   \<and> (\<exists>s'. train exact_ops toy_autograd toy_clf toy_adv toy_loader
              (BCELoss exact_ops) (BCELoss exact_ops) (BCELoss_each exact_ops)
              toy_sgd toy_sgd toy_state = Inr s'
         \<and> clf_steps s' = clf_steps toy_state + 1
         \<and> adv_steps s' = adv_steps toy_state + 2)
   \<and> (1 :: nat) \<le> length toy_loader
   \<and> clf_params (fst (train_loop exact_ops toy_autograd toy_clf toy_adv (BCELoss exact_ops)
         toy_sgd toy_state None (take 1 toy_loader))) = clf_params toy_state
   \<and> (1 :: nat) < length toy_loader
   \<and> toy_loader ! 1 = ([[- 1, 3], [2, 5]], [[1], [1]], [[1], [1]])
   \<and> adv_params (fst (train_loop exact_ops toy_autograd toy_clf toy_adv (BCELoss exact_ops)
         toy_sgd toy_state None (take 1 toy_loader))) = [- (9 / 20)]
   \<and> adv_grad (fst (train_loop exact_ops toy_autograd toy_clf toy_adv (BCELoss exact_ops)
         toy_sgd toy_state None (take 2 toy_loader))) = [- 50]
   \<and> (adv_opt (fst (train_loop exact_ops toy_autograd toy_clf toy_adv (BCELoss exact_ops)
         toy_sgd toy_state None (take 2 toy_loader))),
      adv_params (fst (train_loop exact_ops toy_autograd toy_clf toy_adv (BCELoss exact_ops)
         toy_sgd toy_state None (take 2 toy_loader))))
     = toy_sgd 1 [- (9 / 20)] [- 50]
   \<and> ([] :: (real list list \<times> tensor \<times> tensor) list) = []
   \<and> train exact_ops toy_autograd toy_clf toy_adv []
       (BCELoss exact_ops) (BCELoss exact_ops) (BCELoss_each exact_ops)
       toy_sgd toy_sgd toy_state = Inl (UnboundLocalError ''p_y'', toy_state)"
proof -
  note inst = train_steps[where F=exact_ops and autograd=toy_autograd and clf=toy_clf
      and adv=toy_adv and data_loader=toy_loader and clf_criterion="BCELoss exact_ops"
      and adv_criterion="BCELoss exact_ops" and clf_adv_criterion="BCELoss_each exact_ops"
      and clf_optimizer=toy_sgd and adv_optimizer=toy_sgd and s=toy_state]
  note inst0 = train_steps[where F=exact_ops and autograd=toy_autograd and clf=toy_clf
      and adv=toy_adv and data_loader="[]" and clf_criterion="BCELoss exact_ops"
      and adv_criterion="BCELoss exact_ops" and clf_adv_criterion="BCELoss_each exact_ops"
      and clf_optimizer=toy_sgd and adv_optimizer=toy_sgd and s=toy_state]
  have ne: "toy_loader \<noteq> []" by (simp add: toy_loader_def)
  have a: "\<exists>s'. train exact_ops toy_autograd toy_clf toy_adv toy_loader
              (BCELoss exact_ops) (BCELoss exact_ops) (BCELoss_each exact_ops)
              toy_sgd toy_sgd toy_state = Inr s'
         \<and> clf_steps s' = clf_steps toy_state + 1
         \<and> adv_steps s' = adv_steps toy_state + 2"
  proof -
    have l: "length toy_loader = 2" by (simp add: toy_loader_def)
    show ?thesis using inst ne unfolding l by blast
  qed
  have k1: "(1 :: nat) \<le> length toy_loader" by (simp add: toy_loader_def)
  then have b: "clf_params (fst (train_loop exact_ops toy_autograd toy_clf toy_adv
         (BCELoss exact_ops) toy_sgd toy_state None (take 1 toy_loader))) = clf_params toy_state"
    using inst by blast
  have k2: "(1 :: nat) < length toy_loader"
    and n1: "toy_loader ! 1 = ([[- 1, 3], [2, 5]], [[1], [1]], [[1], [1]])"
    by (simp_all add: toy_loader_def)
  have p1: "adv_params (fst (train_loop exact_ops toy_autograd toy_clf toy_adv
         (BCELoss exact_ops) toy_sgd toy_state None (take 1 toy_loader))) = [- (9 / 20)]"
    and o1: "adv_opt (fst (train_loop exact_ops toy_autograd toy_clf toy_adv
         (BCELoss exact_ops) toy_sgd toy_state None (take 1 toy_loader))) = 1"
    unfolding toy_loop_one by simp_all
  have g2: "adv_grad (fst (train_loop exact_ops toy_autograd toy_clf toy_adv
         (BCELoss exact_ops) toy_sgd toy_state None (take 2 toy_loader))) = [- 50]"
    unfolding toy_loop_two by simp
  have "(adv_opt (fst (train_loop exact_ops toy_autograd toy_clf toy_adv (BCELoss exact_ops)
         toy_sgd toy_state None (take (Suc 1) toy_loader))),
      adv_params (fst (train_loop exact_ops toy_autograd toy_clf toy_adv (BCELoss exact_ops)
         toy_sgd toy_state None (take (Suc 1) toy_loader))))
     = toy_sgd (adv_opt (fst (train_loop exact_ops toy_autograd toy_clf toy_adv
         (BCELoss exact_ops) toy_sgd toy_state None (take 1 toy_loader))))
         (adv_params (fst (train_loop exact_ops toy_autograd toy_clf toy_adv
         (BCELoss exact_ops) toy_sgd toy_state None (take 1 toy_loader))))
         (adv_grad (fst (train_loop exact_ops toy_autograd toy_clf toy_adv (BCELoss exact_ops)
         toy_sgd toy_state None (take (Suc 1) toy_loader))))"
    using inst k2 n1 by blast
  then have c: "(adv_opt (fst (train_loop exact_ops toy_autograd toy_clf toy_adv
         (BCELoss exact_ops) toy_sgd toy_state None (take 2 toy_loader))),
      adv_params (fst (train_loop exact_ops toy_autograd toy_clf toy_adv (BCELoss exact_ops)
         toy_sgd toy_state None (take 2 toy_loader))))
     = toy_sgd 1 [- (9 / 20)] [- 50]"
    unfolding p1 o1 by (simp only: Suc_1 g2 flip: numeral_2_eq_2)
  have e: "([] :: (real list list \<times> tensor \<times> tensor) list) = []" by simp
  have z: "toy_state\<lparr>clf_grad := zero_grad (clf_params toy_state)\<rparr> = toy_state"
    by (simp add: toy_state_def zero_grad_def)
  have d: "train exact_ops toy_autograd toy_clf toy_adv []
       (BCELoss exact_ops) (BCELoss exact_ops) (BCELoss_each exact_ops)
       toy_sgd toy_sgd toy_state = Inl (UnboundLocalError ''p_y'', toy_state)"
    using inst0 unfolding z by blast
  show ?thesis
    by (intro conjI) (rule ne, rule toy_train_two, rule a, rule k1, rule b, rule k2, rule n1,
        rule p1, rule g2, rule c, rule e, rule d)
qed

text \<open>
  Claim C9 as written (every call) fails on a loader that yields no batch, such as the
  notebook's loader (\<^verbatim>\<open>batch_size=32\<close>, \<^verbatim>\<open>drop_last=True\<close>) on fewer than 32 training
  rows: \<^verbatim>\<open>p_y\<close> is unbound after the loop, the call raises, and the classifier's
  optimizer has not stepped.
\<close>

theorem train_empty_loader_counterexample:
  "train exact_ops toy_autograd toy_clf toy_adv [] (BCELoss exact_ops) (BCELoss exact_ops)
     (BCELoss_each exact_ops) toy_sgd toy_sgd toy_state
     = Inl (UnboundLocalError ''p_y'', toy_state)
   \<and> \<not> (\<exists>s'. train exact_ops toy_autograd toy_clf toy_adv [] (BCELoss exact_ops)
              (BCELoss exact_ops) (BCELoss_each exact_ops) toy_sgd toy_sgd toy_state
              = Inr s' \<and> clf_steps s' = clf_steps toy_state + 1)"
  by (simp add: train_empty toy_state_def zero_grad_def)

subsection \<open>The classifier loss\<close>

lemma bce_float32_vals:
  "bce float32_ops 1 1 = 0" "bce float32_ops 0 1 = 100"
  "bce float32_ops (16777215/16777216) 1 = 1/16777216"
  by (simp_all add: bce_def clamp_log_def fl_round_24_vals fl_round_24_ln')

lemma BCELoss_float32_vals:
  "BCELoss float32_ops [[0]] [[1]] = 100"
  "BCELoss float32_ops [[1]] [[1]] = 0"
  "BCELoss float32_ops [[16777215/16777216]] [[1]] = 1/16777216"
  by (simp_all add: BCELoss_def BCELoss_each_def tensor_sum_def numel_def seq_sum_def
        bce_float32_vals fl_round_24_vals)

lemma sum_list_times_20: "(\<Sum>v\<leftarrow>xs. v * 20) = 20 * sum_list xs" for xs :: "real list"
  by (induction xs) (simp_all add: algebra_simps)

lemma concat_times_lambdas:
  "concat (times_lambdas F t) = map (\<lambda>v. rnd F (v * 20)) (concat t)"
  by (induction t) (simp_all add: times_lambdas_def lambdas_def)

lemma numel_concat: "numel t = length (concat t)"
  by (induction t) (simp_all add: numel_def)

lemma mean_less_sum_less:
  fixes a b :: real
  assumes "n = m" "0 < n" "a / real n < b / real m"
  shows "a < b"
  using assms by (simp add: divide_less_cancel)

lemma clamp_log_exact:
  "exp (- 100) \<le> q \<Longrightarrow> clamp_log (\<lambda>x. x) q = ln q"
proof -
  assume a: "exp (- 100) \<le> q"
  have q: "0 < q" using a exp_gt_zero[of "- 100 :: real"] by linarith
  have "ln (exp (- 100)) \<le> ln q" using a q by (subst ln_le_cancel_iff) simp_all
  then show ?thesis using q by (simp add: clamp_log_def)
qed

lemma bce_exact_textbook:
  assumes "exp (- 100) \<le> p" "p \<le> 1 - exp (- 100)"
  shows "bce exact_ops p t = - (t * ln p + (1 - t) * ln (1 - p))"
proof -
  have "exp (- 100) \<le> 1 - p" using assms by simp
  then show ?thesis
    using assms by (simp add: bce_def clamp_log_exact algebra_simps)
qed

lemma exp_minus_100_le_half: "exp (- 100 :: real) \<le> 1/2"
proof -
  have "exp (- 100 :: real) \<le> exp (- 1)" by simp
  moreover have "exp (- 1 :: real) \<le> 1/2"
  proof -
    have "(2 :: real) \<le> exp 1" using exp_ge_add_one_self[of "1 :: real"] by simp
    then show ?thesis by (simp add: exp_minus field_simps)
  qed
  ultimately show ?thesis by linarith
qed

lemma toy_each:
  "BCELoss_each exact_ops [[1], [0]] [[1], [1]] = [[0], [100]]"
  "BCELoss_each exact_ops [[0], [0]] [[1], [1]] = [[100], [100]]"
  by (simp_all add: BCELoss_each_def bce_exact_01)

text \<open>
  Claim C1 (amended). With the criteria of the notebook, the classifier loss that
  \<open>train\<close> computes is the binary cross-entropy of \<open>p_y\<close> against \<open>y\<close> (the mean over
  the batch) minus the sum, over the entries of the batch, of 20 times the binary
  cross-entropy of \<open>adv(p_y)\<close> against \<open>z\<close>, every operation rounded. When the
  rounding is monotone, a larger subtracted sum never gives a larger classifier loss.
  In exact arithmetic the binary cross-entropy of an entry is
  \<open>- (t * ln p + (1 - t) * ln (1 - p))\<close> (for \<open>p\<close> not within \<open>exp (-100)\<close> of 0 or 1),
  the subtracted sum is 20 times the sum of the entries, and a larger adversarial loss
  (as a sum, or as the mean over the same number of entries) makes the classifier loss
  strictly smaller, for the same predictions and labels. And this is the loss that
  \<open>train\<close> differentiates: when the loader is not empty, the gradient buffer of the
  classifier at the return is the gradient of this loss on the last batch.
\<close>

theorem classifier_loss_formula:
  fixes F autograd clf adv data_loader clf_optimizer adv_optimizer s
  defines "s_pre \<equiv> fst (train_loop F autograd clf adv (BCELoss F) adv_optimizer s None
                           (butlast data_loader))"
  defines "penalty \<equiv> (\<lambda>G a b.
             fsum G (map (\<lambda>v. rnd G (v * 20)) (concat (BCELoss_each G a b))))"
  shows "clf_loss F (BCELoss F) (BCELoss_each F) p_y y p_adv z
           = rnd F (BCELoss F p_y y - penalty F p_adv z)
       \<and> (mono (rnd F) \<and> penalty F p_adv z \<le> penalty F p_adv' z' \<longrightarrow>
            clf_loss F (BCELoss F) (BCELoss_each F) p_y y p_adv' z'
              \<le> clf_loss F (BCELoss F) (BCELoss_each F) p_y y p_adv z)
       \<and> clf_loss exact_ops (BCELoss exact_ops) (BCELoss_each exact_ops) p_y y p_adv z
           = BCELoss exact_ops p_y y
             - (\<Sum>v\<leftarrow>concat (BCELoss_each exact_ops p_adv z). v * 20)
       \<and> (exp (- 100) \<le> p \<and> p \<le> 1 - exp (- 100) \<longrightarrow>
            bce exact_ops p t = - (t * ln p + (1 - t) * ln (1 - p)))
       \<and> (sum_list (concat (BCELoss_each exact_ops p_adv z))
            < sum_list (concat (BCELoss_each exact_ops p_adv' z')) \<longrightarrow>
            clf_loss exact_ops (BCELoss exact_ops) (BCELoss_each exact_ops) p_y y p_adv' z'
              < clf_loss exact_ops (BCELoss exact_ops) (BCELoss_each exact_ops) p_y y p_adv z)
       \<and> (numel (BCELoss_each exact_ops p_adv z) = numel (BCELoss_each exact_ops p_adv' z')
            \<and> 0 < numel (BCELoss_each exact_ops p_adv z)
            \<and> BCELoss exact_ops p_adv z < BCELoss exact_ops p_adv' z' \<longrightarrow>
            clf_loss exact_ops (BCELoss exact_ops) (BCELoss_each exact_ops) p_y y p_adv' z'
              < clf_loss exact_ops (BCELoss exact_ops) (BCELoss_each exact_ops) p_y y p_adv z)
       \<and> (data_loader \<noteq> [] \<longrightarrow>
            (\<exists>s'. train F autograd clf adv data_loader (BCELoss F) (BCELoss F) (BCELoss_each F)
                     clf_optimizer adv_optimizer s = Inr s'
               \<and> clf_grad s' = clf_update_grad F autograd clf adv (BCELoss F) (BCELoss_each F)
                                 (clf_params s) (adv_params s') (rng s_pre) (last data_loader)))"
proof -
  have formula: "clf_loss G (BCELoss G) (BCELoss_each G) p_y y pa zz
           = rnd G (BCELoss G p_y y - penalty G pa zz)" for G pa zz
    by (simp add: clf_loss_def tensor_sum_def concat_times_lambdas penalty_def)
  have weak: "clf_loss F (BCELoss F) (BCELoss_each F) p_y y p_adv' z'
              \<le> clf_loss F (BCELoss F) (BCELoss_each F) p_y y p_adv z"
    if h: "mono (rnd F) \<and> penalty F p_adv z \<le> penalty F p_adv' z'"
  proof -
    have "BCELoss F p_y y - penalty F p_adv' z' \<le> BCELoss F p_y y - penalty F p_adv z"
      using h by simp
    then show ?thesis unfolding formula using h by (blast dest: monoD)
  qed
  have exact: "clf_loss exact_ops (BCELoss exact_ops) (BCELoss_each exact_ops) p_y y pa zz
           = BCELoss exact_ops p_y y - (\<Sum>v\<leftarrow>concat (BCELoss_each exact_ops pa zz). v * 20)"
    for pa zz
    unfolding formula by (simp add: penalty_def)
  have tb: "bce exact_ops p t = - (t * ln p + (1 - t) * ln (1 - p))"
    if "exp (- 100) \<le> p \<and> p \<le> 1 - exp (- 100)"
    using that by (intro bce_exact_textbook) simp_all
  have mono: "clf_loss exact_ops (BCELoss exact_ops) (BCELoss_each exact_ops) p_y y p_adv' z'
              < clf_loss exact_ops (BCELoss exact_ops) (BCELoss_each exact_ops) p_y y p_adv z"
    if "sum_list (concat (BCELoss_each exact_ops p_adv z))
            < sum_list (concat (BCELoss_each exact_ops p_adv' z'))"
    using that unfolding exact by (simp add: sum_list_times_20)
  have mono_mean: "clf_loss exact_ops (BCELoss exact_ops) (BCELoss_each exact_ops) p_y y p_adv' z'
              < clf_loss exact_ops (BCELoss exact_ops) (BCELoss_each exact_ops) p_y y p_adv z"
    if h: "numel (BCELoss_each exact_ops p_adv z) = numel (BCELoss_each exact_ops p_adv' z')
            \<and> 0 < numel (BCELoss_each exact_ops p_adv z)
            \<and> BCELoss exact_ops p_adv z < BCELoss exact_ops p_adv' z'"
  proof -
    from h have n: "numel (BCELoss_each exact_ops p_adv z) = numel (BCELoss_each exact_ops p_adv' z')"
      and p: "0 < numel (BCELoss_each exact_ops p_adv z)"
      and l: "BCELoss exact_ops p_adv z < BCELoss exact_ops p_adv' z'"
      by blast+
    have m: "sum_list (concat (BCELoss_each exact_ops p_adv z))
                / real (numel (BCELoss_each exact_ops p_adv z))
              < sum_list (concat (BCELoss_each exact_ops p_adv' z'))
                / real (numel (BCELoss_each exact_ops p_adv' z'))"
      using l unfolding BCELoss_def tensor_sum_def exact_ops_sel .
    have "sum_list (concat (BCELoss_each exact_ops p_adv z))
            < sum_list (concat (BCELoss_each exact_ops p_adv' z'))"
      by (rule mean_less_sum_less[OF n p m])
    then show ?thesis by (rule mono)
  qed
  have tr: "\<exists>s'. train F autograd clf adv data_loader (BCELoss F) (BCELoss F) (BCELoss_each F)
                     clf_optimizer adv_optimizer s = Inr s'
               \<and> clf_grad s' = clf_update_grad F autograd clf adv (BCELoss F) (BCELoss_each F)
                                 (clf_params s) (adv_params s') (rng s_pre) (last data_loader)"
    if ne: "data_loader \<noteq> []"
    using train_nonempty[OF ne, where F=F and autograd=autograd and clf=clf and adv=adv
              and adv_criterion="BCELoss F" and adv_optimizer=adv_optimizer and s=s
              and clf_criterion="BCELoss F" and clf_adv_criterion="BCELoss_each F"
              and clf_optimizer=clf_optimizer]
    unfolding s_pre_def by auto
  show ?thesis using formula weak exact tb mono mono_mean tr by blast
qed

text \<open>
  The theorem on batches of two rows in exact arithmetic (the adversary's output
  (1, 0) against \<open>z = (1, 1)\<close> costs 0 and 100, mean 50, weighted sum 2000; the output
  (0, 0) costs 100 and 100), on one row in \<^verbatim>\<open>float32\<close>, and on the small instance of
  the library.
\<close>

theorem classifier_loss_formula_witness:
  "clf_loss exact_ops (BCELoss exact_ops) (BCELoss_each exact_ops)
       [[1], [0]] [[1], [1]] [[1], [0]] [[1], [1]] = - 1950
   \<and> clf_loss exact_ops (BCELoss exact_ops) (BCELoss_each exact_ops)
       [[1], [0]] [[1], [1]] [[0], [0]] [[1], [1]] = - 3950
   \<and> BCELoss exact_ops [[1], [0]] [[1], [1]] = 50
   \<and> (\<Sum>v\<leftarrow>concat (BCELoss_each exact_ops [[1], [0]] [[1], [1]]). v * 20) = 2000
   \<and> sum_list (concat (BCELoss_each exact_ops [[1], [0]] [[1], [1]]))
       < sum_list (concat (BCELoss_each exact_ops [[0], [0]] [[1], [1]]))
   \<and> numel (BCELoss_each exact_ops [[1], [0]] [[1], [1]])
       = numel (BCELoss_each exact_ops [[0], [0]] [[1], [1]])
   \<and> 0 < numel (BCELoss_each exact_ops [[1], [0]] [[1], [1]])
   \<and> BCELoss exact_ops [[1], [0]] [[1], [1]] < BCELoss exact_ops [[0], [0]] [[1], [1]]
   \<and> clf_loss exact_ops (BCELoss exact_ops) (BCELoss_each exact_ops)
       [[1], [0]] [[1], [1]] [[0], [0]] [[1], [1]]
       < clf_loss exact_ops (BCELoss exact_ops) (BCELoss_each exact_ops)
           [[1], [0]] [[1], [1]] [[1], [0]] [[1], [1]]
   \<and> mono (rnd float32_ops)
   \<and> fsum float32_ops (map (\<lambda>v. rnd float32_ops (v * 20))
         (concat (BCELoss_each float32_ops [[1]] [[1]])))
       \<le> fsum float32_ops (map (\<lambda>v. rnd float32_ops (v * 20))
         (concat (BCELoss_each float32_ops [[16777215/16777216]] [[1]])))
   \<and> clf_loss float32_ops (BCELoss float32_ops) (BCELoss_each float32_ops)
        [[0]] [[1]] [[16777215/16777216]] [[1]]
       \<le> clf_loss float32_ops (BCELoss float32_ops) (BCELoss_each float32_ops)
            [[0]] [[1]] [[1]] [[1]]
   \<and> exp (- 100) \<le> (1/2 :: real) \<and> (1/2 :: real) \<le> 1 - exp (- 100)
   \<and> bce exact_ops (1/2) 1 = ln 2
   \<and> toy_loader \<noteq> []
   \<and> (\<exists>s'. train exact_ops toy_autograd toy_clf toy_adv toy_loader
              (BCELoss exact_ops) (BCELoss exact_ops) (BCELoss_each exact_ops)
              toy_sgd toy_sgd toy_state = Inr s'
         \<and> clf_grad s' = clf_update_grad exact_ops toy_autograd toy_clf toy_adv
                             (BCELoss exact_ops) (BCELoss_each exact_ops)
                             (clf_params toy_state) (adv_params s')
                             (rng (fst (train_loop exact_ops toy_autograd toy_clf toy_adv
                                          (BCELoss exact_ops) toy_sgd toy_state None
                                          (butlast toy_loader))))
                             (last toy_loader))"
proof -
  note a = classifier_loss_formula[where p_y="[[1], [0]]" and y="[[1], [1]]"
      and p_adv="[[1], [0]]" and z="[[1], [1]]" and p_adv'="[[0], [0]]" and z'="[[1], [1]]"
      and p="1/2" and t=1]
  note b = classifier_loss_formula[where p_y="[[1], [0]]" and y="[[1], [1]]"
      and p_adv="[[0], [0]]" and z="[[1], [1]]"]
  note c = classifier_loss_formula[where F=float32_ops and p_y="[[0]]" and y="[[1]]"
      and p_adv="[[1]]" and z="[[1]]" and p_adv'="[[16777215/16777216]]" and z'="[[1]]"]
  note d = classifier_loss_formula[where F=exact_ops and autograd=toy_autograd
      and clf=toy_clf and adv=toy_adv and data_loader=toy_loader and clf_optimizer=toy_sgd
      and adv_optimizer=toy_sgd and s=toy_state]
  have m: "BCELoss exact_ops [[1], [0]] [[1], [1]] = 50"
    and m': "BCELoss exact_ops [[0], [0]] [[1], [1]] = 100"
    by (simp_all add: BCELoss_def tensor_sum_def numel_def toy_each)
  have w: "(\<Sum>v\<leftarrow>concat (BCELoss_each exact_ops [[1], [0]] [[1], [1]]). v * 20) = 2000"
    and w': "(\<Sum>v\<leftarrow>concat (BCELoss_each exact_ops [[0], [0]] [[1], [1]]). v * 20) = 4000"
    by (simp_all add: toy_each)
  have v1: "clf_loss exact_ops (BCELoss exact_ops) (BCELoss_each exact_ops)
       [[1], [0]] [[1], [1]] [[1], [0]] [[1], [1]] = - 1950"
    using a[THEN conjunct2, THEN conjunct2, THEN conjunct1] unfolding m w by simp
  have v2: "clf_loss exact_ops (BCELoss exact_ops) (BCELoss_each exact_ops)
       [[1], [0]] [[1], [1]] [[0], [0]] [[1], [1]] = - 3950"
    using b[THEN conjunct2, THEN conjunct2, THEN conjunct1] unfolding m w' by simp
  have lt: "sum_list (concat (BCELoss_each exact_ops [[1], [0]] [[1], [1]]))
       < sum_list (concat (BCELoss_each exact_ops [[0], [0]] [[1], [1]]))"
    by (simp add: toy_each)
  have n: "numel (BCELoss_each exact_ops [[1], [0]] [[1], [1]])
       = numel (BCELoss_each exact_ops [[0], [0]] [[1], [1]])"
    and p: "0 < numel (BCELoss_each exact_ops [[1], [0]] [[1], [1]])"
    by (simp_all add: numel_def toy_each)
  have ml: "BCELoss exact_ops [[1], [0]] [[1], [1]] < BCELoss exact_ops [[0], [0]] [[1], [1]]"
    unfolding m m' by simp
  have r1: "clf_loss exact_ops (BCELoss exact_ops) (BCELoss_each exact_ops)
       [[1], [0]] [[1], [1]] [[0], [0]] [[1], [1]]
       < clf_loss exact_ops (BCELoss exact_ops) (BCELoss_each exact_ops)
           [[1], [0]] [[1], [1]] [[1], [0]] [[1], [1]]"
    using a n p ml by blast
  have mono: "mono (rnd float32_ops)"
    by (rule monoI) (simp add: fl_round_mono)
  have pen: "fsum float32_ops (map (\<lambda>v. rnd float32_ops (v * 20))
         (concat (BCELoss_each float32_ops [[1]] [[1]])))
       \<le> fsum float32_ops (map (\<lambda>v. rnd float32_ops (v * 20))
         (concat (BCELoss_each float32_ops [[16777215/16777216]] [[1]])))"
    by (simp add: BCELoss_each_def seq_sum_def bce_float32_vals fl_round_24_vals)
  have r2: "clf_loss float32_ops (BCELoss float32_ops) (BCELoss_each float32_ops)
        [[0]] [[1]] [[16777215/16777216]] [[1]]
       \<le> clf_loss float32_ops (BCELoss float32_ops) (BCELoss_each float32_ops)
            [[0]] [[1]] [[1]] [[1]]"
    using c mono pen by blast
  have h1: "exp (- 100) \<le> (1/2 :: real)" by (rule exp_minus_100_le_half)
  have h2: "(1/2 :: real) \<le> 1 - exp (- 100)" using exp_minus_100_le_half by simp
  have "bce exact_ops (1/2) 1 = - (1 * ln (1/2) + (1 - 1) * ln (1 - 1/2))"
    using a h1 h2 by blast
  then have r3: "bce exact_ops (1/2) 1 = ln 2"
    by (simp add: ln_div)
  have ne: "toy_loader \<noteq> []" by (simp add: toy_loader_def)
  have r4: "\<exists>s'. train exact_ops toy_autograd toy_clf toy_adv toy_loader
              (BCELoss exact_ops) (BCELoss exact_ops) (BCELoss_each exact_ops)
              toy_sgd toy_sgd toy_state = Inr s'
         \<and> clf_grad s' = clf_update_grad exact_ops toy_autograd toy_clf toy_adv
                             (BCELoss exact_ops) (BCELoss_each exact_ops)
                             (clf_params toy_state) (adv_params s')
                             (rng (fst (train_loop exact_ops toy_autograd toy_clf toy_adv
                                          (BCELoss exact_ops) toy_sgd toy_state None
                                          (butlast toy_loader))))
                             (last toy_loader)"
    using d ne by blast
  show ?thesis
    by (intro conjI) (rule v1, rule v2, rule m, rule w, rule lt, rule n, rule p, rule ml,
        rule r1, rule mono, rule pen, rule r2, rule h1, rule h2, rule r3, rule ne, rule r4)
qed

text \<open>
  Claim C1 as written (a larger adversarial loss strictly decreases the classifier loss,
  for every batch) fails in \<^verbatim>\<open>float32\<close>: with the prediction 0 for the label 1
  the cross-entropy of the classifier is 100; the adversary's output \<open>1 - 2\<^sup>-\<^sup>2\<^sup>4\<close>
  for \<open>z = 1\<close> has the loss \<open>2\<^sup>-\<^sup>2\<^sup>4\<close>, larger than the loss 0 of the output 1, but
  100 minus 20 times \<open>2\<^sup>-\<^sup>2\<^sup>4\<close> rounds to 100: the classifier loss is 100 in both
  cases.
\<close>

theorem classifier_loss_not_strict_counterexample:
  "BCELoss float32_ops [[1]] [[1]] < BCELoss float32_ops [[16777215/16777216]] [[1]]
   \<and> tensor_sum float32_ops (BCELoss_each float32_ops [[1]] [[1]])
       < tensor_sum float32_ops (BCELoss_each float32_ops [[16777215/16777216]] [[1]])
   \<and> clf_loss float32_ops (BCELoss float32_ops) (BCELoss_each float32_ops)
        [[0]] [[1]] [[1]] [[1]] = 100
   \<and> clf_loss float32_ops (BCELoss float32_ops) (BCELoss_each float32_ops)
        [[0]] [[1]] [[16777215/16777216]] [[1]] = 100
   \<and> \<not> (clf_loss float32_ops (BCELoss float32_ops) (BCELoss_each float32_ops)
            [[0]] [[1]] [[16777215/16777216]] [[1]]
          < clf_loss float32_ops (BCELoss float32_ops) (BCELoss_each float32_ops)
              [[0]] [[1]] [[1]] [[1]])"
proof -
  have s: "tensor_sum float32_ops (BCELoss_each float32_ops [[1]] [[1]]) = 0"
    "tensor_sum float32_ops (BCELoss_each float32_ops [[16777215/16777216]] [[1]]) = 1/16777216"
    by (simp_all add: BCELoss_each_def tensor_sum_def seq_sum_def bce_float32_vals fl_round_24_vals)
  have c1: "clf_loss float32_ops (BCELoss float32_ops) (BCELoss_each float32_ops)
        [[0]] [[1]] [[1]] [[1]] = 100"
    by (simp add: clf_loss_def BCELoss_float32_vals BCELoss_each_def tensor_sum_def seq_sum_def
          times_lambdas_def lambdas_def bce_float32_vals fl_round_24_vals)
  have c2: "clf_loss float32_ops (BCELoss float32_ops) (BCELoss_each float32_ops)
        [[0]] [[1]] [[16777215/16777216]] [[1]] = 100"
    by (simp add: clf_loss_def BCELoss_float32_vals BCELoss_each_def tensor_sum_def seq_sum_def
          times_lambdas_def lambdas_def bce_float32_vals fl_round_24_vals)
  show ?thesis
    unfolding c1 c2 s BCELoss_float32_vals by simp
qed

subsection \<open>What the adversary is trained on\<close>

text \<open>
  Claim C2. The first layer of \<open>Adverserial\<close> is \<open>Linear 1 n_hidden\<close>: the network
  accepts rows of width 1 and no other, and the classifier's output has width 1.
  \<open>outputs\<close> is the list of the pairs (classifier output, \<open>z\<close>) of the batches of a
  loader, and \<open>trained\<close> the adversary (its optimizer state and its parameters) after
  one optimizer step per pair, in order, each on the gradient of the binary
  cross-entropy of \<open>adv(p)\<close> against \<open>z\<close> taken from a zeroed buffer.
  \<open>pretrain_adverserial\<close> leaves the adversary \<open>trained\<close> on the \<open>outputs\<close> of its
  loader and does not change the classifier; so does the loop of \<open>train\<close>, and so does
  \<open>train\<close> when the loader is not empty. The inputs \<open>x\<close> enter only through \<open>clf(x)\<close>:
  two loaders with the same \<open>outputs\<close> leave the same adversary, whatever their inputs
  and labels. After the loop, \<open>train\<close> applies the adversary to the classifier's output
  again: the gradient of the classifier is that of the classifier loss of \<open>p_y\<close>, \<open>y\<close>,
  \<open>adv(p_y)\<close> and \<open>z\<close>.
\<close>

theorem adversary_input_is_classifier_output:
  fixes F autograd clf adv data_loader optimizer clf_optimizer s
  defines "outputs \<equiv> clf_outputs clf (clf_params s) (rng s)"
  defines "trained \<equiv> adv_run F autograd adv optimizer (BCELoss F) (adv_opt s, adv_params s)"
  defines "s_pre \<equiv> fst (train_loop F autograd clf adv (BCELoss F) optimizer s None
                           (butlast data_loader))"
  shows "hd (Adverserial n_sensitive n_hidden) = Linear 1 n_hidden
   \<and> sequential_width (Adverserial n_sensitive n_hidden) n
       = (if n = 1 then Some n_sensitive else None)
   \<and> sequential_width (Classifier n_features n_hidden p_dropout) n_features = Some 1
   \<and> (adv_opt (pretrain_adverserial F autograd adv clf data_loader optimizer (BCELoss F) s),
      adv_params (pretrain_adverserial F autograd adv clf data_loader optimizer (BCELoss F) s))
       = trained (outputs data_loader)
   \<and> clf_params (pretrain_adverserial F autograd adv clf data_loader optimizer (BCELoss F) s)
       = clf_params s
   \<and> (adv_opt (fst (train_loop F autograd clf adv (BCELoss F) optimizer s None data_loader)),
      adv_params (fst (train_loop F autograd clf adv (BCELoss F) optimizer s None data_loader)))
       = trained (outputs data_loader)
   \<and> trained [] = (adv_opt s, adv_params s)
   \<and> trained (pzs @ [(p, z)])
       = optimizer (fst (trained pzs)) (snd (trained pzs))
           (accumulate F (zero_grad (snd (trained pzs)))
              (autograd (\<lambda>\<theta>. BCELoss F (adv \<theta> p) z) (snd (trained pzs))))
   \<and> (outputs data_loader = outputs data_loader' \<longrightarrow>
        adv_params (pretrain_adverserial F autograd adv clf data_loader' optimizer (BCELoss F) s)
          = adv_params (pretrain_adverserial F autograd adv clf data_loader optimizer (BCELoss F) s)
        \<and> adv_params (fst (train_loop F autograd clf adv (BCELoss F) optimizer s None data_loader'))
          = adv_params (fst (train_loop F autograd clf adv (BCELoss F) optimizer s None data_loader)))
   \<and> (data_loader \<noteq> [] \<longrightarrow>
        (\<exists>s'. train F autograd clf adv data_loader (BCELoss F) (BCELoss F) (BCELoss_each F)
                 clf_optimizer optimizer s = Inr s'
           \<and> (adv_opt s', adv_params s') = trained (outputs data_loader)
           \<and> (\<forall>x y z. last data_loader = (x, y, z) \<longrightarrow>
                clf_grad s' = accumulate F (zero_grad (clf_params s))
                  (autograd (\<lambda>\<theta>. clf_loss F (BCELoss F) (BCELoss_each F)
                                   (fst (clf \<theta> (rng s_pre) x)) y
                                   (adv (adv_params s') (fst (clf \<theta> (rng s_pre) x))) z)
                     (clf_params s)))))"
proof -
  have w1: "hd (Adverserial n_sensitive n_hidden) = Linear 1 n_hidden"
    by (simp add: Adverserial_def)
  have w2: "sequential_width (Adverserial n_sensitive n_hidden) n
       = (if n = 1 then Some n_sensitive else None)"
    by (simp add: Adverserial_def)
  have w3: "sequential_width (Classifier n_features n_hidden p_dropout) n_features = Some 1"
    by (simp add: Classifier_def)
  have pre: "(adv_opt (pretrain_adverserial F autograd adv clf dl optimizer (BCELoss F) s),
      adv_params (pretrain_adverserial F autograd adv clf dl optimizer (BCELoss F) s))
       = trained (outputs dl)"
    and prec: "clf_params (pretrain_adverserial F autograd adv clf dl optimizer (BCELoss F) s)
       = clf_params s" for dl
    using pretrain_adverserial_adv_run[OF refl, of F autograd adv clf dl optimizer "BCELoss F" s]
    unfolding trained_def outputs_def by simp_all
  have loop: "(adv_opt (fst (train_loop F autograd clf adv (BCELoss F) optimizer s None dl)),
      adv_params (fst (train_loop F autograd clf adv (BCELoss F) optimizer s None dl)))
       = trained (outputs dl)" for dl
    using train_loop_adv_run[of F autograd clf adv "BCELoss F" optimizer s None dl]
    unfolding trained_def outputs_def by (metis prod.collapse)
  have t0: "trained [] = (adv_opt s, adv_params s)"
    by (simp add: trained_def adv_run_def)
  have t1: "trained (pzs @ [(p, z)])
       = optimizer (fst (trained pzs)) (snd (trained pzs))
           (accumulate F (zero_grad (snd (trained pzs)))
              (autograd (\<lambda>\<theta>. BCELoss F (adv \<theta> p) z) (snd (trained pzs))))"
    by (simp add: trained_def adv_run_def adv_step_def)
  have same: "adv_params (pretrain_adverserial F autograd adv clf data_loader' optimizer (BCELoss F) s)
          = adv_params (pretrain_adverserial F autograd adv clf data_loader optimizer (BCELoss F) s)
        \<and> adv_params (fst (train_loop F autograd clf adv (BCELoss F) optimizer s None data_loader'))
          = adv_params (fst (train_loop F autograd clf adv (BCELoss F) optimizer s None data_loader))"
    if "outputs data_loader = outputs data_loader'"
    using pre[of data_loader] pre[of data_loader'] loop[of data_loader] loop[of data_loader'] that
    by (metis snd_conv)
  have tr: "\<exists>s'. train F autograd clf adv data_loader (BCELoss F) (BCELoss F) (BCELoss_each F)
                 clf_optimizer optimizer s = Inr s'
           \<and> (adv_opt s', adv_params s') = trained (outputs data_loader)
           \<and> (\<forall>x y z. last data_loader = (x, y, z) \<longrightarrow>
                clf_grad s' = accumulate F (zero_grad (clf_params s))
                  (autograd (\<lambda>\<theta>. clf_loss F (BCELoss F) (BCELoss_each F)
                                   (fst (clf \<theta> (rng s_pre) x)) y
                                   (adv (adv_params s') (fst (clf \<theta> (rng s_pre) x))) z)
                     (clf_params s)))"
    if ne: "data_loader \<noteq> []"
  proof -
    let ?post = "fst (train_batch F autograd clf adv (BCELoss F) optimizer s_pre (last data_loader))"
    from train_nonempty[OF ne, where F=F and autograd=autograd and clf=clf and adv=adv
              and adv_criterion="BCELoss F" and adv_optimizer=optimizer and s=s
              and clf_criterion="BCELoss F" and clf_adv_criterion="BCELoss_each F"
              and clf_optimizer=clf_optimizer]
    obtain s' where s': "train F autograd clf adv data_loader (BCELoss F) (BCELoss F)
                 (BCELoss_each F) clf_optimizer optimizer s = Inr s'"
      and g: "clf_grad s' = clf_update_grad F autograd clf adv (BCELoss F) (BCELoss_each F)
                  (clf_params s) (adv_params ?post) (rng s_pre) (last data_loader)"
      and ap: "adv_params s' = adv_params ?post" and ao: "adv_opt s' = adv_opt ?post"
      unfolding s_pre_def by blast
    have "data_loader = butlast data_loader @ [last data_loader]" using ne by simp
    then have "train_loop F autograd clf adv (BCELoss F) optimizer s None data_loader
      = (case train_batch F autograd clf adv (BCELoss F) optimizer s_pre (last data_loader) of
           (s', l) \<Rightarrow> (s', Some l))"
      unfolding s_pre_def using train_loop_snoc by metis
    then have post: "fst (train_loop F autograd clf adv (BCELoss F) optimizer s None data_loader)
                  = ?post"
      by (simp split: prod.splits)
    have adv: "(adv_opt s', adv_params s') = trained (outputs data_loader)"
      using loop[of data_loader] unfolding post ap ao .
    have grad: "clf_grad s' = accumulate F (zero_grad (clf_params s))
                  (autograd (\<lambda>\<theta>. clf_loss F (BCELoss F) (BCELoss_each F)
                                   (fst (clf \<theta> (rng s_pre) x)) y
                                   (adv (adv_params s') (fst (clf \<theta> (rng s_pre) x))) z)
                     (clf_params s))"
      if "last data_loader = (x, y, z)" for x y z
      unfolding g ap that clf_update_grad_def p_y_graph_def by simp
    show ?thesis using s' adv grad by blast
  qed
  show ?thesis
    using w1 w2 w3 pre[of data_loader] prec[of data_loader] loop[of data_loader] t0 t1 same tr
    by blast
qed

text \<open>The theorem on the small instance of the library: a second loader with other
  inputs and labels and the same classifier outputs leaves the same adversary.\<close>

theorem adversary_input_is_classifier_output_witness:
  "clf_outputs toy_clf (clf_params toy_state) (rng toy_state) toy_loader
     = clf_outputs toy_clf (clf_params toy_state) (rng toy_state)
         [([[3, 7], [- 2, 0]], [[0], [0]], [[1], [1]]),
          ([[- 5, 1], [4, - 4]], [[0], [1]], [[1], [1]])]
   \<and> adv_params (pretrain_adverserial exact_ops toy_autograd toy_adv toy_clf
         [([[3, 7], [- 2, 0]], [[0], [0]], [[1], [1]]),
          ([[- 5, 1], [4, - 4]], [[0], [1]], [[1], [1]])]
         toy_sgd (BCELoss exact_ops) toy_state) = [- (2 / 5)]
   \<and> adv_params (pretrain_adverserial exact_ops toy_autograd toy_adv toy_clf toy_loader
         toy_sgd (BCELoss exact_ops) toy_state) = [- (2 / 5)]
   \<and> adv_run exact_ops toy_autograd toy_adv toy_sgd (BCELoss exact_ops)
         (adv_opt toy_state, adv_params toy_state)
         [([[1], [0]], [[1], [1]]), ([[0], [1]], [[1], [1]])] = (2, [- (2 / 5)])
   \<and> toy_loader \<noteq> []
   \<and> last toy_loader = ([[- 1, 3], [2, 5]], [[1], [1]], [[1], [1]])
   \<and> (\<exists>s'. train exact_ops toy_autograd toy_clf toy_adv toy_loader
              (BCELoss exact_ops) (BCELoss exact_ops) (BCELoss_each exact_ops)
              toy_sgd toy_sgd toy_state = Inr s'
         \<and> (adv_opt s', adv_params s') = (2, [- (2 / 5)])
         \<and> clf_grad s' = accumulate exact_ops (zero_grad (clf_params toy_state))
              (toy_autograd
                 (\<lambda>\<theta>. clf_loss exact_ops (BCELoss exact_ops) (BCELoss_each exact_ops)
                        (fst (toy_clf \<theta> (rng (fst (train_loop exact_ops toy_autograd toy_clf
                                 toy_adv (BCELoss exact_ops) toy_sgd toy_state None
                                 (butlast toy_loader)))) [[- 1, 3], [2, 5]]))
                        [[1], [1]]
                        (toy_adv (adv_params s')
                           (fst (toy_clf \<theta> (rng (fst (train_loop exact_ops toy_autograd
                                    toy_clf toy_adv (BCELoss exact_ops) toy_sgd toy_state None
                                    (butlast toy_loader)))) [[- 1, 3], [2, 5]])))
                        [[1], [1]])
                 (clf_params toy_state))
         \<and> clf_grad s' = [0, 1950])
   \<and> hd (Adverserial 1 32) = Linear 1 32
   \<and> sequential_width (Adverserial 1 32) 1 = Some 1
   \<and> sequential_width (Adverserial 1 32) 2 = None
   \<and> sequential_width (Classifier 2 32 (1/5)) 2 = Some 1"
proof -
  let ?dl' = "[([[3, 7], [- 2, 0]], [[0], [0]], [[1], [1]]),
               ([[- 5, 1], [4, - 4]], [[0 :: real], [1]], [[1 :: real], [1]])]"
  note inst = adversary_input_is_classifier_output[where F=exact_ops and autograd=toy_autograd
      and clf=toy_clf and adv=toy_adv and optimizer=toy_sgd and clf_optimizer=toy_sgd
      and s=toy_state and data_loader=toy_loader and data_loader'="?dl'"
      and n_sensitive=1 and n_hidden=32]
  have o: "clf_outputs toy_clf (clf_params toy_state) (rng toy_state) toy_loader
     = clf_outputs toy_clf (clf_params toy_state) (rng toy_state) ?dl'"
    by (simp add: toy_defs)
  have p0: "adv_params (pretrain_adverserial exact_ops toy_autograd toy_adv toy_clf toy_loader
         toy_sgd (BCELoss exact_ops) toy_state) = [- (2 / 5)]"
    unfolding toy_pretrain by simp
  have "adv_params (pretrain_adverserial exact_ops toy_autograd toy_adv toy_clf ?dl'
         toy_sgd (BCELoss exact_ops) toy_state)
      = adv_params (pretrain_adverserial exact_ops toy_autograd toy_adv toy_clf toy_loader
         toy_sgd (BCELoss exact_ops) toy_state)"
    using inst o by blast
  then have p1: "adv_params (pretrain_adverserial exact_ops toy_autograd toy_adv toy_clf ?dl'
         toy_sgd (BCELoss exact_ops) toy_state) = [- (2 / 5)]"
    unfolding p0 .
  have "(adv_opt (pretrain_adverserial exact_ops toy_autograd toy_adv toy_clf toy_loader
            toy_sgd (BCELoss exact_ops) toy_state),
         adv_params (pretrain_adverserial exact_ops toy_autograd toy_adv toy_clf toy_loader
            toy_sgd (BCELoss exact_ops) toy_state))
       = adv_run exact_ops toy_autograd toy_adv toy_sgd (BCELoss exact_ops)
           (adv_opt toy_state, adv_params toy_state)
           (clf_outputs toy_clf (clf_params toy_state) (rng toy_state) toy_loader)"
    using inst by blast
  then have r: "adv_run exact_ops toy_autograd toy_adv toy_sgd (BCELoss exact_ops)
         (adv_opt toy_state, adv_params toy_state)
         [([[1], [0]], [[1], [1]]), ([[0], [1]], [[1], [1]])] = (2, [- (2 / 5)])"
    unfolding toy_pretrain toy_clf_outputs by simp
  have ne: "toy_loader \<noteq> []" by (simp add: toy_loader_def)
  have la: "last toy_loader = ([[- 1, 3], [2, 5]], [[1], [1]], [[1], [1]])"
    by (simp add: toy_loader_def)
  from inst ne obtain s' where s': "train exact_ops toy_autograd toy_clf toy_adv toy_loader
              (BCELoss exact_ops) (BCELoss exact_ops) (BCELoss_each exact_ops)
              toy_sgd toy_sgd toy_state = Inr s'"
    and av: "(adv_opt s', adv_params s')
            = adv_run exact_ops toy_autograd toy_adv toy_sgd (BCELoss exact_ops)
                (adv_opt toy_state, adv_params toy_state)
                (clf_outputs toy_clf (clf_params toy_state) (rng toy_state) toy_loader)"
    and gr: "\<And>x y z. last toy_loader = (x, y, z) \<Longrightarrow>
              clf_grad s' = accumulate exact_ops (zero_grad (clf_params toy_state))
                (toy_autograd
                   (\<lambda>\<theta>. clf_loss exact_ops (BCELoss exact_ops) (BCELoss_each exact_ops)
                          (fst (toy_clf \<theta> (rng (fst (train_loop exact_ops toy_autograd toy_clf
                                   toy_adv (BCELoss exact_ops) toy_sgd toy_state None
                                   (butlast toy_loader)))) x))
                          y
                          (toy_adv (adv_params s')
                             (fst (toy_clf \<theta> (rng (fst (train_loop exact_ops toy_autograd
                                      toy_clf toy_adv (BCELoss exact_ops) toy_sgd toy_state None
                                      (butlast toy_loader)))) x)))
                          z)
                   (clf_params toy_state))"
    by blast
  have gv: "clf_grad s' = [0, 1950]"
    using s' unfolding toy_train_two by auto
  have t: "\<exists>s'. train exact_ops toy_autograd toy_clf toy_adv toy_loader
              (BCELoss exact_ops) (BCELoss exact_ops) (BCELoss_each exact_ops)
              toy_sgd toy_sgd toy_state = Inr s'
         \<and> (adv_opt s', adv_params s') = (2, [- (2 / 5)])
         \<and> clf_grad s' = accumulate exact_ops (zero_grad (clf_params toy_state))
              (toy_autograd
                 (\<lambda>\<theta>. clf_loss exact_ops (BCELoss exact_ops) (BCELoss_each exact_ops)
                        (fst (toy_clf \<theta> (rng (fst (train_loop exact_ops toy_autograd toy_clf
                                 toy_adv (BCELoss exact_ops) toy_sgd toy_state None
                                 (butlast toy_loader)))) [[- 1, 3], [2, 5]]))
                        [[1], [1]]
                        (toy_adv (adv_params s')
                           (fst (toy_clf \<theta> (rng (fst (train_loop exact_ops toy_autograd
                                    toy_clf toy_adv (BCELoss exact_ops) toy_sgd toy_state None
                                    (butlast toy_loader)))) [[- 1, 3], [2, 5]])))
                        [[1], [1]])
                 (clf_params toy_state))
         \<and> clf_grad s' = [0, 1950]"
    using s' av[unfolded toy_clf_outputs r] gr[OF la] gv by blast
  have h: "hd (Adverserial 1 32) = Linear 1 32"
    by (rule inst[THEN conjunct1])
  have w1: "sequential_width (Adverserial 1 32) 1 = Some 1"
    using adversary_input_is_classifier_output[where n_sensitive=1 and n_hidden=32 and n=1,
        THEN conjunct2, THEN conjunct1]
    by simp
  have w2: "sequential_width (Adverserial 1 32) 2 = None"
    using adversary_input_is_classifier_output[where n_sensitive=1 and n_hidden=32 and n=2,
        THEN conjunct2, THEN conjunct1]
    by simp
  have w3: "sequential_width (Classifier 2 32 (1/5)) 2 = Some 1"
    using adversary_input_is_classifier_output[where n_features=2 and n_hidden=32
        and p_dropout="1/5", THEN conjunct2, THEN conjunct2, THEN conjunct1]
    by simp
  show ?thesis
    by (intro conjI) (rule o, rule p1, rule p0, rule r, rule ne, rule la, rule t, rule h,
        rule w1, rule w2, rule w3)
qed

section \<open>Failures\<close>









lemma np_div_fl_nan [simp]: "np_div_fl r NaN b = NaN" "np_div_fl r a NaN = NaN"
proof -
  show "np_div_fl r NaN b = NaN" by (simp add: np_div_fl_def round_np_def)
  show "np_div_fl r a NaN = NaN" by (cases a) (simp_all add: np_div_fl_def round_np_def)
qed







end
